(* ===== verification/Prelude.thy ===== *)
theory Prelude
  imports Main "HOL-Library.Word"
begin

text \<open>
  The prelude of the development: the machine integers of the code, the little-endian
  encoding of words as bytes (Rust's \<^verbatim>\<open>to_le_bytes\<close> / \<^verbatim>\<open>from_le_bytes\<close>, and the way wasm
  stores integers in linear memory), byte-addressed stores with their read-over-write
  laws, and the named collections that carry the proofs of the component theories.
\<close>

section \<open>Machine integers\<close>

type_synonym u8 = "8 word"
type_synonym u32 = "32 word"
type_synonym u64 = "64 word"

lemma unat_u8_less: "unat (b :: u8) < 256"
proof -
  have "unat b < 2 ^ LENGTH(8)" by (rule unsigned_less)
  then show ?thesis by simp
qed

lemma unat_u32_less: "unat (w :: u32) < 4294967296"
proof -
  have "unat w < 2 ^ LENGTH(32)" by (rule unsigned_less)
  then show ?thesis by simp
qed

lemma unat_u64_less: "unat (w :: u64) < 18446744073709551616"
proof -
  have "unat w < 2 ^ LENGTH(64)" by (rule unsigned_less)
  then show ?thesis by simp
qed

named_theorems mem_simps "read-over-write laws of byte-addressed memory"
named_theorems wasm_simps "evaluation laws of the wasm memory monad"

named_theorems word_nat "words that are the image of a small enough number"

lemma unat_nat32 [word_nat]: "a < 4294967296 \<Longrightarrow> unat (word_of_nat a :: u32) = a"
  by (simp add: unat_of_nat)

lemma unat_nat64 [word_nat]: "a < 18446744073709551616 \<Longrightarrow> unat (word_of_nat a :: u64) = a"
  by (simp add: unat_of_nat)

lemma ucast_nat_32_64 [word_nat]:
  "a < 4294967296 \<Longrightarrow> ucast (word_of_nat a :: u32) = (word_of_nat a :: u64)"
  by (rule word_unat_eq_iff [THEN iffD2])
    (simp add: unsigned_ucast_eq unat_of_nat take_bit_eq_mod)

lemma ucast_nat_64_32 [word_nat]: "ucast (word_of_nat a :: u64) = (word_of_nat a :: u32)"
  by (rule word_unat_eq_iff [THEN iffD2])
    (simp add: unsigned_ucast_eq unat_of_nat take_bit_eq_mod mod_mod_cancel)

lemma nat64_less [word_nat]:
  "a < 18446744073709551616 \<Longrightarrow> b < 18446744073709551616 \<Longrightarrow>
     ((word_of_nat a :: u64) < word_of_nat b) = (a < b)"
  by (simp add: word_less_nat_alt unat_of_nat)

lemma nat64_le [word_nat]:
  "a < 18446744073709551616 \<Longrightarrow> b < 18446744073709551616 \<Longrightarrow>
     ((word_of_nat a :: u64) \<le> word_of_nat b) = (a \<le> b)"
  by (simp add: word_le_nat_alt unat_of_nat)

lemma nat32_le [word_nat]:
  "a < 4294967296 \<Longrightarrow> b < 4294967296 \<Longrightarrow>
     ((word_of_nat a :: u32) \<le> word_of_nat b) = (a \<le> b)"
  by (simp add: word_le_nat_alt unat_of_nat)

lemma nat64_eq [word_nat]:
  "a < 18446744073709551616 \<Longrightarrow> b < 18446744073709551616 \<Longrightarrow>
     ((word_of_nat a :: u64) = word_of_nat b) = (a = b)"
  by (simp add: word_unat_eq_iff unat_of_nat)

lemma nat32_eq [word_nat]:
  "a < 4294967296 \<Longrightarrow> b < 4294967296 \<Longrightarrow>
     ((word_of_nat a :: u32) = word_of_nat b) = (a = b)"
  by (simp add: word_unat_eq_iff unat_of_nat)

lemma nat_word_add: "(word_of_nat a :: 'a::len word) + word_of_nat b = word_of_nat (a + b)"
  by simp

lemma nat_word_diff:
  "b \<le> a \<Longrightarrow> (word_of_nat a :: 'a::len word) - word_of_nat b = word_of_nat (a - b)"
  by (simp add: of_nat_diff)

section \<open>Little-endian encoding\<close>

fun le_encode :: "nat \<Rightarrow> nat \<Rightarrow> u8 list" where
  "le_encode 0 v = []"
| "le_encode (Suc k) v = word_of_nat (v mod 256) # le_encode k (v div 256)"

fun le_decode :: "u8 list \<Rightarrow> nat" where
  "le_decode [] = 0"
| "le_decode (b # bs) = unat b + 256 * le_decode bs"

definition to_le_bytes :: "'a::len word \<Rightarrow> u8 list" where
  "to_le_bytes w = le_encode (LENGTH('a) div 8) (unat w)"

definition from_le_bytes :: "u8 list \<Rightarrow> 'a::len word" where
  "from_le_bytes bs = word_of_nat (le_decode bs)"

lemma length_le_encode [simp]: "length (le_encode k v) = k"
  by (induction k arbitrary: v) auto

lemma le_decode_encode: "le_decode (le_encode k v) = v mod 256 ^ k"
proof (induction k arbitrary: v)
  case 0
  then show ?case by simp
next
  case (Suc k)
  have "unat (word_of_nat (v mod 256) :: u8) = v mod 256"
    by (simp add: unat_of_nat)
  then show ?case
    using Suc by (simp add: mod_mult2_eq)
qed

lemma le_decode_bound: "le_decode bs < 256 ^ length bs"
proof (induction bs)
  case Nil
  then show ?case by simp
next
  case (Cons b bs)
  with unat_u8_less [of b] show ?case by simp
qed

lemma le_encode_decode: "le_encode (length bs) (le_decode bs) = bs"
proof (induction bs)
  case Nil
  then show ?case by simp
next
  case (Cons b bs)
  with unat_u8_less [of b] show ?case by simp
qed

lemma length_to_le_bytes32 [simp]: "length (to_le_bytes (w :: u32)) = 4"
  by (simp add: to_le_bytes_def)

lemma length_to_le_bytes64 [simp]: "length (to_le_bytes (w :: u64)) = 8"
  by (simp add: to_le_bytes_def)

lemma from_to_le_bytes32 [simp]: "from_le_bytes (to_le_bytes (w :: u32)) = w"
  using unat_u32_less [of w]
  by (simp add: from_le_bytes_def to_le_bytes_def le_decode_encode)

lemma from_to_le_bytes64 [simp]: "from_le_bytes (to_le_bytes (w :: u64)) = w"
  using unat_u64_less [of w]
  by (simp add: from_le_bytes_def to_le_bytes_def le_decode_encode)

lemma to_from_le_bytes32:
  "length bs = 4 \<Longrightarrow> to_le_bytes (from_le_bytes bs :: u32) = bs"
  using le_decode_bound [of bs] le_encode_decode [of bs]
  by (simp add: from_le_bytes_def to_le_bytes_def unat_of_nat)

lemma to_from_le_bytes64:
  "length bs = 8 \<Longrightarrow> to_le_bytes (from_le_bytes bs :: u64) = bs"
  using le_decode_bound [of bs] le_encode_decode [of bs]
  by (simp add: from_le_bytes_def to_le_bytes_def unat_of_nat)

section \<open>Byte-addressed stores\<close>

type_synonym store = "nat \<Rightarrow> u8"

definition read_bytes :: "store \<Rightarrow> nat \<Rightarrow> nat \<Rightarrow> u8 list" where
  "read_bytes f a n = map f [a..<a + n]"

definition write_bytes :: "store \<Rightarrow> nat \<Rightarrow> u8 list \<Rightarrow> store" where
  "write_bytes f a bs = (\<lambda>i. if a \<le> i \<and> i < a + length bs then bs ! (i - a) else f i)"

definition rd32 :: "store \<Rightarrow> nat \<Rightarrow> u32" where
  "rd32 f a = from_le_bytes (read_bytes f a 4)"

definition rd64 :: "store \<Rightarrow> nat \<Rightarrow> u64" where
  "rd64 f a = from_le_bytes (read_bytes f a 8)"

definition wr32 :: "store \<Rightarrow> nat \<Rightarrow> u32 \<Rightarrow> store" where
  "wr32 f a v = write_bytes f a (to_le_bytes v)"

definition wr64 :: "store \<Rightarrow> nat \<Rightarrow> u64 \<Rightarrow> store" where
  "wr64 f a v = write_bytes f a (to_le_bytes v)"

definition fill_bytes :: "store \<Rightarrow> nat \<Rightarrow> nat \<Rightarrow> u8 \<Rightarrow> store" where
  "fill_bytes f a n b = (\<lambda>i. if a \<le> i \<and> i < a + n then b else f i)"

lemma length_read_bytes [simp]: "length (read_bytes f a n) = n"
  by (simp add: read_bytes_def)

lemma nth_read_bytes: "i < n \<Longrightarrow> read_bytes f a n ! i = f (a + i)"
  by (simp add: read_bytes_def)

lemma read_bytes_cong:
  "(\<And>i. a \<le> i \<Longrightarrow> i < a + n \<Longrightarrow> f i = g i) \<Longrightarrow> read_bytes f a n = read_bytes g a n"
  by (simp add: read_bytes_def)

lemma read_write_same: "length bs = n \<Longrightarrow> read_bytes (write_bytes f a bs) a n = bs"
  by (rule nth_equalityI) (auto simp: nth_read_bytes write_bytes_def)

lemma write_bytes_outside:
  "i < a \<or> a + length bs \<le> i \<Longrightarrow> write_bytes f a bs i = f i"
  by (auto simp: write_bytes_def)

lemma wr32_outside [mem_simps]: "i < a \<or> a + 4 \<le> i \<Longrightarrow> wr32 f a v i = f i"
  by (simp add: wr32_def write_bytes_outside)

lemma wr64_outside [mem_simps]: "i < a \<or> a + 8 \<le> i \<Longrightarrow> wr64 f a v i = f i"
  by (simp add: wr64_def write_bytes_outside)

lemma fill_outside [mem_simps]: "i < a \<or> a + n \<le> i \<Longrightarrow> fill_bytes f a n b i = f i"
  by (auto simp: fill_bytes_def)

lemma fill_inside [mem_simps]: "a \<le> i \<Longrightarrow> i < a + n \<Longrightarrow> fill_bytes f a n b i = b"
  by (auto simp: fill_bytes_def)

lemma rd32_cong: "(\<And>i. a \<le> i \<Longrightarrow> i < a + 4 \<Longrightarrow> f i = g i) \<Longrightarrow> rd32 f a = rd32 g a"
  unfolding rd32_def by (metis read_bytes_cong)

lemma rd64_cong: "(\<And>i. a \<le> i \<Longrightarrow> i < a + 8 \<Longrightarrow> f i = g i) \<Longrightarrow> rd64 f a = rd64 g a"
  unfolding rd64_def by (metis read_bytes_cong)

lemma rd32_wr32_same [mem_simps]: "rd32 (wr32 f a v) a = v"
  by (simp add: rd32_def wr32_def read_write_same)

lemma rd64_wr64_same [mem_simps]: "rd64 (wr64 f a v) a = v"
  by (simp add: rd64_def wr64_def read_write_same)

lemma rd32_wr32_other [mem_simps]: "a + 4 \<le> b \<or> b + 4 \<le> a \<Longrightarrow> rd32 (wr32 f b v) a = rd32 f a"
  by (rule rd32_cong) (auto simp: wr32_outside)

lemma rd32_wr64_other [mem_simps]: "a + 4 \<le> b \<or> b + 8 \<le> a \<Longrightarrow> rd32 (wr64 f b v) a = rd32 f a"
  by (rule rd32_cong) (auto simp: wr64_outside)

lemma rd64_wr64_other [mem_simps]: "a + 8 \<le> b \<or> b + 8 \<le> a \<Longrightarrow> rd64 (wr64 f b v) a = rd64 f a"
  by (rule rd64_cong) (auto simp: wr64_outside)

lemma rd64_wr32_other [mem_simps]: "a + 8 \<le> b \<or> b + 4 \<le> a \<Longrightarrow> rd64 (wr32 f b v) a = rd64 f a"
  by (rule rd64_cong) (auto simp: wr32_outside)

lemma rd32_upd_other [mem_simps]: "b < a \<or> a + 4 \<le> b \<Longrightarrow> rd32 (f(b := v)) a = rd32 f a"
  by (rule rd32_cong) auto

lemma rd64_upd_other [mem_simps]: "b < a \<or> a + 8 \<le> b \<Longrightarrow> rd64 (f(b := v)) a = rd64 f a"
  by (rule rd64_cong) auto

lemma rd32_fill_other [mem_simps]:
  "a + 4 \<le> b \<or> b + n \<le> a \<Longrightarrow> rd32 (fill_bytes f b n v) a = rd32 f a"
  by (rule rd32_cong) (auto simp: fill_bytes_def)

lemma rd64_fill_other [mem_simps]:
  "a + 8 \<le> b \<or> b + n \<le> a \<Longrightarrow> rd64 (fill_bytes f b n v) a = rd64 f a"
  by (rule rd64_cong) (auto simp: fill_bytes_def)

lemma le_decode_zeros [simp]: "le_decode (replicate n 0) = 0"
  by (induction n) auto

lemma read_bytes_zero:
  "(\<And>i. a \<le> i \<Longrightarrow> i < a + n \<Longrightarrow> f i = 0) \<Longrightarrow> read_bytes f a n = replicate n 0"
  by (rule nth_equalityI) (auto simp: nth_read_bytes)

lemma rd32_zero: "(\<And>i. a \<le> i \<Longrightarrow> i < a + 4 \<Longrightarrow> f i = 0) \<Longrightarrow> rd32 f a = 0"
  by (simp add: rd32_def read_bytes_zero from_le_bytes_def)

lemma rd64_zero: "(\<And>i. a \<le> i \<Longrightarrow> i < a + 8 \<Longrightarrow> f i = 0) \<Longrightarrow> rd64 f a = 0"
  by (simp add: rd64_def read_bytes_zero from_le_bytes_def)

end
