(* ===== verification/Wasm_Memory.thy ===== *)
theory Wasm_Memory
  imports Prelude
begin

text \<open>
  The linear memory of a wasm instance and the instructions the kernel crate compiles to:
  size-checked loads and stores, \<^verbatim>\<open>memory.size\<close>, \<^verbatim>\<open>memory.grow\<close> and \<^verbatim>\<open>memory.fill\<close>.
  An instruction either returns, or traps; a computation may also never return. The type
  of a computation keeps the three apart: \<open>None\<close> is divergence, \<open>Some Trap\<close> a trap and
  \<open>Some (Ret (x, m))\<close> a result with the memory it leaves.

  Whether the embedder grants a growth request is not fixed by wasm (the host installs a
  resource limiter, which can refuse or trap): the verdict is a field of the state, an
  arbitrary function of the current size and of the request.
\<close>

section \<open>State and computations\<close>

datatype grow_verdict = Grown | Refused | Grow_trap

record wasm_mem =
  bytes :: store
  pages :: nat
  growth :: "nat \<Rightarrow> nat \<Rightarrow> grow_verdict"

datatype 'a outcome = Ret 'a | Trap

type_synonym 'a wasm = "wasm_mem \<Rightarrow> ('a \<times> wasm_mem) outcome option"

definition wret :: "'a \<Rightarrow> 'a wasm" where
  "wret x m = Some (Ret (x, m))"

definition wtrap :: "'a wasm" where
  "wtrap m = Some Trap"

definition wbind :: "'a wasm \<Rightarrow> ('a \<Rightarrow> 'b wasm) \<Rightarrow> 'b wasm" where
  "wbind f g m = (case f m of None \<Rightarrow> None
     | Some r \<Rightarrow> (case r of Trap \<Rightarrow> Some Trap | Ret xm \<Rightarrow> g (fst xm) (snd xm)))"

definition wthen :: "'a wasm \<Rightarrow> 'b wasm \<Rightarrow> 'b wasm" where
  "wthen f g = wbind f (\<lambda>_. g)"

lemma wret_apply [wasm_simps]: "wret x m = Some (Ret (x, m))"
  by (simp add: wret_def)

lemma wtrap_apply [wasm_simps]: "wtrap m = Some Trap"
  by (simp add: wtrap_def)

lemma wthen_apply [wasm_simps]: "wthen f g m = wbind f (\<lambda>_. g) m"
  by (simp add: wthen_def)

lemma wbind_apply [wasm_simps]:
  "wbind f g m = (case f m of None \<Rightarrow> None
     | Some r \<Rightarrow> (case r of Trap \<Rightarrow> Some Trap | Ret xm \<Rightarrow> g (fst xm) (snd xm)))"
  by (simp add: wbind_def)

lemma wbind_Ret: "f m = Some (Ret (x, m')) \<Longrightarrow> wbind f g m = g x m'"
  by (simp add: wbind_def)

lemma wthen_Ret: "f m = Some (Ret (x, m')) \<Longrightarrow> wthen f g m = g m'"
  by (simp add: wthen_def wbind_def)

text \<open>Recursion through the sequencing operator is monotone, so loops may use it.\<close>

lemma wbind_mono [partial_function_mono]:
  fixes f :: "('r \<Rightarrow> 't option) \<Rightarrow> 'a wasm" and g :: "('r \<Rightarrow> 't option) \<Rightarrow> 'a \<Rightarrow> 'b wasm"
  assumes f: "monotone (fun_ord option_ord) option_ord (\<lambda>r. f r m)"
    and g: "\<And>y m'. monotone (fun_ord option_ord) option_ord (\<lambda>r. g r y m')"
  shows "monotone (fun_ord option_ord) option_ord (\<lambda>r. wbind (f r) (g r) m)"
proof (rule monotoneI)
  fix r r' :: "'r \<Rightarrow> 't option"
  assume le: "fun_ord option_ord r r'"
  have f': "f r m = None \<or> f r m = f r' m"
    using f le unfolding monotone_def flat_ord_def by blast
  have g': "g r y m' = None \<or> g r y m' = g r' y m'" for y m'
    using g le unfolding monotone_def flat_ord_def by blast
  show "option_ord (wbind (f r) (g r) m) (wbind (f r') (g r') m)"
  proof (cases "f r m")
    case None
    then show ?thesis by (simp add: wbind_def flat_ord_def)
  next
    case (Some x)
    with f' have "f r' m = Some x" by simp
    with Some g' show ?thesis by (cases x) (auto simp: wbind_def flat_ord_def)
  qed
qed

section \<open>Instructions\<close>

definition mem_size :: "wasm_mem \<Rightarrow> nat" where
  "mem_size m = pages m * 65536"

definition i32_load8_u :: "nat \<Rightarrow> u8 wasm" where
  "i32_load8_u ea m =
     (if ea + 1 \<le> mem_size m then Some (Ret (bytes m ea, m)) else Some Trap)"

definition i32_load :: "nat \<Rightarrow> u32 wasm" where
  "i32_load ea m =
     (if ea + 4 \<le> mem_size m then Some (Ret (rd32 (bytes m) ea, m)) else Some Trap)"

definition i64_load :: "nat \<Rightarrow> u64 wasm" where
  "i64_load ea m =
     (if ea + 8 \<le> mem_size m then Some (Ret (rd64 (bytes m) ea, m)) else Some Trap)"

definition i32_store8 :: "nat \<Rightarrow> u8 \<Rightarrow> unit wasm" where
  "i32_store8 ea v m =
     (if ea + 1 \<le> mem_size m then Some (Ret ((), m\<lparr>bytes := (bytes m)(ea := v)\<rparr>))
      else Some Trap)"

definition i32_store :: "nat \<Rightarrow> u32 \<Rightarrow> unit wasm" where
  "i32_store ea v m =
     (if ea + 4 \<le> mem_size m then Some (Ret ((), m\<lparr>bytes := wr32 (bytes m) ea v\<rparr>))
      else Some Trap)"

definition i64_store :: "nat \<Rightarrow> u64 \<Rightarrow> unit wasm" where
  "i64_store ea v m =
     (if ea + 8 \<le> mem_size m then Some (Ret ((), m\<lparr>bytes := wr64 (bytes m) ea v\<rparr>))
      else Some Trap)"

definition memory_fill :: "nat \<Rightarrow> u8 \<Rightarrow> nat \<Rightarrow> unit wasm" where
  "memory_fill ea v n m =
     (if ea + n \<le> mem_size m then Some (Ret ((), m\<lparr>bytes := fill_bytes (bytes m) ea n v\<rparr>))
      else Some Trap)"

definition memory_size :: "u32 wasm" where
  "memory_size m = Some (Ret (word_of_nat (pages m), m))"

text \<open>
  \<^verbatim>\<open>memory.grow\<close>: a 32-bit memory has at most 65536 pages; the new pages hold zeros; a
  refused request returns -1 (\<^verbatim>\<open>usize::MAX\<close>).
\<close>

definition memory_grow :: "u32 \<Rightarrow> u32 wasm" where
  "memory_grow n m =
     (if pages m + unat n > 65536 then Some (Ret (-1, m))
      else (case growth m (pages m) (unat n) of
              Grown \<Rightarrow> Some (Ret (word_of_nat (pages m),
                 m\<lparr>pages := pages m + unat n,
                   bytes := fill_bytes (bytes m) (mem_size m) (unat n * 65536) 0\<rparr>))
            | Refused \<Rightarrow> Some (Ret (-1, m))
            | Grow_trap \<Rightarrow> Some Trap))"

lemmas wasm_instr_defs =
  i32_load8_u_def i32_load_def i64_load_def i32_store8_def i32_store_def i64_store_def
  memory_fill_def memory_size_def

lemma i32_load8_u_ok [wasm_simps]:
  "ea < mem_size m \<Longrightarrow> i32_load8_u ea m = Some (Ret (bytes m ea, m))"
  by (simp add: i32_load8_u_def)

lemma i32_load_ok [wasm_simps]:
  "ea + 4 \<le> mem_size m \<Longrightarrow> i32_load ea m = Some (Ret (rd32 (bytes m) ea, m))"
  by (simp add: i32_load_def)

lemma i64_load_ok [wasm_simps]:
  "ea + 8 \<le> mem_size m \<Longrightarrow> i64_load ea m = Some (Ret (rd64 (bytes m) ea, m))"
  by (simp add: i64_load_def)

lemma i32_store8_ok [wasm_simps]:
  "ea < mem_size m \<Longrightarrow> i32_store8 ea v m = Some (Ret ((), m\<lparr>bytes := (bytes m)(ea := v)\<rparr>))"
  by (simp add: i32_store8_def)

lemma i32_store_ok [wasm_simps]:
  "ea + 4 \<le> mem_size m \<Longrightarrow>
     i32_store ea v m = Some (Ret ((), m\<lparr>bytes := wr32 (bytes m) ea v\<rparr>))"
  by (simp add: i32_store_def)

lemma i64_store_ok [wasm_simps]:
  "ea + 8 \<le> mem_size m \<Longrightarrow>
     i64_store ea v m = Some (Ret ((), m\<lparr>bytes := wr64 (bytes m) ea v\<rparr>))"
  by (simp add: i64_store_def)

lemma memory_fill_ok [wasm_simps]:
  "ea + n \<le> mem_size m \<Longrightarrow>
     memory_fill ea v n m = Some (Ret ((), m\<lparr>bytes := fill_bytes (bytes m) ea n v\<rparr>))"
  by (simp add: memory_fill_def)

lemma memory_size_ok [wasm_simps]: "memory_size m = Some (Ret (word_of_nat (pages m), m))"
  by (simp add: memory_size_def)

lemma mem_size_bytes_update [simp]: "mem_size (m\<lparr>bytes := f\<rparr>) = mem_size m"
  by (simp add: mem_size_def)

end
