(* ===== verification/Kernel.thy ===== *)
theory Kernel
  imports Wasm_Memory
begin

text \<open>
  The Extism kernel, \<^verbatim>\<open>kernel/src/lib.rs\<close>, over the raw bytes of its linear memory: the
  \<^verbatim>\<open>repr(C)\<close> layout of \<^verbatim>\<open>MemoryRoot\<close> and \<^verbatim>\<open>MemoryBlock\<close>, the methods of both, and the
  exported functions, one definition each, in the order of the source.

  The crate is built for \<^verbatim>\<open>wasm32\<close> in release mode with its default feature
  \<^verbatim>\<open>bounds-checking\<close>: \<^verbatim>\<open>usize\<close> and pointers are 32-bit words, \<^verbatim>\<open>Pointer\<close> and \<^verbatim>\<open>Handle\<close>
  are 64-bit words, \<^verbatim>\<open>+\<close> and \<^verbatim>\<open>-\<close> wrap, an \<^verbatim>\<open>as\<close> cast truncates, and the atomics are
  plain loads and stores.  The two loops over the block list follow sizes they read from
  memory, so they are partial functions: \<open>None\<close> is a loop that never ends.
\<close>

section \<open>Data layout\<close>

definition PAGE_SIZE :: u32 where
  "PAGE_SIZE = 65536"

datatype MemoryStatus = Unused | Active | Free

fun status_code :: "MemoryStatus \<Rightarrow> u8" where
  "status_code Unused = 0"
| "status_code Active = 1"
| "status_code Free = 2"

text \<open>
  \<^verbatim>\<open>#[repr(C)]\<close>: every field stands at the next offset that its alignment divides; the size
  of the struct is rounded up to its largest alignment.  A field is a pair of size and
  alignment.
\<close>

definition align_up :: "nat \<Rightarrow> nat \<Rightarrow> nat" where
  "align_up n a = (n + a - 1) div a * a"

fun repr_c_offsets :: "nat \<Rightarrow> (nat \<times> nat) list \<Rightarrow> nat list" where
  "repr_c_offsets pos [] = []"
| "repr_c_offsets pos ((sz, al) # fs) =
     (let off = align_up pos al in off # repr_c_offsets (off + sz) fs)"

fun repr_c_end :: "nat \<Rightarrow> (nat \<times> nat) list \<Rightarrow> nat" where
  "repr_c_end pos [] = pos"
| "repr_c_end pos ((sz, al) # fs) = repr_c_end (align_up pos al + sz) fs"

definition repr_c_size :: "(nat \<times> nat) list \<Rightarrow> nat" where
  "repr_c_size fs = align_up (repr_c_end 0 fs) (foldr max (map snd fs) 1)"

text \<open>
  \<^verbatim>\<open>MemoryBlock\<close>: status (\<^verbatim>\<open>AtomicU8\<close>), size and used (\<^verbatim>\<open>usize\<close>), data (\<^verbatim>\<open>[u8; 0]\<close>).
  \<^verbatim>\<open>MemoryRoot\<close>: initialized (\<^verbatim>\<open>AtomicBool\<close>), seven 64-bit fields, blocks
  (\<^verbatim>\<open>[MemoryBlock; 0]\<close>).
\<close>

definition memory_block_fields :: "(nat \<times> nat) list" where
  "memory_block_fields = [(1, 1), (4, 4), (4, 4), (0, 1)]"

definition memory_root_fields :: "(nat \<times> nat) list" where
  "memory_root_fields =
     [(1, 1), (8, 8), (8, 8), (8, 8), (8, 8), (8, 8), (8, 8), (8, 8), (0, 4)]"

definition size_of_block :: nat where
  "size_of_block = repr_c_size memory_block_fields"

definition size_of_root :: nat where
  "size_of_root = repr_c_size memory_root_fields"

definition block_field :: "nat \<Rightarrow> nat" where
  "block_field i = repr_c_offsets 0 memory_block_fields ! i"

text \<open>\<^verbatim>\<open>memory_root()\<close>: the root is at address 1.\<close>

definition root_addr :: nat where
  "root_addr = 1"

definition root_field :: "nat \<Rightarrow> nat" where
  "root_field i = root_addr + repr_c_offsets 0 memory_root_fields ! i"

definition blocks_addr :: nat where
  "blocks_addr = root_field 8"

named_theorems layout "the addresses the layout gives"

lemma size_of_block_eq [layout]: "size_of_block = 12"
  by code_simp

lemma size_of_root_eq [layout]: "size_of_root = 64"
  by code_simp

lemma block_field_eq [layout]:
  "block_field 0 = 0" "block_field 1 = 4" "block_field (Suc 0) = 4"
  "block_field 2 = 8" "block_field 3 = 12"
  by code_simp+

lemma root_field_eq [layout]:
  "root_field 0 = 1" "root_field 1 = 9" "root_field (Suc 0) = 9"
  "root_field 2 = 17" "root_field 3 = 25"
  "root_field 4 = 33" "root_field 5 = 41" "root_field 6 = 49" "root_field 7 = 57"
  by code_simp+

lemma blocks_addr_eq [layout]: "blocks_addr = 65"
  by code_simp

section \<open>Fields of the root\<close>

definition get_initialized :: "u8 wasm" where
  "get_initialized = i32_load8_u (root_field 0)"
definition set_initialized :: "u8 \<Rightarrow> unit wasm" where
  "set_initialized = i32_store8 (root_field 0)"
definition get_position :: "u64 wasm" where
  "get_position = i64_load (root_field 1)"
definition set_position :: "u64 \<Rightarrow> unit wasm" where
  "set_position = i64_store (root_field 1)"
definition get_length :: "u64 wasm" where
  "get_length = i64_load (root_field 2)"
definition set_length :: "u64 \<Rightarrow> unit wasm" where
  "set_length = i64_store (root_field 2)"
definition get_error :: "u64 wasm" where
  "get_error = i64_load (root_field 3)"
definition set_error :: "u64 \<Rightarrow> unit wasm" where
  "set_error = i64_store (root_field 3)"
definition get_input_offset :: "u64 wasm" where
  "get_input_offset = i64_load (root_field 4)"
definition set_input_offset :: "u64 \<Rightarrow> unit wasm" where
  "set_input_offset = i64_store (root_field 4)"
definition get_input_length :: "u64 wasm" where
  "get_input_length = i64_load (root_field 5)"
definition set_input_length :: "u64 \<Rightarrow> unit wasm" where
  "set_input_length = i64_store (root_field 5)"
definition get_output_offset :: "u64 wasm" where
  "get_output_offset = i64_load (root_field 6)"
definition set_output_offset :: "u64 \<Rightarrow> unit wasm" where
  "set_output_offset = i64_store (root_field 6)"
definition get_output_length :: "u64 wasm" where
  "get_output_length = i64_load (root_field 7)"
definition set_output_length :: "u64 \<Rightarrow> unit wasm" where
  "set_output_length = i64_store (root_field 7)"

lemmas root_access_defs =
  get_initialized_def set_initialized_def get_position_def set_position_def get_length_def
  set_length_def get_error_def set_error_def get_input_offset_def set_input_offset_def
  get_input_length_def set_input_length_def get_output_offset_def set_output_offset_def
  get_output_length_def set_output_length_def

section \<open>Fields of a block\<close>

definition get_status :: "u32 \<Rightarrow> u8 wasm" where
  "get_status b = i32_load8_u (unat b + block_field 0)"
definition set_status :: "u32 \<Rightarrow> MemoryStatus \<Rightarrow> unit wasm" where
  "set_status b s = i32_store8 (unat b + block_field 0) (status_code s)"
definition get_size :: "u32 \<Rightarrow> u32 wasm" where
  "get_size b = i32_load (unat b + block_field 1)"
definition set_size :: "u32 \<Rightarrow> u32 \<Rightarrow> unit wasm" where
  "set_size b = i32_store (unat b + block_field 1)"
definition get_used :: "u32 \<Rightarrow> u32 wasm" where
  "get_used b = i32_load (unat b + block_field 2)"
definition set_used :: "u32 \<Rightarrow> u32 \<Rightarrow> unit wasm" where
  "set_used b = i32_store (unat b + block_field 2)"

text \<open>\<^verbatim>\<open>b.data.as_mut_ptr()\<close>\<close>

definition data_ptr :: "u32 \<Rightarrow> u32" where
  "data_ptr b = b + word_of_nat (block_field 3)"

lemmas block_access_defs =
  get_status_def set_status_def get_size_def set_size_def get_used_def set_used_def

section \<open>Methods of the root and of the block\<close>

text \<open>\<^verbatim>\<open>num_pages\<close>\<close>

definition num_pages :: "u64 \<Rightarrow> u32" where
  "num_pages nbytes =
     (let npages = nbytes div ucast PAGE_SIZE;
          remainder = nbytes mod ucast PAGE_SIZE
      in if remainder \<noteq> 0 then ucast (npages + 1) else ucast npages)"

text \<open>
  \<^verbatim>\<open>MemoryRoot::new\<close>.  The fill of the first block header counts in elements of
  \<^verbatim>\<open>MemoryBlock\<close>, so it covers 12 * 12 bytes.
\<close>

definition root_new :: "unit wasm" where
  "root_new =
     wbind get_initialized (\<lambda>initialized.
     if initialized \<noteq> 0 then wret ()
     else
       wthen (set_initialized 1)
      (wthen
         (wbind memory_size (\<lambda>sz.
            if sz = 0
            then wbind (memory_grow 1) (\<lambda>x. if x = -1 then wtrap else wret ())
            else wret ()))
      (wthen (set_input_offset 0)
      (wthen (set_input_length 0)
      (wthen (set_output_offset 0)
      (wthen (set_output_length 0)
      (wthen (set_error 0)
      (wthen (set_length (ucast PAGE_SIZE - word_of_nat size_of_root))
      (wthen (set_position 0)
             (memory_fill blocks_addr (status_code Unused) (size_of_block * size_of_block))
      )))))))))"

text \<open>\<^verbatim>\<open>MemoryRoot::reset\<close>; \<^verbatim>\<open>self_position as usize\<close> truncates.\<close>

definition root_reset :: "unit wasm" where
  "root_reset =
     wbind get_position (\<lambda>self_position.
     wthen (set_position 0)
    (wthen (memory_fill blocks_addr (status_code Unused) (unat (ucast self_position :: u32)))
    (wthen (set_error 0)
    (wthen (set_input_offset 0)
    (wthen (set_input_length 0)
    (wthen (set_output_offset 0)
           (set_output_length 0)))))))"

definition pointer_in_bounds :: "u64 \<Rightarrow> bool wasm" where
  "pointer_in_bounds p =
     (let start_ptr = word_of_nat blocks_addr
      in wbind get_length (\<lambda>len. wret (start_ptr \<le> p \<and> p < start_ptr + len)))"

definition pointer_in_bounds_fast :: "u64 \<Rightarrow> bool wasm" where
  "pointer_in_bounds_fast p =
     wbind memory_size (\<lambda>sz.
       let end_ptr = push_bit 16 (ucast sz :: u64)
       in wret (word_of_nat size_of_root \<le> p \<and> p \<le> end_ptr))"

text \<open>\<^verbatim>\<open>MemoryBlock::next_ptr\<close> and \<^verbatim>\<open>MemoryBlock::free\<close>\<close>

definition next_ptr :: "u32 \<Rightarrow> u32 wasm" where
  "next_ptr b = wbind (get_size b) (\<lambda>sz. wret (data_ptr b + sz))"

definition block_free :: "u32 \<Rightarrow> unit wasm" where
  "block_free b = set_status b Free"

text \<open>
  \<^verbatim>\<open>find_free_block\<close>: the split of an oversized free block, the loop, and the call from
  the first block.
\<close>

definition split_block :: "u32 \<Rightarrow> u32 \<Rightarrow> u32 \<Rightarrow> u32 wasm" where
  "split_block b sz len =
     wthen (set_size b (sz - (len + word_of_nat size_of_block)))
    (wthen (set_used b 0)
    (wbind (get_size b) (\<lambda>new_size.
     let b1 = data_ptr b + new_size in
     wthen (set_size b1 len)
    (wthen (set_used b1 0)
    (wthen (set_status b1 Free)
           (wret b1))))))"

partial_function (option) find_free_loop ::
    "u64 \<Rightarrow> u64 \<Rightarrow> u32 \<Rightarrow> wasm_mem \<Rightarrow> (u32 option \<times> wasm_mem) outcome option" where
  "find_free_loop len self_position block m =
     (if ucast block < word_of_nat blocks_addr + self_position
      then wbind (get_status block) (\<lambda>status m.
        if status = status_code Unused then wret (Some block) m
        else if status = status_code Free then
          wbind (get_size block) (\<lambda>sz m.
            if ucast len \<le> sz then
              (if 128 \<le> sz - ucast len
               then wbind (split_block block sz (ucast len)) (\<lambda>b1. wret (Some b1)) m
               else wret (Some block) m)
            else wbind (next_ptr block)
                   (\<lambda>next m. find_free_loop len self_position next m) m) m
        else wbind (next_ptr block)
               (\<lambda>next m. find_free_loop len self_position next m) m) m
      else wret None m)"

declare find_free_loop.simps [code]

definition root_find_free_block :: "u64 \<Rightarrow> u64 \<Rightarrow> u32 option wasm" where
  "root_find_free_block len self_position =
     find_free_loop len self_position (word_of_nat blocks_addr)"

text \<open>
  \<^verbatim>\<open>MemoryRoot::alloc\<close>, with its two later parts: the growth of the memory when the
  available bytes do not suffice, and the new block at the position of the bump allocator.
\<close>

definition alloc_grow :: "u64 \<Rightarrow> u64 \<Rightarrow> bool wasm" where
  "alloc_grow length_with_block mem_left =
     (if mem_left \<le> length_with_block then
        let npages = num_pages (length_with_block - mem_left) in
        wbind (memory_grow npages) (\<lambda>x.
        if x = -1 then wret False
        else wbind get_length (\<lambda>cur.
             wthen (set_length (cur + ucast npages * ucast PAGE_SIZE))
                   (wret True)))
      else wret True)"

definition alloc_bump :: "u64 \<Rightarrow> u64 \<Rightarrow> u32 option wasm" where
  "alloc_bump len cur_block =
     wbind get_position (\<lambda>pos.
     wthen (set_position (pos + (len + word_of_nat size_of_block)))
    (let ptr = ucast cur_block in
     wthen (set_status ptr Active)
    (wthen (set_size ptr (ucast len))
    (wthen (set_used ptr (ucast len))
           (wret (Some ptr))))))"

definition root_alloc :: "u64 \<Rightarrow> u32 option wasm" where
  "root_alloc len =
     wbind get_position (\<lambda>self_position.
     wbind get_length (\<lambda>self_length.
     wbind (root_find_free_block len self_position) (\<lambda>b.
     case b of
       Some b \<Rightarrow>
         wthen (set_used b (ucast len))
        (wthen (set_status b Active)
               (wret (Some b)))
     | None \<Rightarrow>
         let cur_block = word_of_nat blocks_addr + self_position;
             mem_left = self_length - self_position - word_of_nat size_of_root;
             length_with_block = len + word_of_nat size_of_block
         in wbind (alloc_grow length_with_block mem_left) (\<lambda>ok.
            if \<not> ok then wret None else alloc_bump len cur_block))))"

text \<open>\<^verbatim>\<open>MemoryRoot::find_block\<close>: the loop runs while the block is below \<^verbatim>\<open>blocks + offs\<close>.\<close>

partial_function (option) find_block_loop ::
    "u64 \<Rightarrow> u32 \<Rightarrow> wasm_mem \<Rightarrow> (u32 option \<times> wasm_mem) outcome option" where
  "find_block_loop offs block m =
     (if ucast block < word_of_nat blocks_addr + offs
      then wbind (get_status block) (\<lambda>status m.
        if status = status_code Active \<and> ucast (data_ptr block) = offs
        then wret (Some block) m
        else wbind (next_ptr block) (\<lambda>next m. find_block_loop offs next m) m) m
      else wret None m)"

declare find_block_loop.simps [code]

definition root_find_block :: "u64 \<Rightarrow> u32 option wasm" where
  "root_find_block offs =
     wbind (pointer_in_bounds_fast offs) (\<lambda>ok.
       if \<not> ok then wret None
       else find_block_loop offs (word_of_nat blocks_addr))"

section \<open>Exported functions\<close>

text \<open>The exports carry the prefix \<^verbatim>\<open>k_\<close>; a pointer dereference truncates the handle to 32 bits.\<close>

definition deref :: "u64 \<Rightarrow> nat" where
  "deref p = unat (ucast p :: u32)"

definition k_alloc :: "u64 \<Rightarrow> u64 wasm" where
  "k_alloc n =
     (if n = 0 then wret 0
      else wthen root_new
          (wbind (root_alloc n) (\<lambda>block.
           case block of
             Some b \<Rightarrow> wret (ucast (data_ptr b))
           | None \<Rightarrow> wret 0)))"

definition k_free :: "u64 \<Rightarrow> unit wasm" where
  "k_free p =
     (if p = 0 then wret ()
      else wthen root_new
          (wbind (root_find_block p) (\<lambda>block.
           case block of
             None \<Rightarrow> wret ()
           | Some b \<Rightarrow>
               wthen (block_free b)
              (wbind get_input_offset (\<lambda>input_offset.
               if p = input_offset then set_input_length 0 else wret ())))))"

definition k_length_unsafe :: "u64 \<Rightarrow> u64 wasm" where
  "k_length_unsafe p =
     (if p = 0 then wret 0
      else wbind (pointer_in_bounds_fast p) (\<lambda>ok.
        if \<not> ok then wret 0
        else
          let ptr = p - word_of_nat size_of_block;
              block = ucast ptr
          in wbind (get_status block) (\<lambda>status.
             if status \<noteq> status_code Active then wret 0
             else wbind (get_used block) (\<lambda>used. wret (ucast used)))))"

definition k_length :: "u64 \<Rightarrow> u64 wasm" where
  "k_length p =
     (if p = 0 then wret 0
      else wthen root_new
          (wbind (root_find_block p) (\<lambda>block.
           case block of
             Some b \<Rightarrow> wbind (get_used b) (\<lambda>used. wret (ucast used))
           | None \<Rightarrow> wret 0)))"

definition k_load_u8 :: "u64 \<Rightarrow> u8 wasm" where
  "k_load_u8 p =
     wbind (pointer_in_bounds_fast p) (\<lambda>ok.
       if \<not> ok then wret 0 else i32_load8_u (deref p))"

definition k_load_u64 :: "u64 \<Rightarrow> u64 wasm" where
  "k_load_u64 p =
     wbind (pointer_in_bounds_fast (p + 8 - 1)) (\<lambda>ok.
       if \<not> ok then wret 0 else i64_load (deref p))"

definition k_input_load_u8 :: "u64 \<Rightarrow> u8 wasm" where
  "k_input_load_u8 offset =
     wthen root_new
    (wbind get_input_length (\<lambda>input_length.
     if input_length \<le> offset then wret 0
     else wbind get_input_offset (\<lambda>input_offset.
          i32_load8_u (deref (input_offset + offset)))))"

definition k_input_load_u64 :: "u64 \<Rightarrow> u64 wasm" where
  "k_input_load_u64 offset =
     wthen root_new
    (wbind get_input_length (\<lambda>input_length.
     if input_length < offset + 8 then wret 0
     else wbind get_input_offset (\<lambda>input_offset.
          i64_load (deref (input_offset + offset)))))"

definition k_store_u8 :: "u64 \<Rightarrow> u8 \<Rightarrow> unit wasm" where
  "k_store_u8 p x =
     wbind (pointer_in_bounds_fast p) (\<lambda>ok.
       if \<not> ok then wret () else i32_store8 (deref p) x)"

definition k_store_u64 :: "u64 \<Rightarrow> u64 \<Rightarrow> unit wasm" where
  "k_store_u64 p x =
     wbind (pointer_in_bounds_fast (p + 8 - 1)) (\<lambda>ok.
       if \<not> ok then wret () else i64_store (deref p) x)"

definition k_input_set :: "u64 \<Rightarrow> u64 \<Rightarrow> unit wasm" where
  "k_input_set h len =
     wthen root_new
    (wbind (pointer_in_bounds h) (\<lambda>first_ok.
     if \<not> first_ok then wret ()
     else wbind (pointer_in_bounds (h + len - 1)) (\<lambda>last_ok.
       if \<not> last_ok then wret ()
       else wthen (set_input_offset h) (set_input_length len))))"

definition k_output_set :: "u64 \<Rightarrow> u64 \<Rightarrow> unit wasm" where
  "k_output_set p len =
     wthen root_new
    (wbind (pointer_in_bounds p) (\<lambda>first_ok.
     if \<not> first_ok then wret ()
     else wbind (pointer_in_bounds (p + len - 1)) (\<lambda>last_ok.
       if \<not> last_ok then wret ()
       else wthen (set_output_offset p) (set_output_length len))))"

definition k_input_length :: "u64 wasm" where
  "k_input_length = wthen root_new get_input_length"

definition k_input_offset :: "u64 wasm" where
  "k_input_offset = wthen root_new get_input_offset"

definition k_output_length :: "u64 wasm" where
  "k_output_length = wthen root_new get_output_length"

definition k_output_offset :: "u64 wasm" where
  "k_output_offset = wthen root_new get_output_offset"

definition k_reset :: "unit wasm" where
  "k_reset = wthen root_new root_reset"

definition k_error_set :: "u64 \<Rightarrow> unit wasm" where
  "k_error_set h =
     wthen root_new
    (if h = 0 then set_error h
     else wbind (pointer_in_bounds h) (\<lambda>ok.
       if \<not> ok then wret () else set_error h))"

definition k_error_get :: "u64 wasm" where
  "k_error_get = wthen root_new get_error"

text \<open>\<^verbatim>\<open>memory_bytes\<close> returns the \<^verbatim>\<open>length\<close> field.\<close>

definition k_memory_bytes :: "u64 wasm" where
  "k_memory_bytes = wthen root_new get_length"

end
