(* ===== verification/Kernel_Heap.thy ===== *)
theory Kernel_Heap
  imports Kernel
begin

text \<open>
  The abstract state of the kernel: the list of its blocks in address order and the fields
  of the root, with the operations of the allocator on that list; and the relation \<open>heap_repr\<close>
  between a linear memory and the abstract state it holds.  The lemmas of the two loops say
  what a walk over the bytes of a well-formed chain of blocks computes.
\<close>

section \<open>Blocks and their chain in memory\<close>

record blk =
  bstat :: MemoryStatus
  bsize :: nat
  bused :: nat

fun span :: "blk list \<Rightarrow> nat" where
  "span [] = 0"
| "span (b # bs) = 12 + bsize b + span bs"

lemma span_append [simp]: "span (xs @ ys) = span xs + span ys"
  by (induction xs) auto

definition header :: "store \<Rightarrow> nat \<Rightarrow> blk \<Rightarrow> bool" where
  "header f a b \<longleftrightarrow> f a = status_code (bstat b) \<and>
     rd32 f (a + 4) = word_of_nat (bsize b) \<and> rd32 f (a + 8) = word_of_nat (bused b)"

fun chain :: "store \<Rightarrow> nat \<Rightarrow> blk list \<Rightarrow> bool" where
  "chain f a [] = True"
| "chain f a (b # bs) = (header f a b \<and> chain f (a + 12 + bsize b) bs)"

text \<open>The addresses the headers occupy, and those of the data of active blocks.\<close>

fun in_headers :: "nat \<Rightarrow> blk list \<Rightarrow> nat \<Rightarrow> bool" where
  "in_headers a [] i = False"
| "in_headers a (b # bs) i = (a \<le> i \<and> i < a + 12 \<or> in_headers (a + 12 + bsize b) bs i)"

fun in_active :: "nat \<Rightarrow> blk list \<Rightarrow> nat \<Rightarrow> bool" where
  "in_active a [] i = False"
| "in_active a (b # bs) i =
     (bstat b = Active \<and> a + 12 \<le> i \<and> i < a + 12 + bsize b
      \<or> in_active (a + 12 + bsize b) bs i)"

lemma header_cong:
  "(\<And>i. a \<le> i \<Longrightarrow> i < a + 12 \<Longrightarrow> f i = g i) \<Longrightarrow> header f a b = header g a b"
  using rd32_cong [of "a + 4" f g] rd32_cong [of "a + 8" f g] by (simp add: header_def)

lemma chain_cong:
  "(\<And>i. in_headers a bs i \<Longrightarrow> f i = g i) \<Longrightarrow> chain f a bs = chain g a bs"
proof (induction bs arbitrary: a)
  case Nil
  then show ?case by simp
next
  case (Cons b bs)
  have "header f a b = header g a b" using Cons.prems by (intro header_cong) simp
  moreover have "chain f (a + 12 + bsize b) bs = chain g (a + 12 + bsize b) bs"
    using Cons.prems by (intro Cons.IH) simp
  ultimately show ?case by simp
qed

lemma in_headers_range: "in_headers a bs i \<Longrightarrow> a \<le> i \<and> i < a + span bs"
  by (induction bs arbitrary: a) fastforce+

lemma in_active_range: "in_active a bs i \<Longrightarrow> a \<le> i \<and> i < a + span bs"
  by (induction bs arbitrary: a) fastforce+

lemma in_active_not_header: "in_active a bs i \<Longrightarrow> \<not> in_headers a bs i"
proof (induction bs arbitrary: a)
  case Nil
  then show ?case by simp
next
  case (Cons b bs)
  then show ?case
    by (auto dest: in_headers_range in_active_range)
qed

lemma chain_append: "chain f a (xs @ ys) \<longleftrightarrow> chain f a xs \<and> chain f (a + span xs) ys"
  by (induction xs arbitrary: a) (auto simp: add.assoc)

lemma in_headers_append:
  "in_headers a (xs @ ys) i \<longleftrightarrow> in_headers a xs i \<or> in_headers (a + span xs) ys i"
  by (induction xs arbitrary: a) (auto simp: add.assoc)

lemma in_active_append:
  "in_active a (xs @ ys) i \<longleftrightarrow> in_active a xs i \<or> in_active (a + span xs) ys i"
  by (induction xs arbitrary: a) (auto simp: add.assoc)

text \<open>
  Rewriting a stretch of the chain: bytes outside the stretch are as before, the new
  stretch is a chain of the same length.
\<close>

lemma chain_replace:
  assumes "chain f a (xs @ ys @ zs)" and "span ys' = span ys"
    and same: "\<And>i. i < a + span xs \<or> a + span xs + span ys \<le> i \<Longrightarrow> f' i = f i"
    and "chain f' (a + span xs) ys'"
  shows "chain f' a (xs @ ys' @ zs)"
proof -
  have "chain f' a xs = chain f a xs"
    by (rule chain_cong) (auto intro: same dest: in_headers_range)
  moreover have "chain f' (a + span xs + span ys) zs = chain f (a + span xs + span ys) zs"
    by (rule chain_cong) (auto intro: same dest: in_headers_range)
  ultimately show ?thesis using assms(1,2,4) by (simp add: chain_append)
qed

section \<open>The abstract heap\<close>

record heap =
  h_blocks :: "blk list"
  h_length :: nat
  h_pages :: nat
  h_error :: u64
  h_input_offset :: u64
  h_input_length :: u64
  h_output_offset :: u64
  h_output_length :: u64

abbreviation h_position :: "heap \<Rightarrow> nat" where
  "h_position h \<equiv> span (h_blocks h)"

definition blk_ok :: "blk \<Rightarrow> bool" where
  "blk_ok b \<longleftrightarrow> bstat b \<noteq> Unused \<and> bused b \<le> bsize b \<and> 0 < bsize b"

text \<open>
  The invariant of the allocator: no block below the position is unused, the position keeps
  the size of the root away from the length, and the length never runs past the memory.
\<close>

definition heap_ok :: "heap \<Rightarrow> bool" where
  "heap_ok h \<longleftrightarrow> list_all blk_ok (h_blocks h) \<and> h_position h + 64 \<le> h_length h \<and>
     h_length h + 64 \<le> h_pages h * 65536 \<and> h_pages h \<le> 65536"

definition heap_repr :: "wasm_mem \<Rightarrow> heap \<Rightarrow> bool" where
  "heap_repr m h \<longleftrightarrow> heap_ok h \<and> pages m = h_pages h \<and>
     bytes m 1 \<noteq> 0 \<and>
     rd64 (bytes m) 9 = word_of_nat (h_position h) \<and>
     rd64 (bytes m) 17 = word_of_nat (h_length h) \<and>
     rd64 (bytes m) 25 = h_error h \<and>
     rd64 (bytes m) 33 = h_input_offset h \<and>
     rd64 (bytes m) 41 = h_input_length h \<and>
     rd64 (bytes m) 49 = h_output_offset h \<and>
     rd64 (bytes m) 57 = h_output_length h \<and>
     chain (bytes m) 65 (h_blocks h) \<and>
     (\<forall>i. 65 + h_position h \<le> i \<and> i < mem_size m \<longrightarrow> bytes m i = 0)"

lemma heap_okD:
  assumes "heap_ok h"
  shows "h_position h + 128 \<le> h_pages h * 65536" "h_pages h * 65536 \<le> 4294967296"
    "h_length h + 64 \<le> h_pages h * 65536" "h_position h + 64 \<le> h_length h"
  using assms by (auto simp: heap_ok_def)

lemma heap_reprD:
  assumes "heap_repr m h"
  shows "heap_ok h" "pages m = h_pages h" "mem_size m = h_pages h * 65536"
    "bytes m 1 \<noteq> 0" "chain (bytes m) 65 (h_blocks h)"
    "rd64 (bytes m) 9 = word_of_nat (h_position h)"
    "rd64 (bytes m) 17 = word_of_nat (h_length h)"
    "rd64 (bytes m) 25 = h_error h" "rd64 (bytes m) 33 = h_input_offset h"
    "rd64 (bytes m) 41 = h_input_length h" "rd64 (bytes m) 49 = h_output_offset h"
    "rd64 (bytes m) 57 = h_output_length h"
    "\<And>i. 65 + h_position h \<le> i \<Longrightarrow> i < mem_size m \<Longrightarrow> bytes m i = 0"
  using assms by (auto simp: heap_repr_def mem_size_def)

section \<open>The operations of the allocator on the block list\<close>

text \<open>First fit: the first free block that is large enough.\<close>

fun first_fit :: "nat \<Rightarrow> blk list \<Rightarrow> (blk list \<times> blk \<times> blk list) option" where
  "first_fit n [] = None"
| "first_fit n (b # bs) =
     (if bstat b = Free \<and> n \<le> bsize b then Some ([], b, bs)
      else map_option (\<lambda>(p, x, q). (b # p, x, q)) (first_fit n bs))"

text \<open>The blocks a reused block turns into, and the offset of the one handed out.\<close>

definition carve :: "nat \<Rightarrow> blk \<Rightarrow> blk list" where
  "carve n x =
     (if 128 \<le> bsize x - n
      then [x\<lparr>bsize := bsize x - (n + 12), bused := 0\<rparr>, \<lparr>bstat = Active, bsize = n, bused = n\<rparr>]
      else [x\<lparr>bstat := Active, bused := n\<rparr>])"

definition carve_offset :: "nat \<Rightarrow> blk \<Rightarrow> nat" where
  "carve_offset n x = (if 128 \<le> bsize x - n then bsize x - n else 0)"

definition pages_needed :: "nat \<Rightarrow> nat" where
  "pages_needed nbytes = (nbytes + 65535) div 65536"

definition heap_push :: "nat \<Rightarrow> heap \<Rightarrow> heap" where
  "heap_push n h = h\<lparr>h_blocks := h_blocks h @ [\<lparr>bstat = Active, bsize = n, bused = n\<rparr>]\<rparr>"

definition heap_grow :: "nat \<Rightarrow> heap \<Rightarrow> heap" where
  "heap_grow np h = h\<lparr>h_length := h_length h + np * 65536, h_pages := h_pages h + np\<rparr>"

definition heap_alloc ::
    "(nat \<Rightarrow> nat \<Rightarrow> grow_verdict) \<Rightarrow> nat \<Rightarrow> heap \<Rightarrow> (nat \<times> heap) outcome" where
  "heap_alloc g n h =
     (case first_fit n (h_blocks h) of
        Some (p, x, q) \<Rightarrow>
          Ret (65 + span p + carve_offset n x + 12, h\<lparr>h_blocks := p @ carve n x @ q\<rparr>)
      | None \<Rightarrow>
          let mem_left = h_length h - h_position h - 64;
              np = pages_needed (n + 12 - mem_left);
              handle = 65 + h_position h + 12
          in if n + 12 < mem_left then Ret (handle, heap_push n h)
             else if 65536 < h_pages h + np then Ret (0, h)
             else (case g (h_pages h) np of
                     Grown \<Rightarrow> Ret (handle, heap_push n (heap_grow np h))
                   | Refused \<Rightarrow> Ret (0, h)
                   | Grow_trap \<Rightarrow> Trap))"

text \<open>Lookup of the active block whose data starts at a handle.\<close>

fun block_at :: "nat \<Rightarrow> blk list \<Rightarrow> nat \<Rightarrow> (blk list \<times> blk \<times> blk list) option" where
  "block_at a [] p = None"
| "block_at a (b # bs) p =
     (if bstat b = Active \<and> a + 12 = p then Some ([], b, bs)
      else map_option (\<lambda>(xs, x, ys). (b # xs, x, ys)) (block_at (a + 12 + bsize b) bs p))"

definition heap_find :: "heap \<Rightarrow> nat \<Rightarrow> (blk list \<times> blk \<times> blk list) option" where
  "heap_find h p = block_at 65 (h_blocks h) p"

definition heap_free :: "nat \<Rightarrow> heap \<Rightarrow> heap" where
  "heap_free p h =
     (case heap_find h p of
        None \<Rightarrow> h
      | Some (xs, x, ys) \<Rightarrow>
          h\<lparr>h_blocks := xs @ x\<lparr>bstat := Free\<rparr> # ys,
            h_input_length := (if h_input_offset h = word_of_nat p then 0 else h_input_length h)\<rparr>)"

definition heap_reset :: "heap \<Rightarrow> heap" where
  "heap_reset h = h\<lparr>h_blocks := [], h_error := 0, h_input_offset := 0, h_input_length := 0,
     h_output_offset := 0, h_output_length := 0\<rparr>"

text \<open>The state \<^verbatim>\<open>MemoryRoot::new\<close> sets up in a memory of \<open>k\<close> pages.\<close>

definition heap_init :: "nat \<Rightarrow> heap" where
  "heap_init k = \<lparr>h_blocks = [], h_length = 65472, h_pages = k, h_error = 0,
     h_input_offset = 0, h_input_length = 0, h_output_offset = 0, h_output_length = 0\<rparr>"

lemma first_fit_SomeD:
  "first_fit n bs = Some (p, x, q) \<Longrightarrow> bs = p @ x # q \<and> bstat x = Free \<and> n \<le> bsize x"
  by (induction bs arbitrary: p) (auto split: if_splits)

lemma block_at_SomeD:
  "block_at a bs p = Some (xs, x, ys) \<Longrightarrow>
     bs = xs @ x # ys \<and> bstat x = Active \<and> p = a + span xs + 12"
  by (induction bs arbitrary: a xs) (fastforce split: if_splits)+

lemma span_carve: "bstat x = Free \<Longrightarrow> n \<le> bsize x \<Longrightarrow> span (carve n x) = span [x]"
  by (auto simp: carve_def)

section \<open>Walking the chain\<close>

text \<open>
  A walk over a well-formed chain stays within the memory, so it never traps, and it never
  wraps, since a memory has at most 4 GiB.
\<close>

lemma data_ptr_nat: "data_ptr (word_of_nat a) = word_of_nat (a + 12)"
  by (simp add: data_ptr_def layout)

lemma below_limit:
  assumes "a < 4294967296" "x < 18446744073709551551"
  shows "(ucast (word_of_nat a :: u32) < word_of_nat blocks_addr + (word_of_nat x :: u64))
    = (a < 65 + x)"
proof -
  have "word_of_nat blocks_addr + (word_of_nat x :: u64) = word_of_nat (65 + x)"
    by (simp add: layout)
  with assms show ?thesis by (simp only: word_nat)
qed

lemma next_ptr_chain:
  assumes "chain (bytes m) a (b # bs)" "a + span (b # bs) \<le> mem_size m"
    "a + span (b # bs) < 4294967296"
  shows "next_ptr (word_of_nat a) m = Some (Ret (word_of_nat (a + 12 + bsize b), m))"
  using assms
  by (simp add: next_ptr_def get_size_def data_ptr_def layout word_nat wasm_simps header_def)

lemma get_status_chain:
  assumes "chain (bytes m) a (b # bs)" "a + span (b # bs) \<le> mem_size m"
    "a + span (b # bs) < 4294967296"
  shows "get_status (word_of_nat a) m = Some (Ret (status_code (bstat b), m))"
  using assms
  by (simp add: get_status_def layout word_nat wasm_simps header_def)

lemma get_size_chain:
  assumes "chain (bytes m) a (b # bs)" "a + span (b # bs) \<le> mem_size m"
    "a + span (b # bs) < 4294967296"
  shows "get_size (word_of_nat a) m = Some (Ret (word_of_nat (bsize b), m))"
  using assms
  by (simp add: get_size_def layout word_nat wasm_simps header_def)

lemma get_used_chain:
  assumes "chain (bytes m) a (b # bs)" "a + span (b # bs) \<le> mem_size m"
    "a + span (b # bs) < 4294967296"
  shows "get_used (word_of_nat a) m = Some (Ret (word_of_nat (bused b), m))"
  using assms
  by (simp add: get_used_def layout word_nat wasm_simps header_def)

lemmas chain_access = next_ptr_chain get_status_chain get_size_chain get_used_chain

lemma status_code_eq_iff [simp]: "status_code s = status_code t \<longleftrightarrow> s = t"
  by (cases s; cases t) auto

text \<open>What \<open>find_free_loop\<close> returns from a block at address \<open>a\<close>.\<close>

definition fit_result ::
    "nat \<Rightarrow> nat \<Rightarrow> blk list \<Rightarrow> wasm_mem \<Rightarrow> (u32 option \<times> wasm_mem) outcome option" where
  "fit_result n a bs m =
     (case first_fit n bs of
        None \<Rightarrow> Some (Ret (None, m))
      | Some (p, x, q) \<Rightarrow>
          if 128 \<le> bsize x - n
          then wbind (split_block (word_of_nat (a + span p)) (word_of_nat (bsize x)) (word_of_nat n))
                 (\<lambda>b1. wret (Some b1)) m
          else Some (Ret (Some (word_of_nat (a + span p)), m)))"

lemma fit_result_Cons:
  "\<not> (bstat b = Free \<and> n \<le> bsize b) \<Longrightarrow>
     fit_result n a (b # bs) m = fit_result n (a + 12 + bsize b) bs m"
  unfolding fit_result_def
  by (cases "first_fit n bs") (auto simp: ac_simps)

lemma find_free_loop_chain:
  assumes "chain (bytes m) a bs" "list_all blk_ok bs" "a + span bs = 65 + pos"
    and "65 + pos \<le> mem_size m" "mem_size m \<le> 4294967296" "65 + pos < 4294967296"
    and "n < 4294967296"
  shows "find_free_loop (word_of_nat n) (word_of_nat pos) (word_of_nat a) m = fit_result n a bs m"
  using assms(1-3)
proof (induction bs arbitrary: a)
  case Nil
  have "\<not> (ucast (word_of_nat a :: u32) :: u64) < word_of_nat blocks_addr + word_of_nat pos"
    using Nil.prems assms(6) by (subst below_limit) simp_all
  then show ?case
    by (subst find_free_loop.simps) (simp add: fit_result_def wasm_simps)
next
  case (Cons b bs)
  have bound: "a + span (b # bs) \<le> mem_size m" "a + span (b # bs) < 4294967296" "a < 65 + pos"
    "bsize b < 4294967296"
    using Cons.prems(3) assms(4-6) by simp_all
  note access = chain_access [OF Cons.prems(1) bound(1)]
  have IH: "find_free_loop (word_of_nat n) (word_of_nat pos) (word_of_nat (a + 12 + bsize b)) m
      = fit_result n (a + 12 + bsize b) bs m"
    using Cons.prems by (intro Cons.IH) simp_all
  note step = IH access [OF bound(2)] wasm_simps
  have below: "(ucast (word_of_nat a :: u32) :: u64) < word_of_nat blocks_addr + word_of_nat pos"
    using bound assms(6) by (simp add: below_limit)
  show ?case
  proof (cases "bstat b = Free \<and> n \<le> bsize b")
    case True
    have "ucast (word_of_nat n :: u64) \<le> (word_of_nat (bsize b) :: u32)"
      using True bound(4) by (simp add: word_nat)
    moreover have "128 \<le> (word_of_nat (bsize b) :: u32) - ucast (word_of_nat n :: u64)
        \<longleftrightarrow> 128 \<le> bsize b - n"
      using True bound(4) nat32_le [of 128 "bsize b - n"]
      by (simp add: ucast_nat_64_32)
    ultimately show ?thesis
      using True
      by (subst find_free_loop.simps) (simp add: step below fit_result_def ucast_nat_64_32)
  next
    case False
    have "\<not> ucast (word_of_nat n :: u64) \<le> (word_of_nat (bsize b) :: u32)" if "bstat b = Free"
      using False that bound(4) assms(7) by (simp add: word_nat)
    moreover have "bstat b \<noteq> Unused" using Cons.prems(2) by (simp add: blk_ok_def)
    moreover have "fit_result n a (b # bs) m = fit_result n (a + 12 + bsize b) bs m"
      using False by (rule fit_result_Cons)
    ultimately show ?thesis
      by (subst find_free_loop.simps) (cases "bstat b"; simp add: step below del: of_nat_add)
  qed
qed

end
