(* ===== verification/Kernel_Refine.thy ===== *)
theory Kernel_Refine
  imports Kernel_Heap
begin

text \<open>
  The kernel refines its abstract heap: on a memory that represents a heap, every exported
  function returns (no trap, no endless walk) what the abstract operation says, and leaves a
  memory that represents the abstract result.
\<close>

section \<open>Reading the root\<close>

lemma root_new_ok: "heap_repr m h \<Longrightarrow> root_new m = Some (Ret ((), m))"
  using heap_okD [of h] heap_reprD(1-4) [of m h]
  by (simp add: root_new_def get_initialized_def layout wasm_simps)

lemma root_get:
  assumes "heap_repr m h"
  shows "get_position m = Some (Ret (word_of_nat (h_position h), m))"
    "get_length m = Some (Ret (word_of_nat (h_length h), m))"
    "get_error m = Some (Ret (h_error h, m))"
    "get_input_offset m = Some (Ret (h_input_offset h, m))"
    "get_input_length m = Some (Ret (h_input_length h, m))"
    "get_output_offset m = Some (Ret (h_output_offset h, m))"
    "get_output_length m = Some (Ret (h_output_length h, m))"
  using heap_okD [OF heap_reprD(1) [OF assms]] heap_reprD [OF assms]
  by (simp_all add: root_access_defs layout wasm_simps)

lemma pointer_in_bounds_fast_nat:
  assumes "pages m \<le> 65536"
  shows "pointer_in_bounds_fast p m = Some (Ret (64 \<le> unat p \<and> unat p \<le> mem_size m, m))"
proof -
  have "push_bit 16 (ucast (word_of_nat (pages m) :: u32) :: u64) = word_of_nat (mem_size m)"
    using assms by (simp add: word_nat push_bit_eq_mult mem_size_def)
  moreover have "word_of_nat size_of_root \<le> p \<longleftrightarrow> 64 \<le> unat p"
    by (simp add: layout word_le_nat_alt)
  moreover have "unat (word_of_nat (mem_size m) :: u64) = mem_size m"
    using assms by (intro unat_nat64) (simp add: mem_size_def)
  then have "p \<le> word_of_nat (mem_size m) \<longleftrightarrow> unat p \<le> mem_size m"
    by (simp only: word_le_nat_alt)
  ultimately show ?thesis
    by (simp add: pointer_in_bounds_fast_def wasm_simps)
qed

lemma pointer_in_bounds_nat:
  assumes "heap_repr m h"
  shows "pointer_in_bounds p m = Some (Ret (65 \<le> unat p \<and> unat p < 65 + h_length h, m))"
proof -
  have "h_length h < 4294967296" using heap_okD [OF heap_reprD(1) [OF assms]] by simp
  then have "(65 :: u64) + word_of_nat (h_length h) = word_of_nat (65 + h_length h)"
    and "unat (word_of_nat (65 + h_length h) :: u64) = 65 + h_length h"
    by (simp_all only: unat_nat64) simp_all
  then have "p < 65 + word_of_nat (h_length h) \<longleftrightarrow> unat p < 65 + h_length h"
    by (simp only: word_less_nat_alt)
  moreover have "65 \<le> p \<longleftrightarrow> 65 \<le> unat p"
    by (simp add: word_le_nat_alt)
  ultimately show ?thesis
    using root_get(2) [OF assms] by (simp add: pointer_in_bounds_def layout wasm_simps)
qed

section \<open>Finding a block\<close>

lemma block_at_above: "p < a + 12 \<Longrightarrow> block_at a bs p = None"
  by (induction a bs p rule: block_at.induct) auto

text \<open>Beyond the last block the memory holds zeros: a walk there skips twelve bytes at a time.\<close>

lemma find_block_loop_zeros:
  assumes "\<And>i. a \<le> i \<Longrightarrow> i < mem_size m \<Longrightarrow> bytes m i = 0"
    and "p + 77 \<le> mem_size m" "mem_size m \<le> 4294967296" "a < 4294967296"
  shows "find_block_loop (word_of_nat p) (word_of_nat a) m = Some (Ret (None, m))"
  using assms(1,4)
proof (induction "65 + p - a" arbitrary: a rule: less_induct)
  case less
  show ?case
  proof (cases "a < 65 + p")
    case False
    have "\<not> (ucast (word_of_nat a :: u32) :: u64) < word_of_nat blocks_addr + word_of_nat p"
      using False less.prems(2) assms(2,3) by (subst below_limit) simp_all
    then show ?thesis
      by (subst find_block_loop.simps) (simp add: wasm_simps)
  next
    case True
    have below: "(ucast (word_of_nat a :: u32) :: u64) < word_of_nat blocks_addr + word_of_nat p"
      using True less.prems(2) assms(2,3) by (subst below_limit) simp_all
    have zero: "rd32 (bytes m) (a + 4) = 0"
      using True assms(2) by (intro rd32_zero less.prems(1)) simp_all
    have status: "get_status (word_of_nat a) m = Some (Ret (0, m))"
      using True assms(2) less.prems by (simp add: get_status_def layout word_nat wasm_simps)
    have "next_ptr (word_of_nat a) m = Some (Ret (word_of_nat (a + 12), m))"
      using True assms(2) less.prems zero
      by (simp add: next_ptr_def get_size_def data_ptr_nat layout word_nat wasm_simps)
    moreover have "find_block_loop (word_of_nat p) (word_of_nat (a + 12)) m = Some (Ret (None, m))"
      using True less.prems assms(2,3) by (intro less.hyps) simp_all
    ultimately show ?thesis
      by (subst find_block_loop.simps) (simp add: below status wasm_simps del: of_nat_add)
  qed
qed

lemma find_block_loop_chain:
  assumes "chain (bytes m) a bs" "a + span bs = 65 + pos"
    and "\<And>i. 65 + pos \<le> i \<Longrightarrow> i < mem_size m \<Longrightarrow> bytes m i = 0"
    and "65 + pos \<le> mem_size m" "mem_size m \<le> 4294967296" "65 + pos < 4294967296"
    and "block_at a bs p \<noteq> None \<or> p + 77 \<le> mem_size m" "p < 18446744073709551551"
  shows "find_block_loop (word_of_nat p) (word_of_nat a) m =
    Some (Ret (map_option (\<lambda>(xs, x, ys). word_of_nat (a + span xs)) (block_at a bs p), m))"
  using assms(1,2,7)
proof (induction bs arbitrary: a)
  case Nil
  then show ?case
    using find_block_loop_zeros [of a m p] assms(3-6) by simp
next
  case (Cons b bs)
  have bound: "a + span (b # bs) \<le> mem_size m" "a + span (b # bs) < 4294967296"
    "a + 12 + bsize b < 4294967296"
    using Cons.prems(2) assms(4-6) by simp_all
  note access = chain_access [OF Cons.prems(1) bound(1,2)]
  have below: "(ucast (word_of_nat a :: u32) < word_of_nat blocks_addr + (word_of_nat p :: u64))
      \<longleftrightarrow> a < 65 + p"
    using bound assms(8) by (subst below_limit) simp_all
  have here: "ucast (data_ptr (word_of_nat a)) = (word_of_nat p :: u64) \<longleftrightarrow> a + 12 = p"
    using bound(3) assms(8)
    by (simp only: data_ptr_nat ucast_nat_32_64) (subst nat64_eq; simp)
  show ?case
  proof (cases "a < 65 + p")
    case False
    then have "block_at a (b # bs) p = None" by (intro block_at_above) simp
    with False show ?thesis
      by (subst find_block_loop.simps) (simp only: below, simp add: wasm_simps)
  next
    case True
    show ?thesis
    proof (cases "bstat b = Active \<and> a + 12 = p")
      case True
      with \<open>a < 65 + p\<close> show ?thesis
        by (subst find_block_loop.simps)
          (simp only: below here, simp add: access wasm_simps)
    next
      case False
      have "find_block_loop (word_of_nat p) (word_of_nat (a + 12 + bsize b)) m =
        Some (Ret (map_option (\<lambda>(xs, x, ys). word_of_nat (a + 12 + bsize b + span xs))
          (block_at (a + 12 + bsize b) bs p), m))"
        using Cons.prems False by (intro Cons.IH) auto
      with False \<open>a < 65 + p\<close> show ?thesis
        by (subst find_block_loop.simps)
          (simp only: below here, auto simp: access wasm_simps option.map_comp o_def ac_simps
            case_prod_unfold simp del: status_code.simps)
    qed
  qed
qed

lemma heap_find_SomeD:
  assumes "heap_find h p = Some (xs, x, ys)"
  shows "h_blocks h = xs @ x # ys" "bstat x = Active" "p = 65 + span xs + 12"
    "p + bsize x \<le> 65 + h_position h"
  using block_at_SomeD [of 65 "h_blocks h" p xs x ys] assms by (auto simp: heap_find_def)

text \<open>The handles whose lookup the walk decides without leaving the memory.\<close>

definition findable :: "wasm_mem \<Rightarrow> heap \<Rightarrow> nat \<Rightarrow> bool" where
  "findable m h p \<longleftrightarrow> heap_find h p \<noteq> None \<or> p + 77 \<le> mem_size m \<or> mem_size m < p"

lemma root_find_block_ok:
  assumes repr: "heap_repr m h" and p: "p < 18446744073709551616" "findable m h p"
  shows "root_find_block (word_of_nat p) m =
    Some (Ret (map_option (\<lambda>(xs, x, ys). word_of_nat (65 + span xs)) (heap_find h p), m))"
proof -
  note ok = heap_okD [OF heap_reprD(1) [OF repr]] heap_reprD(2,3) [OF repr]
  have fast: "pointer_in_bounds_fast (word_of_nat p) m =
      Some (Ret (64 \<le> p \<and> p \<le> mem_size m, m))"
    using ok p by (simp add: pointer_in_bounds_fast_nat word_nat)
  show ?thesis
  proof (cases "64 \<le> p \<and> p \<le> mem_size m")
    case True
    have "find_block_loop (word_of_nat p) (word_of_nat 65) m =
      Some (Ret (map_option (\<lambda>(xs, x, ys). word_of_nat (65 + span xs))
        (block_at 65 (h_blocks h) p), m))"
      using ok p True heap_reprD(13) [OF repr]
      by (intro find_block_loop_chain [where pos = "h_position h"] heap_reprD(5) [OF repr])
        (auto simp: heap_find_def findable_def)
    with True fast show ?thesis
      by (simp add: root_find_block_def layout wasm_simps heap_find_def)
  next
    case False
    have "heap_find h p = None"
      using False heap_find_SomeD(3,4) [of h p] ok by (cases "heap_find h p") auto
    with False fast show ?thesis
      by (auto simp: root_find_block_def wasm_simps)
  qed
qed

lemma heap_find_chain:
  assumes "heap_repr m h" "heap_find h p = Some (xs, x, ys)"
  shows "chain (bytes m) (65 + span xs) (x # ys)" "65 + span xs + span (x # ys) \<le> mem_size m"
    "65 + span xs + span (x # ys) < 4294967296"
  using heap_reprD(3,5) [OF assms(1)] heap_okD [OF heap_reprD(1) [OF assms(1)]]
    heap_find_SomeD(1) [OF assms(2)]
  by (auto simp: chain_append)

lemma k_length_ok:
  assumes repr: "heap_repr m h" and p: "p < 18446744073709551616" "findable m h p"
  shows "k_length (word_of_nat p) m =
    Some (Ret (case heap_find h p of None \<Rightarrow> 0 | Some (xs, x, ys) \<Rightarrow> word_of_nat (bused x), m))"
proof (cases "heap_find h p")
  case None
  then show ?thesis
    using assms
    by (simp add: k_length_def wasm_simps root_new_ok [OF repr] root_find_block_ok)
next
  case (Some t)
  then obtain xs x ys where find: "heap_find h p = Some (xs, x, ys)" by (cases t) auto
  have "p \<noteq> 0" using heap_find_SomeD(3) [OF find] by simp
  then have nz: "(word_of_nat p :: u64) \<noteq> 0"
    using p(1) nat64_eq [of p 0] by simp
  have "bused x < 4294967296"
    using heap_find_SomeD(1,4) [OF find] heap_reprD(1) [OF repr]
      heap_okD [OF heap_reprD(1) [OF repr]]
    by (auto simp: heap_ok_def blk_ok_def)
  with nz find show ?thesis
    using get_used_chain [OF heap_find_chain [OF repr find]]
    by (simp add: k_length_def wasm_simps root_new_ok [OF repr] root_find_block_ok [OF repr p]
        ucast_nat_32_64 del: of_nat_add)
qed

section \<open>Free\<close>

text \<open>
  A change of the bytes that keeps the root and the zeros behind the last block, and leaves
  a chain of the same span, is a change of the block list.
\<close>

lemma heap_repr_blocks:
  assumes repr: "heap_repr m h" and span: "span bs = h_position h" and ok: "list_all blk_ok bs"
    and chain: "chain f 65 bs"
    and same: "\<And>i. i < 65 \<or> 65 + h_position h \<le> i \<Longrightarrow> f i = bytes m i"
  shows "heap_repr (m\<lparr>bytes := f\<rparr>) (h\<lparr>h_blocks := bs\<rparr>)"
proof -
  have root: "rd64 f a = rd64 (bytes m) a" if "a + 8 \<le> 65" for a
    using that by (intro rd64_cong same) simp
  show ?thesis
    using heap_reprD [OF repr] span ok chain same
    by (simp add: heap_repr_def heap_ok_def root)
qed

text \<open>Likewise for the input length, which \<^verbatim>\<open>free\<close> clears.\<close>

lemma heap_repr_input_length:
  assumes "heap_repr m h"
  shows "heap_repr (m\<lparr>bytes := wr64 (bytes m) 41 v\<rparr>) (h\<lparr>h_input_length := v\<rparr>)"
proof -
  have "chain (wr64 (bytes m) 41 v) 65 (h_blocks h) = chain (bytes m) 65 (h_blocks h)"
    by (rule chain_cong) (auto simp: mem_simps dest: in_headers_range)
  with heap_reprD [OF assms] show ?thesis
    by (simp add: heap_repr_def mem_simps heap_ok_def)
qed

lemma k_free_ok:
  assumes repr: "heap_repr m h" and p: "p < 18446744073709551616" "findable m h p"
  shows "\<exists>m'. k_free (word_of_nat p) m = Some (Ret ((), m')) \<and> heap_repr m' (heap_free p h) \<and>
    growth m' = growth m \<and> (\<forall>i. in_active 65 (h_blocks h) i \<longrightarrow> bytes m' i = bytes m i)"
proof (cases "heap_find h p")
  case None
  then show ?thesis
    using assms
    by (simp add: k_free_def wasm_simps root_new_ok [OF repr] root_find_block_ok heap_free_def)
next
  case (Some t)
  then obtain xs x ys where find: "heap_find h p = Some (xs, x, ys)" by (cases t) auto
  note found = heap_find_SomeD [OF find] and hc = heap_find_chain [OF repr find]
  let ?a = "65 + span xs" and ?bs = "xs @ x\<lparr>bstat := Free\<rparr> # ys"
  let ?f = "(bytes m)(?a := status_code Free)" and ?h = "h\<lparr>h_blocks := ?bs\<rparr>"
  have "chain ?f 65 (xs @ [x\<lparr>bstat := Free\<rparr>] @ ys)"
    by (rule chain_replace [where f = "bytes m" and ys = "[x]"])
      (use heap_reprD(5) [OF repr] found(1) hc(1) in \<open>auto simp: header_def mem_simps\<close>)
  moreover have "list_all blk_ok ?bs"
    using heap_reprD(1) [OF repr] found(1) by (auto simp: heap_ok_def blk_ok_def)
  ultimately have repr1: "heap_repr (m\<lparr>bytes := ?f\<rparr>) ?h"
    using found(1) by (intro heap_repr_blocks [OF repr]) auto
  have free: "block_free (word_of_nat ?a) m = Some (Ret ((), m\<lparr>bytes := ?f\<rparr>))"
    using hc(2,3)
    by (simp add: block_free_def set_status_def layout word_nat wasm_simps del: of_nat_add)
  have store: "set_input_length 0 m1 = Some (Ret ((), m1\<lparr>bytes := wr64 (bytes m1) 41 0\<rparr>))"
    if "mem_size m1 = mem_size m" for m1
    using that heap_okD [OF heap_reprD(1) [OF repr]] heap_reprD(3) [OF repr]
    by (simp add: set_input_length_def layout wasm_simps)
  have nz: "(word_of_nat p :: u64) \<noteq> 0"
    using p(1) found(3) nat64_eq [of p 0] by simp
  have inactive: "\<not> in_active 65 (h_blocks h) i" if "i < 65 \<or> i = ?a" for i
    using that found(1)
    by (auto simp: in_active_append dest: in_active_range)
  have frame: "i \<noteq> ?a \<and> 65 \<le> i" if "in_active 65 (h_blocks h) i" for i
    using that inactive [of i] by (metis not_le)
  have frame': "wr64 ?f 41 0 i = bytes m i" if "in_active 65 (h_blocks h) i" for i
    using frame [OF that] by (simp add: mem_simps)
  have run: "k_free (word_of_nat p) m =
      (if word_of_nat p = h_input_offset h then set_input_length 0 else wret ()) (m\<lparr>bytes := ?f\<rparr>)"
    using nz find free root_get(4) [OF repr1]
    by (simp add: k_free_def wasm_simps root_new_ok [OF repr] root_find_block_ok [OF repr p]
        del: of_nat_add)
  show ?thesis
  proof (cases "word_of_nat p = h_input_offset h")
    case True
    with run store [of "m\<lparr>bytes := ?f\<rparr>"] heap_repr_input_length [OF repr1, of 0] frame' show ?thesis
      by (auto simp: heap_free_def find)
  next
    case False
    with run repr1 frame show ?thesis
      by (auto simp: heap_free_def find wasm_simps)
  qed
qed

end
