(* ===== verification/Kernel_Alloc.thy ===== *)
theory Kernel_Alloc
  imports Kernel_Refine
begin

text \<open>
  \<^verbatim>\<open>alloc\<close> refines the abstract allocator: the reuse of a freed block, with and without the
  split, the bump allocation, and the growth of the memory with its three verdicts.
\<close>

section \<open>Reusing a freed block\<close>

definition split_store :: "store \<Rightarrow> nat \<Rightarrow> nat \<Rightarrow> nat \<Rightarrow> store" where
  "split_store f b s n =
     (let f1 = wr32 (wr32 f (b + 4) (word_of_nat (s - (n + 12)))) (b + 8) 0; b1 = b + s - n
      in (wr32 (wr32 f1 (b1 + 4) (word_of_nat n)) (b1 + 8) 0)(b1 := status_code Free))"

definition mark_store :: "store \<Rightarrow> nat \<Rightarrow> nat \<Rightarrow> store" where
  "mark_store f b n = (wr32 f (b + 8) (word_of_nat n))(b := status_code Active)"

definition reuse_store :: "store \<Rightarrow> nat \<Rightarrow> blk \<Rightarrow> nat \<Rightarrow> store" where
  "reuse_store f b x n =
     mark_store (if 128 \<le> bsize x - n then split_store f b (bsize x) n else f)
       (b + carve_offset n x) n"

lemma split_sizeE:
  assumes "128 \<le> s - n"
  obtains d :: nat where "s = n + 12 + d" "116 \<le> d"
  using assms by (rule_tac that [of "s - n - 12"]) simp_all

lemma split_block_ok:
  assumes "128 \<le> s - n" "b + 12 + s \<le> mem_size m" "b + 12 + s < 4294967296"
  shows "split_block (word_of_nat b) (word_of_nat s) (word_of_nat n) m =
    Some (Ret (word_of_nat (b + s - n), m\<lparr>bytes := split_store (bytes m) b s n\<rparr>))"
proof -
  obtain d where s: "s = n + 12 + d" using assms(1) by (rule split_sizeE)
  have size: "word_of_nat (n + 12 + d) - (word_of_nat n + word_of_nat size_of_block) =
      (word_of_nat d :: u32)"
    by (simp add: layout)
  have ptr: "data_ptr (word_of_nat b) + word_of_nat d = word_of_nat (b + 12 + d)"
    by (simp add: data_ptr_nat)
  have addr: "b + (n + 12 + d) - n = b + 12 + d"
    by simp
  show ?thesis
    using assms unfolding s split_store_def addr
    by (simp add: split_block_def block_access_defs block_field_eq wasm_simps mem_simps size ptr
        word_nat del: of_nat_add)
qed

lemma reuse_store_chain:
  assumes "header f b x" "n \<le> bsize x"
  shows "chain (reuse_store f b x n) b (carve n x)"
proof (cases "128 \<le> bsize x - n")
  case True
  then obtain d where s: "bsize x = n + 12 + d" by (rule split_sizeE)
  with True assms(1) show ?thesis
    by (simp add: reuse_store_def carve_def carve_offset_def split_store_def mark_store_def
        header_def mem_simps ac_simps)
next
  case False
  with assms show ?thesis
    by (simp add: reuse_store_def carve_def carve_offset_def mark_store_def header_def mem_simps)
qed

lemma reuse_store_outside:
  assumes "n \<le> bsize x" "i < b \<or> b + 12 + bsize x \<le> i"
  shows "reuse_store f b x n i = f i"
proof (cases "128 \<le> bsize x - n")
  case True
  then obtain d where s: "bsize x = n + 12 + d" by (rule split_sizeE)
  with True assms show ?thesis
    by (auto simp: reuse_store_def carve_offset_def split_store_def mark_store_def mem_simps)
next
  case False
  with assms show ?thesis
    by (auto simp: reuse_store_def carve_offset_def mark_store_def mem_simps)
qed

text \<open>The free block search on a represented heap.\<close>

lemma find_free_ok:
  assumes repr: "heap_repr m h" and n: "n < 4294967296"
  shows "root_find_free_block (word_of_nat n) (word_of_nat (h_position h)) m =
    fit_result n 65 (h_blocks h) m"
  unfolding root_find_free_block_def blocks_addr_eq
  by (rule find_free_loop_chain)
    (use heap_reprD [OF repr] heap_okD [OF heap_reprD(1) [OF repr]] n
      in \<open>simp_all add: heap_ok_def\<close>)

lemma root_alloc_reuse:
  assumes repr: "heap_repr m h" and n: "n < 4294967296"
    and fit: "first_fit n (h_blocks h) = Some (p, x, q)"
  shows "root_alloc (word_of_nat n) m =
    Some (Ret (Some (word_of_nat (65 + span p + carve_offset n x)),
               m\<lparr>bytes := reuse_store (bytes m) (65 + span p) x n\<rparr>))"
proof -
  let ?b = "65 + span p"
  note fitD = first_fit_SomeD [OF fit]
  have bound: "?b + 12 + bsize x + 32 \<le> mem_size m" "mem_size m \<le> 4294967296"
    using fitD heap_reprD(3) [OF repr] heap_okD [OF heap_reprD(1) [OF repr]] by auto
  have off: "carve_offset n x \<le> bsize x"
    by (simp add: carve_offset_def)
  show ?thesis
  proof (cases "128 \<le> bsize x - n")
    case True
    then have "carve_offset n x = bsize x - n" and n': "n \<le> bsize x"
      by (simp_all add: carve_offset_def)
    then have addr: "?b + bsize x - n = ?b + carve_offset n x" by simp
    have "split_block (word_of_nat ?b) (word_of_nat (bsize x)) (word_of_nat n) m =
      Some (Ret (word_of_nat (?b + carve_offset n x),
                 m\<lparr>bytes := split_store (bytes m) ?b (bsize x) n\<rparr>))"
      using split_block_ok [OF True, of ?b m] bound by (simp only: addr)
    with True show ?thesis
      using root_get(1,2) [OF repr] find_free_ok [OF repr n] fit bound off
      by (simp add: root_alloc_def fit_result_def wasm_simps block_access_defs block_field_eq
          word_nat reuse_store_def mark_store_def del: of_nat_add)
  next
    case False
    then have "carve_offset n x = 0" by (simp add: carve_offset_def)
    with False show ?thesis
      using root_get(1,2) [OF repr] find_free_ok [OF repr n] fit bound
      by (simp add: root_alloc_def fit_result_def wasm_simps block_access_defs block_field_eq
          word_nat reuse_store_def mark_store_def del: of_nat_add)
  qed
qed

lemma heap_repr_reuse:
  assumes repr: "heap_repr m h" and n: "0 < n"
    and fit: "first_fit n (h_blocks h) = Some (p, x, q)"
  shows "heap_repr (m\<lparr>bytes := reuse_store (bytes m) (65 + span p) x n\<rparr>)
    (h\<lparr>h_blocks := p @ carve n x @ q\<rparr>)"
proof (rule heap_repr_blocks [OF repr])
  note fitD = first_fit_SomeD [OF fit]
  then have blocks: "h_blocks h = p @ [x] @ q" "n \<le> bsize x" by auto
  have header: "header (bytes m) (65 + span p) x"
    using heap_reprD(5) [OF repr] blocks by (simp add: chain_append)
  show "span (p @ carve n x @ q) = h_position h"
    using fitD span_carve [of x n] by simp
  show "list_all blk_ok (p @ carve n x @ q)"
    using heap_reprD(1) [OF repr] fitD n by (auto simp: heap_ok_def blk_ok_def carve_def)
  show "reuse_store (bytes m) (65 + span p) x n i = bytes m i"
    if "i < 65 \<or> 65 + h_position h \<le> i" for i
    using that blocks by (intro reuse_store_outside) auto
  show "chain (reuse_store (bytes m) (65 + span p) x n) 65 (p @ carve n x @ q)"
  proof (rule chain_replace)
    show "chain (bytes m) 65 (p @ [x] @ q)" using heap_reprD(5) [OF repr] blocks by simp
    show "span (carve n x) = span [x]" using fitD by (intro span_carve) auto
    show "chain (reuse_store (bytes m) (65 + span p) x n) (65 + span p) (carve n x)"
      using header blocks(2) by (rule reuse_store_chain)
  qed (use blocks in \<open>auto intro: reuse_store_outside\<close>)
qed

lemma reuse_keeps_active:
  assumes "first_fit n bs = Some (p, x, q)" "in_active 65 bs i"
  shows "reuse_store f (65 + span p) x n i = f i"
proof -
  note fitD = first_fit_SomeD [OF assms(1)]
  then have "i < 65 + span p \<or> 65 + span p + 12 + bsize x \<le> i"
    using assms(2) by (auto simp: in_active_append dest: in_active_range)
  then show ?thesis using fitD by (intro reuse_store_outside) auto
qed

section \<open>The bump allocation\<close>

definition push_store :: "store \<Rightarrow> nat \<Rightarrow> nat \<Rightarrow> store" where
  "push_store f pos n =
     wr32 (wr32 ((wr64 f 9 (word_of_nat (pos + (n + 12))))(65 + pos := status_code Active))
       (65 + pos + 4) (word_of_nat n)) (65 + pos + 8) (word_of_nat n)"

lemma push_store_outside:
  "i < 9 \<or> 17 \<le> i \<Longrightarrow> i < 65 + pos \<or> 77 + pos \<le> i \<Longrightarrow> push_store f pos n i = f i"
  by (auto simp: push_store_def mem_simps)

lemma alloc_bump_run:
  assumes repr: "heap_repr m h" and n: "n < 4294967296"
  shows "alloc_bump (word_of_nat n) (word_of_nat (65 + h_position h)) m =
    Some (Ret (Some (word_of_nat (65 + h_position h)),
               m\<lparr>bytes := push_store (bytes m) (h_position h) n\<rparr>))"
proof -
  have "word_of_nat n + word_of_nat size_of_block = (word_of_nat (n + 12) :: u64)"
    by (simp add: layout)
  then show ?thesis
    using heap_okD [OF heap_reprD(1) [OF repr]] heap_reprD(3) [OF repr] root_get(1) [OF repr]
    by (simp add: alloc_bump_def set_position_def block_access_defs block_field_eq root_field_eq
        wasm_simps word_nat nat_word_add push_store_def Let_def del: of_nat_add)
qed

lemma heap_repr_push:
  assumes repr: "heap_repr m h" and n: "0 < n" and room: "h_position h + n + 76 \<le> h_length h"
  shows "heap_repr (m\<lparr>bytes := push_store (bytes m) (h_position h) n\<rparr>) (heap_push n h)"
proof -
  let ?f = "push_store (bytes m) (h_position h) n" and ?b = "\<lparr>bstat = Active, bsize = n, bused = n\<rparr>"
  note ok = heap_okD [OF heap_reprD(1) [OF repr]] and R = heap_reprD [OF repr]
  have "chain ?f 65 (h_blocks h)"
    using R(5) by (subst chain_cong [where g = "bytes m"])
      (auto intro!: push_store_outside dest: in_headers_range)
  moreover have "header ?f (65 + h_position h) ?b"
    by (simp add: header_def push_store_def mem_simps)
  moreover have "rd64 ?f a = rd64 (bytes m) a" if "17 \<le> a" "a + 8 \<le> 65" for a
    using that by (intro rd64_cong push_store_outside) auto
  moreover have "rd64 ?f 9 = word_of_nat (h_position h + (n + 12))"
    by (simp add: push_store_def mem_simps)
  moreover have "?f (Suc 0) = bytes m (Suc 0)"
    by (intro push_store_outside) auto
  moreover have "?f i = 0" if "77 + h_position h \<le> i" "i < mem_size m" for i
    using that R(13) by (subst push_store_outside) auto
  moreover have "heap_ok (heap_push n h)"
    using R(1) n room by (auto simp: heap_ok_def heap_push_def blk_ok_def)
  ultimately show ?thesis
    using R(2,4,7-12)
    by (simp add: heap_repr_def heap_push_def chain_append ac_simps)
qed

lemma push_keeps_active:
  "in_active 65 bs i \<Longrightarrow> push_store f (span bs) n i = f i"
  by (auto intro!: push_store_outside dest: in_active_range)

section \<open>Growing the memory\<close>

lemma pages_needed_div:
  "pages_needed k = k div 65536 + (if k mod 65536 = 0 then 0 else 1)"
proof -
  have "k + 65535 = k mod 65536 + 65535 + k div 65536 * 65536" by simp
  then have "(k + 65535) div 65536 = (k mod 65536 + 65535) div 65536 + k div 65536"
    by (metis add.commute div_mult_self1 zero_neq_numeral)
  moreover have "(k mod 65536 + 65535) div 65536 = (if k mod 65536 = 0 then 0 else 1)"
  proof -
    have "k mod 65536 < 65536" by simp
    then show ?thesis by (cases "k mod 65536 = 0") (auto simp: div_nat_eqI)
  qed
  ultimately show ?thesis by (simp add: pages_needed_def)
qed

lemma pages_needed_covers: "k \<le> pages_needed k * 65536"
  by (simp add: pages_needed_def)

lemma num_pages_nat:
  assumes "k < 18446744073709551616"
  shows "num_pages (word_of_nat k) = word_of_nat (pages_needed k)"
proof -
  have u: "unat (word_of_nat k :: u64) = k" using assms by (rule unat_nat64)
  have page: "ucast PAGE_SIZE = (word_of_nat 65536 :: u64)" by (simp add: PAGE_SIZE_def)
  have d: "(word_of_nat k :: u64) div word_of_nat 65536 = word_of_nat (k div 65536)"
    using assms by (simp add: word_arith_nat_div u)
  have "unat ((word_of_nat k :: u64) mod word_of_nat 65536) = k mod 65536"
    using u by (simp add: unat_mod_distrib)
  then have m: "((word_of_nat k :: u64) mod word_of_nat 65536 = 0) = (k mod 65536 = 0)"
    by (simp only: unat_eq_0 [symmetric])
  have "word_of_nat (k div 65536) + 1 = (word_of_nat (k div 65536 + 1) :: u64)" by simp
  then show ?thesis
    by (simp only: num_pages_def Let_def page d m pages_needed_div ucast_nat_64_32
        split: if_split) (simp add: ucast_nat_64_32 del: of_nat_add)
qed

definition grown :: "nat \<Rightarrow> wasm_mem \<Rightarrow> nat \<Rightarrow> wasm_mem" where
  "grown np m len = m\<lparr>pages := pages m + np,
     bytes := wr64 (fill_bytes (bytes m) (mem_size m) (np * 65536) 0) 17
       (word_of_nat (len + np * 65536))\<rparr>"

lemma pages_needed_le: "k \<le> 4294967308 \<Longrightarrow> pages_needed k \<le> 65537"
  using div_le_mono [of "k + 65535" 4295032843 65536] by (simp add: pages_needed_def)

lemma alloc_grow_run:
  assumes repr: "heap_repr m h" and k: "k \<le> 4294967308" and left: "left \<le> 4294967296"
  shows "alloc_grow (word_of_nat (left + k)) (word_of_nat left) m =
    (if 65536 < h_pages h + pages_needed k then Some (Ret (False, m))
     else (case growth m (h_pages h) (pages_needed k) of
             Grown \<Rightarrow> Some (Ret (True, grown (pages_needed k) m (h_length h)))
           | Refused \<Rightarrow> Some (Ret (False, m))
           | Grow_trap \<Rightarrow> Some Trap))"
proof -
  let ?np = "pages_needed k"
  note ok = heap_okD [OF heap_reprD(1) [OF repr]] and R = heap_reprD [OF repr]
  have np: "?np \<le> 65537" using k by (rule pages_needed_le)
  have diff: "(word_of_nat (left + k) :: u64) - word_of_nat left = word_of_nat k" by simp
  have npages: "num_pages (word_of_nat k) = word_of_nat ?np"
    using k by (intro num_pages_nat) simp
  have unat_np: "unat (word_of_nat ?np :: u32) = ?np"
    using np by (intro unat_nat32) simp
  have le: "(word_of_nat left :: u64) \<le> word_of_nat (left + k)"
    using left k by (subst nat64_le) simp_all
  have not_max: "(word_of_nat (h_pages h) :: u32) \<noteq> - 1"
  proof
    assume "(word_of_nat (h_pages h) :: u32) = - 1"
    then have "unat (word_of_nat (h_pages h) :: u32) = unat (- 1 :: u32)" by simp
    with ok show False by (simp add: word_nat unsigned_minus_1_eq_mask mask_eq_exp_minus_1)
  qed
  have len: "(word_of_nat (h_length h) :: u64) + ucast (word_of_nat ?np :: u32) * ucast PAGE_SIZE =
      word_of_nat (h_length h + ?np * 65536)"
    using np by (simp add: PAGE_SIZE_def word_nat)
  have len_field: "get_length (m\<lparr>pages := pages m + ?np,
      bytes := fill_bytes (bytes m) (mem_size m) (?np * 65536) 0\<rparr>) =
      Some (Ret (word_of_nat (h_length h), m\<lparr>pages := pages m + ?np,
      bytes := fill_bytes (bytes m) (mem_size m) (?np * 65536) 0\<rparr>))"
    using R(2,3,7) ok
    by (simp add: get_length_def root_field_eq i64_load_def mem_size_def mem_simps)
  show ?thesis
    using R(2) ok len_field
    by (simp add: alloc_grow_def le diff npages unat_np memory_grow_def not_max wasm_simps
        len set_length_def root_field_eq i64_store_def mem_size_def grown_def Let_def
        split: grow_verdict.splits del: of_nat_add)
qed

lemma heap_repr_grown:
  assumes repr: "heap_repr m h" and np: "h_pages h + np \<le> 65536"
  shows "heap_repr (grown np m (h_length h)) (heap_grow np h)"
proof -
  let ?g = "fill_bytes (bytes m) (mem_size m) (np * 65536) 0"
  define f where "f = wr64 ?g 17 (word_of_nat (h_length h + np * 65536))"
  note ok = heap_okD [OF heap_reprD(1) [OF repr]] and R = heap_reprD [OF repr]
  have same: "f i = bytes m i" if "i < 17 \<or> 25 \<le> i" "i < mem_size m" for i
    using that by (auto simp: f_def mem_simps)
  have "chain f 65 (h_blocks h) = chain (bytes m) 65 (h_blocks h)"
    using ok R(3) by (intro chain_cong same) (auto dest!: in_headers_range)
  moreover have "rd64 f a = rd64 (bytes m) a" if "a + 8 \<le> 17 \<or> 25 \<le> a" "a + 8 \<le> 65" for a
    using that ok R(3) by (intro rd64_cong same) auto
  moreover have "f (Suc 0) = bytes m (Suc 0)"
    using ok R(3) by (intro same) auto
  moreover have "f i = 0" if "65 + h_position h \<le> i" "i < mem_size m + np * 65536" for i
    using that R(13) [of i] by (cases "i < mem_size m") (auto simp: f_def mem_simps)
  moreover have "rd64 f 17 = word_of_nat (h_length h + np * 65536)"
    by (simp add: f_def mem_simps)
  moreover have "grown np m (h_length h) = m\<lparr>pages := pages m + np, bytes := f\<rparr>"
    by (simp add: grown_def f_def)
  ultimately show ?thesis
    using R ok np
    by (simp add: heap_repr_def heap_grow_def heap_ok_def mem_size_def distrib_right)
qed

lemma grown_keeps:
  "i < mem_size m \<Longrightarrow> 25 \<le> i \<Longrightarrow> bytes (grown np m len) i = bytes m i"
  by (simp add: grown_def mem_simps)

section \<open>The allocator\<close>

text \<open>What a run has to do to implement an abstract outcome.\<close>

definition alloc_agrees ::
    "heap \<Rightarrow> wasm_mem \<Rightarrow> (u64 \<times> wasm_mem) outcome option \<Rightarrow> (nat \<times> heap) outcome \<Rightarrow> bool" where
  "alloc_agrees h m run spec \<longleftrightarrow>
     (case spec of
        Trap \<Rightarrow> run = Some Trap
      | Ret (p, h') \<Rightarrow>
          \<exists>m'. run = Some (Ret (word_of_nat p, m')) \<and> heap_repr m' h' \<and> growth m' = growth m \<and>
            (\<forall>i. in_active 65 (h_blocks h) i \<longrightarrow> bytes m' i = bytes m i))"

lemma alloc_agreesI:
  assumes "run = Some (Ret (word_of_nat p, m'))" "heap_repr m' h'" "growth m' = growth m"
    "\<And>i. in_active 65 (h_blocks h) i \<Longrightarrow> bytes m' i = bytes m i"
  shows "alloc_agrees h m run (Ret (p, h'))"
  using assms by (auto simp: alloc_agrees_def)

lemma k_alloc_via_root:
  assumes "heap_repr m h" "0 < n" "n < 4294967296"
  shows "k_alloc (word_of_nat n) m = wbind (root_alloc (word_of_nat n)) (\<lambda>block. case block of
     Some b \<Rightarrow> wret (ucast (data_ptr b)) | None \<Rightarrow> wret 0) m"
proof -
  have "(word_of_nat n :: u64) \<noteq> 0" using assms(2,3) nat64_eq [of n 0] by simp
  then show ?thesis
    by (simp add: k_alloc_def wthen_apply wbind_apply root_new_ok [OF assms(1)])
qed

lemma bump_agrees:
  assumes repr: "heap_repr m1 h1" and n: "0 < n" "n < 4294967296"
    and room: "h_position h1 + n + 76 \<le> h_length h1"
    and same: "h_blocks h1 = h_blocks h" "growth m1 = growth m"
      "\<And>i. in_active 65 (h_blocks h) i \<Longrightarrow> bytes m1 i = bytes m i"
  shows "alloc_agrees h m
    (wbind (alloc_bump (word_of_nat n) (word_of_nat (65 + h_position h)))
      (\<lambda>block. case block of Some b \<Rightarrow> wret (ucast (data_ptr b)) | None \<Rightarrow> wret 0) m1)
    (Ret (65 + h_position h + 12, heap_push n h1))"
proof (rule alloc_agreesI)
  have "77 + h_position h < 4294967296"
    using heap_okD [OF heap_reprD(1) [OF repr]] same(1) by simp
  then show "wbind (alloc_bump (word_of_nat n) (word_of_nat (65 + h_position h)))
      (\<lambda>block. case block of Some b \<Rightarrow> wret (ucast (data_ptr b)) | None \<Rightarrow> wret (0 :: u64)) m1 =
    Some (Ret (word_of_nat (65 + h_position h + 12),
      m1\<lparr>bytes := push_store (bytes m1) (h_position h1) n\<rparr>))"
    using alloc_bump_run [OF repr n(2)] same(1)
    by (simp add: wbind_apply wret_apply data_ptr_nat word_nat del: of_nat_add)
  show "heap_repr (m1\<lparr>bytes := push_store (bytes m1) (h_position h1) n\<rparr>) (heap_push n h1)"
    using repr n(1) room by (rule heap_repr_push)
qed (use same push_keeps_active in auto)

lemma k_alloc_refines_heap:
  assumes repr: "heap_repr m h" and n: "0 < n" "n < 4294967296"
  shows "alloc_agrees h m (k_alloc (word_of_nat n) m) (heap_alloc (growth m) n h)"
proof (cases "first_fit n (h_blocks h)")
  case (Some t)
  then obtain p x q where fit: "first_fit n (h_blocks h) = Some (p, x, q)" by (cases t) auto
  have "65 + span p + carve_offset n x + 12 < 4294967296"
    using first_fit_SomeD [OF fit] heap_okD [OF heap_reprD(1) [OF repr]]
    by (auto simp: carve_offset_def)
  then have run: "k_alloc (word_of_nat n) m =
      Some (Ret (word_of_nat (65 + span p + carve_offset n x + 12),
        m\<lparr>bytes := reuse_store (bytes m) (65 + span p) x n\<rparr>))"
    using root_alloc_reuse [OF repr n(2) fit] k_alloc_via_root [OF repr n]
    by (simp add: wbind_apply wret_apply data_ptr_nat word_nat del: of_nat_add)
  have spec: "heap_alloc (growth m) n h = Ret (65 + span p + carve_offset n x + 12,
      h\<lparr>h_blocks := p @ carve n x @ q\<rparr>)"
    using fit by (simp add: heap_alloc_def)
  show ?thesis
    unfolding spec
    by (rule alloc_agreesI [OF run heap_repr_reuse [OF repr n(1) fit]])
      (use reuse_keeps_active [OF fit] in auto)
next
  case None
  define left where "left = h_length h - h_position h - 64"
  define k where "k = n + 12 - left"
  note ok = heap_okD [OF heap_reprD(1) [OF repr]]
  have left_bound: "left \<le> 4294967296" using ok by (simp add: left_def)
  let ?handle = "\<lambda>block. case block of Some b \<Rightarrow> wret (ucast (data_ptr b)) | None \<Rightarrow> wret (0 :: u64)"
  have words: "word_of_nat (h_length h) - word_of_nat (h_position h) - word_of_nat size_of_root =
      (word_of_nat left :: u64)"
    "word_of_nat n + word_of_nat size_of_block = (word_of_nat (n + 12) :: u64)"
    "word_of_nat blocks_addr + word_of_nat (h_position h) = (word_of_nat (65 + h_position h) :: u64)"
    using ok by (simp_all add: layout left_def)
  have run: "k_alloc (word_of_nat n) m =
      wbind (alloc_grow (word_of_nat (n + 12)) (word_of_nat left)) (\<lambda>ok.
        if \<not> ok then wret 0
        else wbind (alloc_bump (word_of_nat n) (word_of_nat (65 + h_position h))) ?handle) m"
    using root_get(1,2) [OF repr] find_free_ok [OF repr n(2)] None k_alloc_via_root [OF repr n]
    by (auto simp: root_alloc_def wbind_apply wret_apply fit_result_def words
        simp del: of_nat_add split: option.splits outcome.splits)
  show ?thesis
  proof (cases "n + 12 < left")
    case True
    then have "alloc_grow (word_of_nat (n + 12)) (word_of_nat left) m = Some (Ret (True, m))"
      using n(2) left_bound by (simp add: alloc_grow_def nat64_le wret_apply del: of_nat_add)
    moreover have "heap_alloc (growth m) n h = Ret (65 + h_position h + 12, heap_push n h)"
      using None True by (simp add: heap_alloc_def left_def Let_def)
    ultimately show ?thesis
      using bump_agrees [OF repr n, of h m] True run by (simp add: left_def wbind_Ret)
  next
    case False
    have left: "left \<le> 4294967296" "left + k = n + 12" "k \<le> 4294967308"
      using ok False n(2) by (auto simp: left_def k_def)
    note grow = alloc_grow_run [OF repr left(3,1), unfolded left(2)]
    have spec: "heap_alloc (growth m) n h =
        (if 65536 < h_pages h + pages_needed k then Ret (0, h)
         else (case growth m (h_pages h) (pages_needed k) of
                 Grown \<Rightarrow> Ret (65 + h_position h + 12, heap_push n (heap_grow (pages_needed k) h))
               | Refused \<Rightarrow> Ret (0, h)
               | Grow_trap \<Rightarrow> Trap))"
      using False
      by (simp only: heap_alloc_def None option.case Let_def left_def [symmetric] k_def [symmetric]
          if_False)
    have refused: "alloc_agrees h m (wret 0 m) (Ret (0, h))"
      using repr by (auto simp: alloc_agrees_def wret_apply)
    have granted: "alloc_agrees h m
        (wbind (alloc_bump (word_of_nat n) (word_of_nat (65 + h_position h))) ?handle
          (grown (pages_needed k) m (h_length h)))
        (Ret (65 + h_position h + 12, heap_push n (heap_grow (pages_needed k) h)))"
      if "h_pages h + pages_needed k \<le> 65536"
    proof (rule bump_agrees [OF heap_repr_grown [OF repr that] n])
      show "h_position (heap_grow (pages_needed k) h) + n + 76
          \<le> h_length (heap_grow (pages_needed k) h)"
        using pages_needed_covers [of k] ok by (simp add: heap_grow_def k_def left_def)
      show "bytes (grown (pages_needed k) m (h_length h)) i = bytes m i"
        if "in_active 65 (h_blocks h) i" for i
        using in_active_range [OF that] ok heap_reprD(3) [OF repr] by (intro grown_keeps) auto
    qed (simp_all add: heap_grow_def grown_def)
    show ?thesis
      using run grow refused granted
      by (auto simp: spec wbind_apply alloc_agrees_def split: grow_verdict.splits)
  qed
qed

end
