(* ===== verification/Kernel_Ops.thy ===== *)
theory Kernel_Ops
  imports Kernel_Alloc
begin

text \<open>
  The rest of the exports of the kernel over its abstract heap: initialisation of a fresh
  memory, \<^verbatim>\<open>reset\<close>, the input, output and error registers, and the loads and stores.
\<close>

section \<open>Writing a register of the root\<close>

text \<open>The registers behind the length: their addresses, and the abstract update of each.\<close>

fun set_register :: "nat \<Rightarrow> u64 \<Rightarrow> heap \<Rightarrow> heap" where
  "set_register a v h =
     (if a = 25 then h\<lparr>h_error := v\<rparr>
      else if a = 33 then h\<lparr>h_input_offset := v\<rparr>
      else if a = 41 then h\<lparr>h_input_length := v\<rparr>
      else if a = 49 then h\<lparr>h_output_offset := v\<rparr>
      else h\<lparr>h_output_length := v\<rparr>)"

lemma heap_repr_register:
  assumes repr: "heap_repr m h" and a: "a \<in> {25, 33, 41, 49, 57}"
  shows "heap_repr (m\<lparr>bytes := wr64 (bytes m) a v\<rparr>) (set_register a v h)"
proof -
  have "chain (wr64 (bytes m) a v) 65 (h_blocks h) = chain (bytes m) 65 (h_blocks h)"
    using a by (intro chain_cong wr64_outside) (auto dest: in_headers_range)
  with heap_reprD [OF repr] a show ?thesis
    by (auto simp: heap_repr_def mem_simps heap_ok_def)
qed

lemma set_root:
  assumes "heap_repr m h"
  shows "set_error v m = Some (Ret ((), m\<lparr>bytes := wr64 (bytes m) 25 v\<rparr>))"
    "set_input_offset v m = Some (Ret ((), m\<lparr>bytes := wr64 (bytes m) 33 v\<rparr>))"
    "set_input_length v m = Some (Ret ((), m\<lparr>bytes := wr64 (bytes m) 41 v\<rparr>))"
    "set_output_offset v m = Some (Ret ((), m\<lparr>bytes := wr64 (bytes m) 49 v\<rparr>))"
    "set_output_length v m = Some (Ret ((), m\<lparr>bytes := wr64 (bytes m) 57 v\<rparr>))"
  using heap_okD [OF heap_reprD(1) [OF assms]] heap_reprD(3) [OF assms]
  by (simp_all add: root_access_defs layout wasm_simps)

lemma register_keeps_active:
  "in_active 65 bs i \<Longrightarrow> a + 8 \<le> 65 \<Longrightarrow> wr64 f a v i = f i"
  by (auto intro!: wr64_outside dest: in_active_range)

section \<open>What a run has to do to implement an abstract result\<close>

definition run_agrees ::
    "heap \<Rightarrow> wasm_mem \<Rightarrow> ('a \<times> wasm_mem) outcome option \<Rightarrow> 'a \<Rightarrow> heap \<Rightarrow> bool" where
  "run_agrees h m run x h' \<longleftrightarrow>
     (\<exists>m'. run = Some (Ret (x, m')) \<and> heap_repr m' h' \<and> growth m' = growth m \<and>
        (\<forall>i. in_active 65 (h_blocks h) i \<longrightarrow> bytes m' i = bytes m i))"

lemma run_agreesI:
  assumes "run = Some (Ret (x, m'))" "heap_repr m' h'" "growth m' = growth m"
    "\<And>i. in_active 65 (h_blocks h) i \<Longrightarrow> bytes m' i = bytes m i"
  shows "run_agrees h m run x h'"
  using assms by (auto simp: run_agrees_def)

lemma run_agrees_same:
  "heap_repr m h \<Longrightarrow> run = Some (Ret (x, m)) \<Longrightarrow> run_agrees h m run x h"
  by (auto simp: run_agrees_def)

section \<open>Registers\<close>

definition in_bounds :: "heap \<Rightarrow> u64 \<Rightarrow> bool" where
  "in_bounds h p \<longleftrightarrow> 65 \<le> unat p \<and> unat p < 65 + h_length h"

definition heap_input_set :: "u64 \<Rightarrow> u64 \<Rightarrow> heap \<Rightarrow> heap" where
  "heap_input_set p len h =
     (if in_bounds h p \<and> in_bounds h (p + len - 1)
      then h\<lparr>h_input_offset := p, h_input_length := len\<rparr> else h)"

definition heap_output_set :: "u64 \<Rightarrow> u64 \<Rightarrow> heap \<Rightarrow> heap" where
  "heap_output_set p len h =
     (if in_bounds h p \<and> in_bounds h (p + len - 1)
      then h\<lparr>h_output_offset := p, h_output_length := len\<rparr> else h)"

definition heap_error_set :: "u64 \<Rightarrow> heap \<Rightarrow> heap" where
  "heap_error_set p h = (if p = 0 \<or> in_bounds h p then h\<lparr>h_error := p\<rparr> else h)"

lemma k_getters:
  assumes "heap_repr m h"
  shows "k_error_get m = Some (Ret (h_error h, m))"
    "k_input_offset m = Some (Ret (h_input_offset h, m))"
    "k_input_length m = Some (Ret (h_input_length h, m))"
    "k_output_offset m = Some (Ret (h_output_offset h, m))"
    "k_output_length m = Some (Ret (h_output_length h, m))"
    "k_memory_bytes m = Some (Ret (word_of_nat (h_length h), m))"
  using root_get [OF assms] root_new_ok [OF assms]
  by (simp_all add: k_error_get_def k_input_offset_def k_input_length_def k_output_offset_def
      k_output_length_def k_memory_bytes_def wasm_simps)

lemma k_error_set_ok:
  assumes repr: "heap_repr m h"
  shows "run_agrees h m (k_error_set p m) () (heap_error_set p h)"
proof (cases "p = 0 \<or> in_bounds h p")
  case True
  show ?thesis
  proof (rule run_agreesI)
    show "k_error_set p m = Some (Ret ((), m\<lparr>bytes := wr64 (bytes m) 25 p\<rparr>))"
      using True root_new_ok [OF repr] pointer_in_bounds_nat [OF repr, of p] set_root(1) [OF repr]
      by (auto simp: k_error_set_def wasm_simps in_bounds_def)
    show "heap_repr (m\<lparr>bytes := wr64 (bytes m) 25 p\<rparr>) (heap_error_set p h)"
      using True heap_repr_register [OF repr, of 25 p] by (simp add: heap_error_set_def)
  qed (auto simp: register_keeps_active)
next
  case False
  with repr show ?thesis
    using root_new_ok [OF repr] pointer_in_bounds_nat [OF repr, of p]
    by (auto intro!: run_agrees_same simp: k_error_set_def wasm_simps in_bounds_def heap_error_set_def)
qed

lemma k_input_set_ok:
  assumes repr: "heap_repr m h"
  shows "run_agrees h m (k_input_set p len m) () (heap_input_set p len h)"
proof (cases "in_bounds h p \<and> in_bounds h (p + len - 1)")
  case True
  note repr1 = heap_repr_register [OF repr, of 33 p, simplified]
  show ?thesis
  proof (rule run_agreesI)
    show "k_input_set p len m =
        Some (Ret ((), m\<lparr>bytes := wr64 (wr64 (bytes m) 33 p) 41 len\<rparr>))"
      using True root_new_ok [OF repr] pointer_in_bounds_nat [OF repr] set_root(2) [OF repr]
        set_root(3) [OF repr1]
      by (auto simp: k_input_set_def wasm_simps in_bounds_def)
    show "heap_repr (m\<lparr>bytes := wr64 (wr64 (bytes m) 33 p) 41 len\<rparr>) (heap_input_set p len h)"
      using True heap_repr_register [OF repr1, of 41 len] by (simp add: heap_input_set_def)
  qed (auto simp: register_keeps_active)
next
  case False
  with repr show ?thesis
    using root_new_ok [OF repr] pointer_in_bounds_nat [OF repr]
    by (auto intro!: run_agrees_same simp: k_input_set_def wasm_simps in_bounds_def heap_input_set_def)
qed

lemma k_output_set_ok:
  assumes repr: "heap_repr m h"
  shows "run_agrees h m (k_output_set p len m) () (heap_output_set p len h)"
proof (cases "in_bounds h p \<and> in_bounds h (p + len - 1)")
  case True
  note repr1 = heap_repr_register [OF repr, of 49 p, simplified]
  show ?thesis
  proof (rule run_agreesI)
    show "k_output_set p len m =
        Some (Ret ((), m\<lparr>bytes := wr64 (wr64 (bytes m) 49 p) 57 len\<rparr>))"
      using True root_new_ok [OF repr] pointer_in_bounds_nat [OF repr] set_root(4) [OF repr]
        set_root(5) [OF repr1]
      by (auto simp: k_output_set_def wasm_simps in_bounds_def)
    show "heap_repr (m\<lparr>bytes := wr64 (wr64 (bytes m) 49 p) 57 len\<rparr>) (heap_output_set p len h)"
      using True heap_repr_register [OF repr1, of 57 len] by (simp add: heap_output_set_def)
  qed (auto simp: register_keeps_active)
next
  case False
  with repr show ?thesis
    using root_new_ok [OF repr] pointer_in_bounds_nat [OF repr]
    by (auto intro!: run_agrees_same simp: k_output_set_def wasm_simps in_bounds_def heap_output_set_def)
qed

section \<open>Reset\<close>

lemma k_reset_ok:
  assumes repr: "heap_repr m h"
  shows "\<exists>m'. k_reset m = Some (Ret ((), m')) \<and> heap_repr m' (heap_reset h) \<and>
    growth m' = growth m"
proof -
  note ok = heap_okD [OF heap_reprD(1) [OF repr]] and R = heap_reprD [OF repr]
  define f where "f = wr64 (wr64 (wr64 (wr64 (wr64 (fill_bytes (wr64 (bytes m) 9 0) 65
    (h_position h) 0) 25 0) 33 0) 41 0) 49 0) 57 0"
  have "unat (ucast (word_of_nat (h_position h) :: u64) :: u32) = h_position h"
    using ok by (simp add: word_nat)
  then have run: "k_reset m = Some (Ret ((), m\<lparr>bytes := f\<rparr>))"
    using ok R(3) root_get(1) [OF repr] root_new_ok [OF repr]
    by (simp add: k_reset_def root_reset_def root_access_defs layout wasm_simps f_def)
  have "f i = 0" if "65 \<le> i" "i < mem_size m" for i
    using that R(13) [of i] by (cases "i < 65 + h_position h") (auto simp: f_def mem_simps)
  then have "heap_repr (m\<lparr>bytes := f\<rparr>) (heap_reset h)"
    using R by (auto simp: heap_repr_def heap_reset_def heap_ok_def f_def mem_simps)
  with run show ?thesis by auto
qed

section \<open>A fresh memory\<close>

definition fresh :: "wasm_mem \<Rightarrow> bool" where
  "fresh m \<longleftrightarrow> 1 \<le> pages m \<and> pages m \<le> 65536 \<and> (\<forall>i < mem_size m. bytes m i = 0)"

lemma root_new_fresh:
  assumes "fresh m"
  shows "\<exists>m'. root_new m = Some (Ret ((), m')) \<and> heap_repr m' (heap_init (pages m)) \<and>
    growth m' = growth m"
proof -
  have zero: "bytes m i = 0" if "i < mem_size m" for i
    using assms that by (simp add: fresh_def)
  have big: "65536 \<le> mem_size m" "1 \<le> pages m" "pages m \<le> 65536"
    using assms by (auto simp: fresh_def mem_size_def)
  define g where "g = wr64 (wr64 (wr64 (wr64 (wr64 (wr64 (wr64 ((bytes m)(1 := 1)) 33 0)
    41 0) 49 0) 57 0) 25 0) 17 65472) 9 0"
  define f where "f = fill_bytes g 65 144 0"
  have pg: "(word_of_nat (pages m) :: u32) \<noteq> 0"
    using big nat32_eq [of "pages m" 0] by simp
  have len: "ucast PAGE_SIZE - word_of_nat 64 = (65472 :: u64)"
    by (simp add: PAGE_SIZE_def)
  have run: "root_new m = Some (Ret ((), m\<lparr>bytes := f\<rparr>))"
    using big zero [of 1] pg len
    by (simp add: root_new_def root_access_defs layout wasm_simps f_def g_def)
  have "f i = 0" if "65 \<le> i" "i < mem_size m" for i
    using that zero [of i] by (cases "i < 65 + 144") (auto simp: f_def g_def mem_simps)
  moreover have "f 1 = 1" by (simp add: f_def g_def mem_simps)
  ultimately have "heap_repr (m\<lparr>bytes := f\<rparr>) (heap_init (pages m))"
    using big by (simp add: heap_repr_def heap_init_def heap_ok_def f_def g_def mem_simps)
  with run show ?thesis by auto
qed

text \<open>
  Every export but \<^verbatim>\<open>length_unsafe\<close>, the loads and the stores starts with \<^verbatim>\<open>MemoryRoot::new\<close>, so on
  a fresh memory it does what it does on the memory that call leaves.
\<close>

definition initialised :: "wasm_mem \<Rightarrow> wasm_mem" where
  "initialised m = (case root_new m of Some (Ret (u, m')) \<Rightarrow> m' | _ \<Rightarrow> m)"

lemma initialised_fresh:
  assumes "fresh m"
  shows "root_new m = Some (Ret ((), initialised m))"
    "heap_repr (initialised m) (heap_init (pages m))" "growth (initialised m) = growth m"
  using root_new_fresh [OF assms] by (auto simp: initialised_def)

lemma fresh_growth [simp]: "fresh (m\<lparr>growth := g\<rparr>) = fresh m"
  by (simp add: fresh_def mem_size_def)

text \<open>The initialisation does not ask for memory, so it does not depend on the verdict on growth.\<close>

lemma root_new_fresh_bytes:
  assumes "fresh m"
  shows "root_new m = Some (Ret ((), m\<lparr>bytes := fill_bytes (wr64 (wr64 (wr64 (wr64 (wr64 (wr64 (wr64
    ((bytes m)(1 := 1)) 33 0) 41 0) 49 0) 57 0) 25 0) 17 (ucast PAGE_SIZE - word_of_nat 64)) 9 0) 65 144 0\<rparr>))"
proof -
  have big: "65536 \<le> mem_size m" "1 \<le> pages m" "pages m \<le> 65536" "bytes m 1 = 0"
    using assms by (auto simp: fresh_def mem_size_def)
  have "(word_of_nat (pages m) :: u32) \<noteq> 0"
    using big nat32_eq [of "pages m" 0] by simp
  then show ?thesis using big by (simp add: root_new_def root_access_defs layout wasm_simps)
qed

lemma initialised_growth:
  assumes "fresh m"
  shows "initialised (m\<lparr>growth := g\<rparr>) = (initialised m)\<lparr>growth := g\<rparr>" "pages (initialised m) = pages m"
  using root_new_fresh_bytes [OF assms] root_new_fresh_bytes [of "m\<lparr>growth := g\<rparr>"] assms
  by (simp_all add: initialised_def)

lemma fresh_then:
  assumes "fresh m"
  shows "wthen root_new f m = wthen root_new f (initialised m)"
  using initialised_fresh [OF assms] root_new_ok [of "initialised m" "heap_init (pages m)"]
  by (simp add: wasm_simps)

lemma fresh_exports:
  assumes "fresh m"
  shows "0 < n \<Longrightarrow> n < 4294967296 \<Longrightarrow> k_alloc (word_of_nat n) m = k_alloc (word_of_nat n) (initialised m)"
    "p \<noteq> 0 \<Longrightarrow> k_free p m = k_free p (initialised m)"
    "p \<noteq> 0 \<Longrightarrow> k_length p m = k_length p (initialised m)"
    "k_input_set p q m = k_input_set p q (initialised m)"
    "k_output_set p q m = k_output_set p q (initialised m)"
    "k_error_set p m = k_error_set p (initialised m)"
    "k_reset m = k_reset (initialised m)"
    "k_input_length m = k_input_length (initialised m)"
    "k_input_offset m = k_input_offset (initialised m)"
    "k_output_length m = k_output_length (initialised m)"
    "k_output_offset m = k_output_offset (initialised m)"
    "k_error_get m = k_error_get (initialised m)"
    "k_memory_bytes m = k_memory_bytes (initialised m)"
  using nat64_eq [of n 0]
  by (simp_all add: fresh_then [OF assms] k_alloc_def k_free_def k_length_def k_input_set_def k_output_set_def
      k_error_set_def k_reset_def k_input_length_def k_input_offset_def k_output_length_def
      k_output_offset_def k_error_get_def k_memory_bytes_def)

section \<open>Loads and stores\<close>

lemma deref_nat: "p < 4294967296 \<Longrightarrow> deref (word_of_nat p) = p"
  by (simp add: deref_def word_nat)

lemma k_load_u8_ok:
  assumes "pages m \<le> 65536" "64 \<le> p" "p < mem_size m"
  shows "k_load_u8 (word_of_nat p) m = Some (Ret (bytes m p, m))"
proof -
  have "p < 4294967296" using assms by (simp add: mem_size_def)
  then show ?thesis
    using assms pointer_in_bounds_fast_nat [OF assms(1)]
    by (simp add: k_load_u8_def wasm_simps deref_nat word_nat)
qed

lemma k_load_u64_ok:
  assumes "pages m \<le> 65536" "64 \<le> p" "p + 8 \<le> mem_size m"
  shows "k_load_u64 (word_of_nat p) m = Some (Ret (rd64 (bytes m) p, m))"
proof -
  have p: "p < 4294967296" using assms by (simp add: mem_size_def)
  have "(word_of_nat p :: u64) + 8 - 1 = word_of_nat (p + 7)" by simp
  then show ?thesis
    using assms p pointer_in_bounds_fast_nat [OF assms(1)]
    by (simp add: k_load_u64_def wasm_simps deref_nat unat_nat64 del: of_nat_add)
qed

lemma k_store_u8_ok:
  assumes "pages m \<le> 65536" "64 \<le> p" "p < mem_size m"
  shows "k_store_u8 (word_of_nat p) v m = Some (Ret ((), m\<lparr>bytes := (bytes m)(p := v)\<rparr>))"
proof -
  have "p < 4294967296" using assms by (simp add: mem_size_def)
  then show ?thesis
    using assms pointer_in_bounds_fast_nat [OF assms(1)]
    by (simp add: k_store_u8_def wasm_simps deref_nat word_nat)
qed

lemma k_store_u64_ok:
  assumes "pages m \<le> 65536" "64 \<le> p" "p + 8 \<le> mem_size m"
  shows "k_store_u64 (word_of_nat p) v m = Some (Ret ((), m\<lparr>bytes := wr64 (bytes m) p v\<rparr>))"
proof -
  have p: "p < 4294967296" using assms by (simp add: mem_size_def)
  have "(word_of_nat p :: u64) + 8 - 1 = word_of_nat (p + 7)" by simp
  then show ?thesis
    using assms p pointer_in_bounds_fast_nat [OF assms(1)]
    by (simp add: k_store_u64_def wasm_simps deref_nat unat_nat64 del: of_nat_add)
qed

text \<open>Writes to the data of active blocks leave the heap as it is.\<close>

lemma heap_repr_data:
  assumes repr: "heap_repr m h"
    and same: "\<And>i. \<not> in_active 65 (h_blocks h) i \<Longrightarrow> f i = bytes m i"
  shows "heap_repr (m\<lparr>bytes := f\<rparr>) h"
proof -
  have inside: "65 \<le> i \<and> i < 65 + h_position h" if "in_active 65 (h_blocks h) i" for i
    using in_active_range [OF that] .
  have "chain f 65 (h_blocks h) = chain (bytes m) 65 (h_blocks h)"
    by (intro chain_cong same) (auto dest: in_active_not_header)
  moreover have "rd64 f a = rd64 (bytes m) a" if "a + 8 \<le> 65" for a
    using that inside by (intro rd64_cong same) fastforce
  moreover have "f i = bytes m i" if "i < 65 \<or> 65 + h_position h \<le> i" for i
    using that inside by (intro same) fastforce
  ultimately show ?thesis
    using heap_reprD [OF repr] by (simp add: heap_repr_def)
qed

lemma block_range_active:
  assumes "heap_find h p = Some (xs, x, ys)" "p \<le> i" "i < p + bsize x"
  shows "in_active 65 (h_blocks h) i"
  using heap_find_SomeD [OF assms(1)] assms(2,3) by (simp add: in_active_append)

text \<open>\<^verbatim>\<open>length_unsafe\<close> agrees with \<^verbatim>\<open>length\<close> on every handle of an active block.\<close>

lemma k_length_unsafe_ok:
  assumes repr: "heap_repr m h" and find: "heap_find h p = Some (xs, x, ys)"
  shows "k_length_unsafe (word_of_nat p) m = Some (Ret (word_of_nat (bused x), m))"
proof -
  note found = heap_find_SomeD [OF find] and hc = heap_find_chain [OF repr find]
    and access = chain_access [OF heap_find_chain [OF repr find]]
  have p: "p < 4294967296" "p \<le> mem_size m" "64 \<le> p"
    using found(3) hc(2,3) by simp_all
  have pages: "pages m \<le> 65536"
    using heap_reprD(1,2) [OF repr] by (simp add: heap_ok_def)
  have nz: "(word_of_nat p :: u64) \<noteq> 0"
    using p nat64_eq [of p 0] by simp
  have ptr: "ucast ((word_of_nat p :: u64) - word_of_nat size_of_block) = (word_of_nat (65 + span xs) :: u32)"
    by (simp only: found(3) layout nat_word_diff diff_add_inverse2 le_add2 ucast_nat_64_32)
  have used: "bused x < 4294967296"
    using found(1,4) heap_reprD(1) [OF repr] heap_okD [OF heap_reprD(1) [OF repr]]
    by (auto simp: heap_ok_def blk_ok_def)
  show ?thesis
    using nz p used found(2) pointer_in_bounds_fast_nat [OF pages]
    by (simp add: k_length_unsafe_def wasm_simps ptr access Let_def unat_nat64 ucast_nat_32_64
        del: of_nat_add)
qed

end
