(* ===== verification/Allocator.thy ===== *)
theory Allocator
  imports Prelude
begin

text \<open>
  The contract of an allocator, as the rest of the runtime relies on it: the live blocks are
  pairwise disjoint, an allocation adds one block with a handle of its own, a free removes
  the block of its handle and nothing else.  Both allocators of the repository, the kernel
  and \<^verbatim>\<open>PluginMemory\<close>, are interpretations.  A session is a sequence of calls of a client;
  its lemmas are proved once, here.
\<close>

section \<open>Sessions\<close>

datatype call = Take nat | Release nat

fun session ::
    "(nat \<Rightarrow> 's \<Rightarrow> (nat \<times> 's) option) \<Rightarrow> (nat \<Rightarrow> 's \<Rightarrow> 's) \<Rightarrow> call list \<Rightarrow> 's \<Rightarrow> (nat list \<times> 's) option"
where
  "session alloc free [] s = Some ([], s)"
| "session alloc free (Take n # cs) s =
     (case alloc n s of
        None \<Rightarrow> None
      | Some (p, s') \<Rightarrow> map_option (\<lambda>(ps, t). (p # ps, t)) (session alloc free cs s'))"
| "session alloc free (Release p # cs) s = session alloc free cs (free p s)"

definition apart :: "nat \<times> nat \<Rightarrow> nat \<times> nat \<Rightarrow> bool" where
  "apart b c \<longleftrightarrow> fst b + snd b \<le> fst c \<or> fst c + snd c \<le> fst b"

lemma apart_sym: "apart b c \<Longrightarrow> apart c b"
  by (auto simp: apart_def)

text \<open>Calls a client may make: positive sizes, and only releases the provider accepts.\<close>

fun admissible ::
    "(nat \<Rightarrow> 's \<Rightarrow> (nat \<times> 's) option) \<Rightarrow> (nat \<Rightarrow> 's \<Rightarrow> 's) \<Rightarrow> ('s \<Rightarrow> nat \<Rightarrow> bool) \<Rightarrow> call list \<Rightarrow> 's \<Rightarrow> bool"
where
  "admissible alloc free free_ok [] s = True"
| "admissible alloc free free_ok (Take n # cs) s =
     (0 < n \<and> (case alloc n s of None \<Rightarrow> True | Some (p, s') \<Rightarrow> admissible alloc free free_ok cs s'))"
| "admissible alloc free free_ok (Release p # cs) s =
     (free_ok s p \<and> admissible alloc free free_ok cs (free p s))"

definition releases :: "call list \<Rightarrow> nat set" where
  "releases cs = {p. Release p \<in> set cs}"

lemma releases_simps [simp]:
  "releases [] = {}" "releases (Take n # cs) = releases cs"
  "releases (Release p # cs) = insert p (releases cs)"
  by (auto simp: releases_def)

section \<open>The contract and what it gives a client\<close>

locale allocator =
  fixes invar :: "'s \<Rightarrow> bool"
    and live :: "'s \<Rightarrow> (nat \<times> nat) set"
    and alloc :: "nat \<Rightarrow> 's \<Rightarrow> (nat \<times> 's) option"
    and free :: "nat \<Rightarrow> 's \<Rightarrow> 's"
    and free_ok :: "'s \<Rightarrow> nat \<Rightarrow> bool"
  assumes live_apart:
      "invar s \<Longrightarrow> b \<in> live s \<Longrightarrow> c \<in> live s \<Longrightarrow> b \<noteq> c \<Longrightarrow> fst b \<noteq> fst c \<and> apart b c"
    and alloc_invar: "invar s \<Longrightarrow> 0 < n \<Longrightarrow> alloc n s = Some (p, s') \<Longrightarrow> invar s'"
    and alloc_fresh: "invar s \<Longrightarrow> 0 < n \<Longrightarrow> alloc n s = Some (p, s') \<Longrightarrow> p \<notin> fst ` live s"
    and alloc_live:
      "invar s \<Longrightarrow> 0 < n \<Longrightarrow> alloc n s = Some (p, s') \<Longrightarrow> live s' = insert (p, n) (live s)"
    and free_invar: "invar s \<Longrightarrow> free_ok s p \<Longrightarrow> invar (free p s)"
    and free_live: "invar s \<Longrightarrow> free_ok s p \<Longrightarrow> live (free p s) = {b \<in> live s. fst b \<noteq> p}"
begin

lemma alloc_apart:
  assumes "invar s" "0 < n" "alloc n s = Some (p, s')" "b \<in> live s"
  shows "apart (p, n) b"
proof -
  have "(p, n) \<noteq> b" using alloc_fresh [OF assms(1-3)] assms(4) by force
  moreover have "(p, n) \<in> live s'" "b \<in> live s'"
    using alloc_live [OF assms(1-3)] assms(4) by auto
  ultimately show ?thesis
    using live_apart [OF alloc_invar [OF assms(1-3)]] by blast
qed

lemma free_alloc_live:
  assumes "invar s" "0 < n" "alloc n s = Some (p, s')" "free_ok s' p"
  shows "live (free p s') = live s"
  using alloc_fresh [OF assms(1-3)] alloc_live [OF assms(1-3)]
    free_live [OF alloc_invar [OF assms(1-3)] assms(4)]
  by force

lemma session_invar:
  assumes "session alloc free cs s = Some (ps, t)" "invar s" "admissible alloc free free_ok cs s"
  shows "invar t"
  using assms
proof (induction cs arbitrary: s ps)
  case Nil
  then show ?case by simp
next
  case (Cons c cs)
  show ?case
  proof (cases c)
    case (Take n)
    with Cons.prems obtain p s' ps' where step: "alloc n s = Some (p, s')"
      and rest: "session alloc free cs s' = Some (ps', t)" "admissible alloc free free_ok cs s'"
      and n: "0 < n"
      by (auto split: option.splits prod.splits)
    show ?thesis
      using Cons.IH [OF rest(1) alloc_invar [OF Cons.prems(2) n step] rest(2)] .
  next
    case (Release p)
    with Cons.prems Cons.IH [of "free p s" ps] free_invar show ?thesis by auto
  qed
qed

text \<open>Unless its handle is released, a live block stays live.\<close>

lemma session_keeps:
  assumes "session alloc free cs s = Some (ps, t)" "invar s" "admissible alloc free free_ok cs s"
    and "b \<in> live s" "fst b \<notin> releases cs"
  shows "b \<in> live t"
  using assms
proof (induction cs arbitrary: s ps)
  case Nil
  then show ?case by simp
next
  case (Cons c cs)
  show ?case
  proof (cases c)
    case (Take n)
    with Cons.prems obtain p s' ps' where step: "alloc n s = Some (p, s')"
      and rest: "session alloc free cs s' = Some (ps', t)" "admissible alloc free free_ok cs s'"
      and n: "0 < n"
      by (auto split: option.splits prod.splits)
    have "b \<in> live s'" using alloc_live [OF Cons.prems(2) n step] Cons.prems(4) by simp
    then show ?thesis
      using Cons.IH [OF rest(1) alloc_invar [OF Cons.prems(2) n step] rest(2)] Cons.prems(5) Take
      by simp
  next
    case (Release p)
    with Cons.prems Cons.IH [of "free p s" ps] free_invar free_live show ?thesis by auto
  qed
qed

text \<open>
  The handles a session without releases returns are distinct, and none of them was live
  before.
\<close>

lemma session_handles:
  assumes "session alloc free cs s = Some (ps, t)" "invar s" "admissible alloc free free_ok cs s"
    and "releases cs = {}"
  shows "distinct ps \<and> set ps \<inter> fst ` live s = {} \<and> set ps \<subseteq> fst ` live t"
  using assms
proof (induction cs arbitrary: s ps)
  case Nil
  then show ?case by simp
next
  case (Cons c cs)
  from Cons.prems(4) obtain n where c: "c = Take n" by (cases c) auto
  with Cons.prems obtain p s' ps' where step: "alloc n s = Some (p, s')"
    and rest: "session alloc free cs s' = Some (ps', t)" "admissible alloc free free_ok cs s'"
    and n: "0 < n" and ps: "ps = p # ps'" and none: "releases cs = {}"
    by (auto split: option.splits prod.splits)
  note invar' = alloc_invar [OF Cons.prems(2) n step]
  have live': "live s' = insert (p, n) (live s)"
    using alloc_live [OF Cons.prems(2) n step] .
  have "(p, n) \<in> live t"
    using session_keeps [OF rest(1) invar' rest(2), of "(p, n)"] live' none by simp
  then have "p \<in> fst ` live t" by force
  moreover have "distinct ps' \<and> set ps' \<inter> fst ` live s' = {} \<and> set ps' \<subseteq> fst ` live t"
    using Cons.IH [OF rest(1) invar' rest(2) none] .
  ultimately show ?case
    using ps live' alloc_fresh [OF Cons.prems(2) n step] by auto
qed

end

end
