(* ===== verification/Kernel_Laws.thy ===== *)
theory Kernel_Laws
  imports Kernel_Ops Allocator
begin

text \<open>
  The abstract heap of the kernel meets the allocator contract; what a client of the kernel
  may rely on follows from the lemmas of the contract.
\<close>

section \<open>Live blocks\<close>

fun live_from :: "nat \<Rightarrow> blk list \<Rightarrow> (nat \<times> nat) set" where
  "live_from a [] = {}"
| "live_from a (b # bs) =
     (if bstat b = Active then {(a + 12, bused b)} else {}) \<union> live_from (a + 12 + bsize b) bs"

definition heap_live :: "heap \<Rightarrow> (nat \<times> nat) set" where
  "heap_live h = live_from 65 (h_blocks h)"

lemma live_from_append: "live_from a (xs @ ys) = live_from a xs \<union> live_from (a + span xs) ys"
  by (induction xs arbitrary: a) (auto simp: add.assoc)

lemma live_from_range:
  "(p, n) \<in> live_from a bs \<Longrightarrow> list_all blk_ok bs \<Longrightarrow> a + 12 \<le> p \<and> p + n \<le> a + span bs"
proof (induction bs arbitrary: a)
  case Nil
  then show ?case by simp
next
  case (Cons b bs)
  show ?case
  proof (cases "(p, n) \<in> live_from (a + 12 + bsize b) bs")
    case True
    then have "a + 12 + bsize b + 12 \<le> p \<and> p + n \<le> a + 12 + bsize b + span bs"
      using Cons.prems(2) by (intro Cons.IH) simp_all
    then show ?thesis by simp
  next
    case False
    with Cons.prems show ?thesis by (simp add: blk_ok_def split: if_splits)
  qed
qed

lemma live_from_apart:
  assumes "list_all blk_ok bs" "b \<in> live_from a bs" "c \<in> live_from a bs" "b \<noteq> c"
  shows "fst b \<noteq> fst c \<and> apart b c"
  using assms
proof (induction bs arbitrary: a b c)
  case Nil
  then show ?case by simp
next
  case (Cons x bs)
  let ?rest = "live_from (a + 12 + bsize x) bs"
  have head: "fst d = a + 12 \<and> snd d \<le> bsize x" if "d \<in> live_from a (x # bs)" "d \<notin> ?rest" for d
    using that Cons.prems(1) by (auto simp: blk_ok_def split: if_splits)
  have tail: "a + 12 + bsize x + 12 \<le> fst d" if "d \<in> ?rest" for d
    using live_from_range [of "fst d" "snd d" "a + 12 + bsize x" bs] that Cons.prems(1) by simp
  have "b \<in> ?rest \<or> c \<in> ?rest"
    using Cons.prems(2-4) by (auto split: if_splits)
  then show ?case
    using Cons.IH [of b "a + 12 + bsize x" c] Cons.prems head [of b] head [of c] tail [of b] tail [of c]
    by (cases "b \<in> ?rest"; cases "c \<in> ?rest") (auto simp: apart_def)
qed

lemma block_at_live:
  "block_at a bs p = Some (xs, x, ys) \<Longrightarrow> (p, bused x) \<in> live_from a bs"
  using block_at_SomeD [of a bs p xs x ys] by (auto simp: live_from_append)

lemma block_at_None_live:
  "block_at a bs p = None \<Longrightarrow> (p, n) \<notin> live_from a bs"
  by (induction a bs p rule: block_at.induct) (auto split: if_splits)

lemma heap_find_live:
  assumes "heap_ok h"
  shows "(p, n) \<in> heap_live h \<longleftrightarrow> (\<exists>xs x ys. heap_find h p = Some (xs, x, ys) \<and> bused x = n)"
proof (cases "heap_find h p")
  case None
  then show ?thesis
    using block_at_None_live [of 65 "h_blocks h" p] by (simp add: heap_find_def heap_live_def)
next
  case (Some t)
  then obtain xs x ys where find: "heap_find h p = Some (xs, x, ys)" by (cases t) auto
  then have live: "(p, bused x) \<in> heap_live h"
    using block_at_live by (simp add: heap_find_def heap_live_def)
  have "bused x = n" if "(p, n) \<in> heap_live h"
    using live_from_apart [of "h_blocks h" "(p, bused x)" 65 "(p, n)"] that live assms
    by (auto simp: heap_ok_def heap_live_def)
  with live find show ?thesis by auto
qed

section \<open>The operations keep the contract\<close>

text \<open>\<^verbatim>\<open>alloc\<close> as its callers see it: a zero handle, or a trap, is no block.\<close>

definition heap_take :: "(nat \<Rightarrow> nat \<Rightarrow> grow_verdict) \<Rightarrow> nat \<Rightarrow> heap \<Rightarrow> (nat \<times> heap) option" where
  "heap_take g n h =
     (case heap_alloc g n h of
        Ret (p, h') \<Rightarrow> if p = 0 then None else Some (p, h')
      | Trap \<Rightarrow> None)"

text \<open>The three ways an allocation succeeds.\<close>

lemma heap_take_cases:
  assumes "heap_take g n h = Some (p, h')"
  obtains (reuse) xs x ys where "first_fit n (h_blocks h) = Some (xs, x, ys)"
      "p = 65 + span xs + carve_offset n x + 12" "h' = h\<lparr>h_blocks := xs @ carve n x @ ys\<rparr>"
  | (bump) "p = 65 + h_position h + 12" "h' = heap_push n h" "h_position h + n + 76 \<le> h_length h"
  | (grow) np where "p = 65 + h_position h + 12" "h' = heap_push n (heap_grow np h)"
      "h_pages h + np \<le> 65536" "n + 12 \<le> h_length h - h_position h - 64 + np * 65536"
proof (cases "first_fit n (h_blocks h)")
  case (Some t)
  with assms reuse show ?thesis
    by (cases t) (auto simp: heap_take_def heap_alloc_def)
next
  case None
  define k where "k = n + 12 - (h_length h - h_position h - 64)"
  have cover: "k \<le> pages_needed k * 65536" by (rule pages_needed_covers)
  show ?thesis
  proof (cases "n + 12 < h_length h - h_position h - 64")
    case True
    with assms None bump show ?thesis
      by (auto simp: heap_take_def heap_alloc_def Let_def)
  next
    case False
    then have "p = 65 + h_position h + 12 \<and> h' = heap_push n (heap_grow (pages_needed k) h) \<and>
        h_pages h + pages_needed k \<le> 65536"
      using assms
      by (simp only: heap_take_def heap_alloc_def None option.case Let_def k_def [symmetric] if_False)
        (auto split: if_splits grow_verdict.splits)
    with grow cover show ?thesis by (auto simp: k_def)
  qed
qed

lemma heap_take_ok:
  assumes ok: "heap_ok h" and n: "0 < n" and take: "heap_take g n h = Some (p, h')"
  shows "heap_ok h'"
  using take
proof (cases rule: heap_take_cases)
  case (reuse xs x ys)
  note fit = first_fit_SomeD [OF reuse(1)]
  have "list_all blk_ok (carve n x)"
    using ok n fit by (auto simp: carve_def heap_ok_def blk_ok_def)
  then show ?thesis
    using ok fit reuse(3) span_carve [of x n] by (auto simp: heap_ok_def)
qed (use ok n in \<open>auto simp: heap_ok_def heap_push_def heap_grow_def blk_ok_def\<close>)

lemma heap_take_live:
  assumes ok: "heap_ok h" and n: "0 < n" and take: "heap_take g n h = Some (p, h')"
  shows "heap_live h' = insert (p, n) (heap_live h) \<and> p \<notin> fst ` heap_live h"
  using take
proof (cases rule: heap_take_cases)
  case (reuse xs x ys)
  note fit = first_fit_SomeD [OF reuse(1)]
  have ok': "list_all blk_ok xs" "list_all blk_ok ys"
    using ok fit by (auto simp: heap_ok_def)
  have span: "span (carve n x) = 12 + bsize x" using fit span_carve [of x n] by simp
  have carve: "live_from a (carve n x) = {(a + carve_offset n x + 12, n)}" for a
    using fit by (auto simp: carve_def carve_offset_def)
  have "a + 12 \<le> p \<and> p < a + 12 + bsize x" if "a = 65 + span xs" for a
    using fit n reuse(2) ok that by (auto simp: carve_offset_def heap_ok_def blk_ok_def)
  then have "p \<notin> fst ` live_from 65 xs \<and> p \<notin> fst ` live_from (77 + span xs + bsize x) ys"
    using live_from_range [OF _ ok'(1)] live_from_range [OF _ ok'(2)] by fastforce
  then show ?thesis
    using reuse(2,3) fit span carve
    by (auto simp: heap_live_def live_from_append ac_simps)
next
  case bump
  have "p \<notin> fst ` heap_live h"
    using bump(1) ok live_from_range [of _ _ 65 "h_blocks h"] by (fastforce simp: heap_live_def heap_ok_def)
  then show ?thesis
    using bump by (auto simp: heap_live_def heap_push_def live_from_append)
next
  case (grow np)
  have "p \<notin> fst ` heap_live h"
    using grow(1) ok live_from_range [of _ _ 65 "h_blocks h"] by (fastforce simp: heap_live_def heap_ok_def)
  then show ?thesis
    using grow by (auto simp: heap_live_def heap_push_def heap_grow_def live_from_append)
qed

lemma heap_free_ok: "heap_ok h \<Longrightarrow> heap_ok (heap_free p h)"
  by (auto simp: heap_free_def heap_ok_def blk_ok_def dest!: heap_find_SomeD(1)
      split: option.splits)

lemma heap_free_live:
  assumes "heap_ok h"
  shows "heap_live (heap_free p h) = {b \<in> heap_live h. fst b \<noteq> p}"
proof (cases "heap_find h p")
  case None
  then show ?thesis
    using block_at_None_live [of 65 "h_blocks h" p]
    by (auto simp: heap_free_def heap_find_def heap_live_def)
next
  case (Some t)
  then obtain xs x ys where find: "heap_find h p = Some (xs, x, ys)" by (cases t) auto
  note found = heap_find_SomeD [OF find]
  have ok: "list_all blk_ok xs" "list_all blk_ok ys"
    using assms found(1) by (auto simp: heap_ok_def)
  have "fst b \<noteq> p" if "b \<in> live_from 65 xs \<union> live_from (77 + span xs + bsize x) ys" for b
    using that found(3) live_from_range [OF _ ok(1), of "fst b" "snd b" 65]
      live_from_range [OF _ ok(2), of "fst b" "snd b" "77 + span xs + bsize x"]
    by auto
  then show ?thesis
    using found find
    by (auto simp: heap_free_def heap_live_def live_from_append ac_simps)
qed

interpretation kernel: allocator heap_ok heap_live "heap_take g" heap_free "\<lambda>_ _. True" for g
proof unfold_locales
  show "fst b \<noteq> fst c \<and> apart b c"
    if "heap_ok h" "b \<in> heap_live h" "c \<in> heap_live h" "b \<noteq> c" for h b c
    using that live_from_apart [of "h_blocks h" b 65 c] by (simp add: heap_ok_def heap_live_def)
  show "heap_ok h'" if "heap_ok h" "0 < n" "heap_take g n h = Some (p, h')" for h n p h'
    using heap_take_ok [OF that] .
  show "p \<notin> fst ` heap_live h" if "heap_ok h" "0 < n" "heap_take g n h = Some (p, h')" for h n p h'
    using heap_take_live [OF that] ..
  show "heap_live h' = insert (p, n) (heap_live h)"
    if "heap_ok h" "0 < n" "heap_take g n h = Some (p, h')" for h n p h'
    using heap_take_live [OF that] ..
  show "heap_ok (heap_free p h)" if "heap_ok h" for h p
    using heap_free_ok [OF that] .
  show "heap_live (heap_free p h) = {b \<in> heap_live h. fst b \<noteq> p}" if "heap_ok h" for h p
    using heap_free_live [OF that] .
qed

end
