(* ===== verification/Kernel_Run.thy ===== *)
theory Kernel_Run
  imports Kernel_Laws
begin

text \<open>
  A guest talks to the kernel by calling its exports.  A call is a value, its execution over
  the bytes and over the abstract heap are functions, and the histories of an instance are an
  inductive relation: from a fresh memory, by calls that the kernel's own bounds allow.
\<close>

section \<open>Calls\<close>

datatype kcall =
    Alloc nat
  | Free_block nat
  | Length nat
  | Reset
  | Error_set u64
  | Input_set u64 u64
  | Output_set u64 u64
  | Store_u8 nat u8
  | Store_u64 nat u64

fun kernel_call :: "kcall \<Rightarrow> u64 wasm" where
  "kernel_call (Alloc n) = k_alloc (word_of_nat n)"
| "kernel_call (Free_block p) = wthen (k_free (word_of_nat p)) (wret 0)"
| "kernel_call (Length p) = k_length (word_of_nat p)"
| "kernel_call Reset = wthen k_reset (wret 0)"
| "kernel_call (Error_set p) = wthen (k_error_set p) (wret 0)"
| "kernel_call (Input_set p n) = wthen (k_input_set p n) (wret 0)"
| "kernel_call (Output_set p n) = wthen (k_output_set p n) (wret 0)"
| "kernel_call (Store_u8 p v) = wthen (k_store_u8 (word_of_nat p) v) (wret 0)"
| "kernel_call (Store_u64 p v) = wthen (k_store_u64 (word_of_nat p) v) (wret 0)"

fun heap_call :: "(nat \<Rightarrow> nat \<Rightarrow> grow_verdict) \<Rightarrow> kcall \<Rightarrow> heap \<Rightarrow> (nat \<times> heap) outcome" where
  "heap_call g (Alloc n) h = heap_alloc g n h"
| "heap_call g (Free_block p) h = Ret (0, heap_free p h)"
| "heap_call g (Length p) h =
     Ret (case heap_find h p of None \<Rightarrow> 0 | Some (xs, x, ys) \<Rightarrow> bused x, h)"
| "heap_call g Reset h = Ret (0, heap_reset h)"
| "heap_call g (Error_set p) h = Ret (0, heap_error_set p h)"
| "heap_call g (Input_set p n) h = Ret (0, heap_input_set p n h)"
| "heap_call g (Output_set p n) h = Ret (0, heap_output_set p n h)"
| "heap_call g (Store_u8 p v) h = Ret (0, h)"
| "heap_call g (Store_u64 p v) h = Ret (0, h)"

text \<open>
  The calls covered: sizes below 4 GiB, handles whose lookup stays within the memory, and
  stores to the data of active blocks.
\<close>

fun call_ok :: "wasm_mem \<Rightarrow> heap \<Rightarrow> kcall \<Rightarrow> bool" where
  "call_ok m h (Alloc n) = (0 < n \<and> n < 4294967296)"
| "call_ok m h (Free_block p) = (p < 18446744073709551616 \<and> findable m h p)"
| "call_ok m h (Length p) = (p < 18446744073709551616 \<and> findable m h p)"
| "call_ok m h (Store_u8 p v) = in_active 65 (h_blocks h) p"
| "call_ok m h (Store_u64 p v) = list_all (in_active 65 (h_blocks h)) [p..<p + 8]"
| "call_ok m h c = True"

section \<open>Every call refines its abstract counterpart\<close>

definition call_agrees ::
    "wasm_mem \<Rightarrow> (u64 \<times> wasm_mem) outcome option \<Rightarrow> (nat \<times> heap) outcome \<Rightarrow> bool" where
  "call_agrees m run spec \<longleftrightarrow>
     (case spec of
        Trap \<Rightarrow> run = Some Trap
      | Ret (x, h') \<Rightarrow>
          \<exists>m'. run = Some (Ret (word_of_nat x, m')) \<and> heap_repr m' h' \<and> growth m' = growth m)"

lemma call_agrees_unit:
  assumes "f m = Some (Ret ((), m'))" "heap_repr m' h'" "growth m' = growth m"
  shows "call_agrees m (wthen f (wret 0) m) (Ret (0, h'))"
  using assms by (simp add: call_agrees_def wasm_simps)

lemma run_agrees_unit:
  "run_agrees h m (f m) () h' \<Longrightarrow> call_agrees m (wthen f (wret 0) m) (Ret (0, h'))"
  by (auto simp: run_agrees_def intro: call_agrees_unit)

lemma store_u8_active:
  assumes repr: "heap_repr m h" and p: "in_active 65 (h_blocks h) p"
  shows "k_store_u8 (word_of_nat p) v m = Some (Ret ((), m\<lparr>bytes := (bytes m)(p := v)\<rparr>))"
    "heap_repr (m\<lparr>bytes := (bytes m)(p := v)\<rparr>) h"
proof -
  show "k_store_u8 (word_of_nat p) v m = Some (Ret ((), m\<lparr>bytes := (bytes m)(p := v)\<rparr>))"
    using in_active_range [OF p] heap_okD [OF heap_reprD(1) [OF repr]] heap_reprD(2,3) [OF repr]
    by (intro k_store_u8_ok) auto
  show "heap_repr (m\<lparr>bytes := (bytes m)(p := v)\<rparr>) h"
    using p by (intro heap_repr_data [OF repr]) auto
qed

lemma store_u64_active:
  assumes repr: "heap_repr m h" and p: "list_all (in_active 65 (h_blocks h)) [p..<p + 8]"
  shows "k_store_u64 (word_of_nat p) v m = Some (Ret ((), m\<lparr>bytes := wr64 (bytes m) p v\<rparr>))"
    "heap_repr (m\<lparr>bytes := wr64 (bytes m) p v\<rparr>) h"
proof -
  have act: "in_active 65 (h_blocks h) i" if "p \<le> i" "i < p + 8" for i
    using p that by (simp add: list_all_iff)
  show "k_store_u64 (word_of_nat p) v m = Some (Ret ((), m\<lparr>bytes := wr64 (bytes m) p v\<rparr>))"
    using in_active_range [OF act [of p]] in_active_range [OF act [of "p + 7"]]
      heap_okD [OF heap_reprD(1) [OF repr]] heap_reprD(2,3) [OF repr]
    by (intro k_store_u64_ok) auto
  show "heap_repr (m\<lparr>bytes := wr64 (bytes m) p v\<rparr>) h"
    by (rule heap_repr_data [OF repr]) (metis act wr64_outside not_le)
qed

lemma kernel_call_refines:
  assumes repr: "heap_repr m h" and ok: "call_ok m h c"
  shows "call_agrees m (kernel_call c m) (heap_call (growth m) c h)"
proof (cases c)
  case (Alloc n)
  with ok k_alloc_refines_heap [OF repr, of n] show ?thesis
    by (auto simp: alloc_agrees_def call_agrees_def split: outcome.splits)
next
  case (Free_block p)
  with ok k_free_ok [OF repr, of p] show ?thesis
    by (auto intro: call_agrees_unit)
next
  case (Length p)
  with ok k_length_ok [OF repr, of p] repr show ?thesis
    by (auto simp: call_agrees_def split: option.splits)
next
  case Reset
  with k_reset_ok [OF repr] show ?thesis by (auto intro: call_agrees_unit)
next
  case (Error_set p)
  with k_error_set_ok [OF repr] show ?thesis by (auto intro: run_agrees_unit)
next
  case (Input_set p n)
  with k_input_set_ok [OF repr] show ?thesis by (auto intro: run_agrees_unit)
next
  case (Output_set p n)
  with k_output_set_ok [OF repr] show ?thesis by (auto intro: run_agrees_unit)
next
  case (Store_u8 p v)
  with ok store_u8_active [OF repr] show ?thesis by (auto intro!: call_agrees_unit)
next
  case (Store_u64 p v)
  with ok store_u64_active [OF repr] show ?thesis
    by (auto intro!: call_agrees_unit)
qed

section \<open>Histories\<close>

inductive kstep :: "wasm_mem \<times> heap \<Rightarrow> kcall \<Rightarrow> u64 \<Rightarrow> wasm_mem \<times> heap \<Rightarrow> bool" where
  kstepI: "call_ok m h c \<Longrightarrow> kernel_call c m = Some (Ret (x, m')) \<Longrightarrow>
     heap_call (growth m) c h = Ret (y, h') \<Longrightarrow> kstep (m, h) c x (m', h')"

inductive_cases kstepE: "kstep s c x s'"
inductive_simps kstep_simps: "kstep (m, h) c x (m', h')"

inductive history :: "wasm_mem \<times> heap \<Rightarrow> bool" where
  history_fresh: "fresh m \<Longrightarrow> history (initialised m, heap_init (pages m))"
| history_step: "history s \<Longrightarrow> kstep s c x s' \<Longrightarrow> history s'"

lemma history_repr: "history s \<Longrightarrow> heap_repr (fst s) (snd s)"
proof (induction rule: history.induct)
  case (history_fresh m)
  then show ?case by (simp add: initialised_fresh)
next
  case (history_step s c x s')
  from history_step.hyps(2) show ?case
  proof (cases rule: kstep.cases)
    case (kstepI m h m' y h')
    with history_step.IH kernel_call_refines [of m h c] show ?thesis
      by (auto simp: call_agrees_def)
  qed
qed

text \<open>A list of calls, over both levels.\<close>

fun kernel_calls :: "kcall list \<Rightarrow> u64 list wasm" where
  "kernel_calls [] = wret []"
| "kernel_calls (c # cs) = wbind (kernel_call c) (\<lambda>x. wbind (kernel_calls cs) (\<lambda>xs. wret (x # xs)))"

fun heap_calls :: "(nat \<Rightarrow> nat \<Rightarrow> grow_verdict) \<Rightarrow> kcall list \<Rightarrow> heap \<Rightarrow> (nat list \<times> heap) outcome" where
  "heap_calls g [] h = Ret ([], h)"
| "heap_calls g (c # cs) h =
     (case heap_call g c h of
        Trap \<Rightarrow> Trap
      | Ret (x, h') \<Rightarrow>
          (case heap_calls g cs h' of Trap \<Rightarrow> Trap | Ret (xs, h'') \<Rightarrow> Ret (x # xs, h'')))"

text \<open>Calls whose admissibility does not depend on the memory: allocations, frees of live handles.\<close>

fun calls_ok :: "(nat \<Rightarrow> nat \<Rightarrow> grow_verdict) \<Rightarrow> kcall list \<Rightarrow> heap \<Rightarrow> bool" where
  "calls_ok g [] h = True"
| "calls_ok g (c # cs) h =
     ((case c of
         Alloc n \<Rightarrow> 0 < n \<and> n < 4294967296
       | Free_block p \<Rightarrow> heap_find h p \<noteq> None
       | Length p \<Rightarrow> heap_find h p \<noteq> None
       | Store_u8 p v \<Rightarrow> in_active 65 (h_blocks h) p
       | Store_u64 p v \<Rightarrow> list_all (in_active 65 (h_blocks h)) [p..<p + 8]
       | _ \<Rightarrow> True) \<and>
      (case heap_call g c h of Trap \<Rightarrow> False | Ret (x, h') \<Rightarrow> calls_ok g cs h'))"

lemma found_bound:
  assumes "heap_repr m h" "heap_find h p = Some t"
  shows "p < 18446744073709551616"
proof -
  obtain xs x ys where t: "t = (xs, x, ys)" by (cases t) auto
  show ?thesis
    using heap_find_SomeD(4) [OF assms(2) [unfolded t]]
      heap_okD [OF heap_reprD(1) [OF assms(1)]] by simp
qed

lemma calls_ok_call_ok:
  "heap_repr m h \<Longrightarrow> calls_ok g (c # cs) h \<Longrightarrow> call_ok m h c"
  by (cases c) (auto simp: findable_def dest: found_bound)

lemma kernel_calls_refine:
  assumes "heap_repr m h" "calls_ok (growth m) cs h"
  shows "\<exists>xs h' m'. heap_calls (growth m) cs h = Ret (xs, h') \<and>
    kernel_calls cs m = Some (Ret (map word_of_nat xs, m')) \<and> heap_repr m' h'"
  using assms
proof (induction cs arbitrary: m h)
  case Nil
  then show ?case by (simp add: wasm_simps)
next
  case (Cons c cs)
  from Cons.prems(2) obtain x h1 where call: "heap_call (growth m) c h = Ret (x, h1)"
    and rest: "calls_ok (growth m) cs h1"
    by (auto split: outcome.splits)
  obtain m1 where run: "kernel_call c m = Some (Ret (word_of_nat x, m1))"
    and repr: "heap_repr m1 h1" and g: "growth m1 = growth m"
    using kernel_call_refines [OF Cons.prems(1) calls_ok_call_ok [OF Cons.prems]] call
    by (auto simp: call_agrees_def)
  from Cons.IH [OF repr] rest g obtain xs h' m' where
    "heap_calls (growth m) cs h1 = Ret (xs, h')"
    "kernel_calls cs m1 = Some (Ret (map word_of_nat xs, m'))" "heap_repr m' h'"
    by auto
  then show ?case using call run by (auto simp: wbind_Ret wasm_simps)
qed

end
