(* ===== verification/Kernel_Total.thy ===== *)
theory Kernel_Total
  imports Kernel_Run
begin

text \<open>
  Lookups of arbitrary handles, those of no block included: in a memory below 4 GiB a walk
  of \<^verbatim>\<open>find_block\<close> ends, with the block, with none, or, for a handle close to the end of the
  memory, in a trap.  The host turns a trap of \<^verbatim>\<open>length\<close> into the length 0.
\<close>

definition not_found :: "wasm_mem \<Rightarrow> (u32 option \<times> wasm_mem) outcome option \<Rightarrow> bool" where
  "not_found m run \<longleftrightarrow> run = Some (Ret (None, m)) \<or> run = Some Trap"

lemma find_block_loop_step:
  assumes "ucast (word_of_nat a :: u32) < word_of_nat blocks_addr + (word_of_nat p :: u64)"
    and "get_status (word_of_nat a) m = Some (Ret (s, m))"
    and "\<not> (s = status_code Active \<and> ucast (data_ptr (word_of_nat a)) = (word_of_nat p :: u64))"
    and "next_ptr (word_of_nat a) m = Some (Ret (b, m))"
  shows "find_block_loop (word_of_nat p) (word_of_nat a) m = find_block_loop (word_of_nat p) b m"
  by (subst find_block_loop.simps)
    (simp only: assms(1) if_True, simp add: assms(2,4) wasm_simps,
     use assms(3) in auto)

lemma zeros_not_found:
  assumes "\<And>i. a \<le> i \<Longrightarrow> i < mem_size m \<Longrightarrow> bytes m i = 0"
    and "p \<le> mem_size m" "mem_size m < 4294967280" "a \<le> mem_size m + 4"
  shows "not_found m (find_block_loop (word_of_nat p) (word_of_nat a) m)"
  using assms(1,4)
proof (induction "mem_size m + 4 - a" arbitrary: a rule: less_induct)
  case less
  have below: "(ucast (word_of_nat a :: u32) < word_of_nat blocks_addr + (word_of_nat p :: u64))
      = (a < 65 + p)"
    using less.prems(2) assms(2,3) by (subst below_limit) simp_all
  consider "\<not> a < 65 + p" | "a < 65 + p" "mem_size m < a + 8" | "a < 65 + p" "a + 8 \<le> mem_size m"
    by linarith
  then show ?case
  proof cases
    case 1
    then show ?thesis
      by (subst find_block_loop.simps) (simp only: below, simp add: wasm_simps not_found_def)
  next
    case 2
    have "get_status (word_of_nat a) m = Some Trap \<or>
        get_status (word_of_nat a) m = Some (Ret (0, m))"
      using less.prems assms(3) by (auto simp: get_status_def layout word_nat i32_load8_u_def)
    moreover have "next_ptr (word_of_nat a) m = Some Trap"
      using 2 less.prems(2) assms(3)
      by (simp add: next_ptr_def get_size_def layout word_nat i32_load_def wasm_simps)
    ultimately show ?thesis
      using 2(1)
      by (subst find_block_loop.simps) (simp only: below, auto simp: wasm_simps not_found_def)
  next
    case 3
    have "rd32 (bytes m) (a + 4) = 0"
      using 3 by (intro rd32_zero less.prems(1)) simp_all
    then have next12: "next_ptr (word_of_nat a) m = Some (Ret (word_of_nat (a + 12), m))"
      using 3 assms(3) by (simp add: next_ptr_def get_size_def data_ptr_nat layout word_nat wasm_simps)
    have zero: "get_status (word_of_nat a) m = Some (Ret (0, m))"
      using 3 assms(3) less.prems by (simp add: get_status_def layout word_nat wasm_simps)
    have "find_block_loop (word_of_nat p) (word_of_nat a) m =
        find_block_loop (word_of_nat p) (word_of_nat (a + 12)) m"
      using 3(1) below by (intro find_block_loop_step [OF _ zero _ next12]) simp_all
    moreover have "not_found m (find_block_loop (word_of_nat p) (word_of_nat (a + 12)) m)"
      using 3 less.prems(1) by (intro less.hyps) auto
    ultimately show ?thesis by simp
  qed
qed

lemma chain_not_found:
  assumes "chain (bytes m) a bs" "a + span bs = 65 + pos" "block_at a bs p = None"
    and "\<And>i. 65 + pos \<le> i \<Longrightarrow> i < mem_size m \<Longrightarrow> bytes m i = 0"
    and "65 + pos \<le> mem_size m" "mem_size m < 4294967280" "p \<le> mem_size m"
  shows "not_found m (find_block_loop (word_of_nat p) (word_of_nat a) m)"
  using assms(1-3)
proof (induction bs arbitrary: a)
  case Nil
  then show ?case using assms(4-7) by (intro zeros_not_found) simp_all
next
  case (Cons b bs)
  have bound: "a + span (b # bs) \<le> mem_size m" "a + span (b # bs) < 4294967296"
    "a + 12 + bsize b < 4294967296"
    using Cons.prems(2) assms(5,6) by simp_all
  note access = chain_access [OF Cons.prems(1) bound(1,2)]
  have below: "(ucast (word_of_nat a :: u32) < word_of_nat blocks_addr + (word_of_nat p :: u64))
      \<longleftrightarrow> a < 65 + p"
    using bound assms(6,7) by (subst below_limit) simp_all
  have here: "ucast (data_ptr (word_of_nat a)) = (word_of_nat p :: u64) \<longleftrightarrow> a + 12 = p"
    using bound(3) assms(6,7)
    by (simp only: data_ptr_nat ucast_nat_32_64) (subst nat64_eq; simp)
  have other: "\<not> (bstat b = Active \<and> a + 12 = p)" "block_at (a + 12 + bsize b) bs p = None"
    using Cons.prems(3) by (auto split: if_splits)
  show ?case
  proof (cases "a < 65 + p")
    case False
    then show ?thesis
      by (subst find_block_loop.simps) (simp only: below, simp add: wasm_simps not_found_def)
  next
    case True
    have "find_block_loop (word_of_nat p) (word_of_nat a) m =
        find_block_loop (word_of_nat p) (word_of_nat (a + 12 + bsize b)) m"
    proof (rule find_block_loop_step [OF _ access(2) _ access(1)])
      show "\<not> (status_code (bstat b) = status_code Active \<and>
          ucast (data_ptr (word_of_nat a)) = (word_of_nat p :: u64))"
        using other(1) here by (simp only: status_code_eq_iff) simp
    qed (use True below in simp)
    then show ?thesis
      using Cons.IH [of "a + 12 + bsize b"] Cons.prems other by simp
  qed
qed

text \<open>Every lookup, whatever the handle.\<close>

lemma root_find_block_total:
  assumes repr: "heap_repr m h" and "pages m < 65536" and p: "p < 18446744073709551616"
  shows "(\<exists>xs x ys. heap_find h p = Some (xs, x, ys) \<and>
      root_find_block (word_of_nat p) m = Some (Ret (Some (word_of_nat (65 + span xs)), m))) \<or>
    heap_find h p = None \<and> not_found m (root_find_block (word_of_nat p) m)"
proof (cases "heap_find h p")
  case (Some t)
  then have "findable m h p" by (simp add: findable_def)
  with root_find_block_ok [OF repr p] Some show ?thesis by (cases t) auto
next
  case None
  have size: "mem_size m < 4294967280" using assms(2) by (simp add: mem_size_def)
  show ?thesis
  proof (cases "64 \<le> p \<and> p \<le> mem_size m")
    case True
    have "not_found m (find_block_loop (word_of_nat p) (word_of_nat 65) m)"
      using True None size heap_okD [OF heap_reprD(1) [OF repr]] heap_reprD(3,13) [OF repr]
      by (intro chain_not_found [where pos = "h_position h", OF heap_reprD(5) [OF repr]])
        (simp_all add: heap_find_def)
    with True None p assms(2) show ?thesis
      by (simp add: root_find_block_def layout wasm_simps pointer_in_bounds_fast_nat word_nat)
  next
    case False
    with None p assms(2) show ?thesis
      by (auto simp: root_find_block_def wasm_simps pointer_in_bounds_fast_nat word_nat not_found_def)
  qed
qed

text \<open>What \<^verbatim>\<open>length\<close> does with any handle.\<close>

lemma k_length_total:
  assumes repr: "heap_repr m h" and pages: "pages m < 65536" and p: "p < 18446744073709551616"
  shows "(\<exists>xs x ys. heap_find h p = Some (xs, x, ys) \<and>
      k_length (word_of_nat p) m = Some (Ret (word_of_nat (bused x), m))) \<or>
    heap_find h p = None \<and>
      (k_length (word_of_nat p) m = Some (Ret (0, m)) \<or> k_length (word_of_nat p) m = Some Trap)"
proof (cases "heap_find h p")
  case (Some t)
  then have "findable m h p" by (simp add: findable_def)
  with k_length_ok [OF repr p] Some show ?thesis by (cases t) auto
next
  case None
  with root_find_block_total [OF assms] have "not_found m (root_find_block (word_of_nat p) m)"
    by simp
  with None show ?thesis
    by (auto simp: k_length_def not_found_def wasm_simps root_new_ok [OF repr])
qed

lemma k_free_total:
  assumes repr: "heap_repr m h" and pages: "pages m < 65536" and p: "p < 18446744073709551616"
  shows "k_free (word_of_nat p) m = Some Trap \<and> heap_find h p = None \<or>
    run_agrees h m (k_free (word_of_nat p) m) () (heap_free p h)"
proof (cases "heap_find h p")
  case (Some t)
  then have "findable m h p" by (simp add: findable_def)
  with k_free_ok [OF repr p] show ?thesis by (auto simp: run_agrees_def)
next
  case None
  with root_find_block_total [OF assms] have "not_found m (root_find_block (word_of_nat p) m)"
    by simp
  with None repr show ?thesis
    by (auto simp: k_free_def not_found_def wasm_simps root_new_ok [OF repr] run_agrees_def heap_free_def)
qed

section \<open>Handles close to the end of the memory\<close>

text \<open>
  Within the last bytes of the memory a walk cannot reach its limit before it reads a header
  that is cut off by the end of the memory.
\<close>

lemma zeros_trap:
  assumes "\<And>i. a \<le> i \<Longrightarrow> i < mem_size m \<Longrightarrow> bytes m i = 0"
    and "p \<le> mem_size m" "mem_size m < p + 61" "mem_size m < 4294967280" "a \<le> mem_size m + 4"
  shows "find_block_loop (word_of_nat p) (word_of_nat a) m = Some Trap"
  using assms(1,5)
proof (induction "mem_size m + 4 - a" arbitrary: a rule: less_induct)
  case less
  have below: "(ucast (word_of_nat a :: u32) < word_of_nat blocks_addr + (word_of_nat p :: u64))"
    using less.prems(2) assms(2-4) by (subst below_limit) simp_all
  show ?case
  proof (cases "mem_size m < a + 8")
    case True
    have "get_status (word_of_nat a) m = Some Trap \<or>
        get_status (word_of_nat a) m = Some (Ret (0, m))"
      using less.prems assms(4) by (auto simp: get_status_def layout word_nat i32_load8_u_def)
    moreover have "next_ptr (word_of_nat a) m = Some Trap"
      using True less.prems(2) assms(4)
      by (simp add: next_ptr_def get_size_def layout word_nat i32_load_def wasm_simps)
    ultimately show ?thesis
      by (subst find_block_loop.simps) (simp only: below, auto simp: wasm_simps)
  next
    case False
    then have "rd32 (bytes m) (a + 4) = 0" by (intro rd32_zero less.prems(1)) simp_all
    then have next12: "next_ptr (word_of_nat a) m = Some (Ret (word_of_nat (a + 12), m))"
      using False assms(4) by (simp add: next_ptr_def get_size_def data_ptr_nat layout word_nat wasm_simps)
    have zero: "get_status (word_of_nat a) m = Some (Ret (0, m))"
      using False assms(4) less.prems by (simp add: get_status_def layout word_nat wasm_simps)
    have "find_block_loop (word_of_nat p) (word_of_nat a) m =
        find_block_loop (word_of_nat p) (word_of_nat (a + 12)) m"
      by (intro find_block_loop_step [OF below zero _ next12]) simp_all
    moreover have "find_block_loop (word_of_nat p) (word_of_nat (a + 12)) m = Some Trap"
      using False less.prems(1) by (intro less.hyps) auto
    ultimately show ?thesis by simp
  qed
qed

lemma k_length_trap_fresh:
  assumes "heap_repr m h" "h_blocks h = []" "pages m < 65536" "p \<le> mem_size m" "mem_size m < p + 61"
  shows "k_length (word_of_nat p) m = Some Trap"
proof -
  have size: "mem_size m < 4294967280" "128 \<le> mem_size m"
    using assms(3) heap_okD(1,3) [OF heap_reprD(1) [OF assms(1)]] heap_reprD(3) [OF assms(1)]
    by (simp_all add: mem_size_def)
  have p: "64 \<le> p" "p < 18446744073709551616" using assms(4,5) size by simp_all
  then have nz: "(word_of_nat p :: u64) \<noteq> 0" using nat64_eq [of p 0] by simp
  have "find_block_loop (word_of_nat p) (word_of_nat 65) m = Some Trap"
    using assms(2,4,5) size heap_reprD(13) [OF assms(1)] by (intro zeros_trap) simp_all
  with p nz assms(3,4) show ?thesis
    by (simp add: k_length_def root_find_block_def layout wasm_simps pointer_in_bounds_fast_nat
        word_nat root_new_ok [OF assms(1)])
qed

section \<open>Sizes beyond 32 bits\<close>

text \<open>The search for a free block sees a size only truncated to 32 bits.\<close>

lemma find_free_loop_truncates:
  assumes "chain (bytes m) a bs" "list_all blk_ok bs" "a + span bs = 65 + pos"
    and "65 + pos \<le> mem_size m" "mem_size m \<le> 4294967296" "65 + pos < 4294967296"
    and "ucast n = (ucast k :: u32)"
  shows "find_free_loop n (word_of_nat pos) (word_of_nat a) m =
    find_free_loop k (word_of_nat pos) (word_of_nat a) m"
  using assms(1-3)
proof (induction bs arbitrary: a)
  case Nil
  then have "\<not> (ucast (word_of_nat a :: u32) < word_of_nat blocks_addr + (word_of_nat pos :: u64))"
    using assms(6) by (subst below_limit) simp_all
  then show ?case
    by (subst (1 2) find_free_loop.simps) (simp add: wasm_simps)
next
  case (Cons b bs)
  have bound: "a + span (b # bs) \<le> mem_size m" "a + span (b # bs) < 4294967296"
    using Cons.prems(3) assms(4,6) by simp_all
  note access = chain_access [OF Cons.prems(1) bound]
  have "find_free_loop n (word_of_nat pos) (word_of_nat (a + 12 + bsize b)) m =
      find_free_loop k (word_of_nat pos) (word_of_nat (a + 12 + bsize b)) m"
    using Cons.prems by (intro Cons.IH) simp_all
  then show ?case
    by (subst (1 2) find_free_loop.simps)
      (simp add: access wasm_simps assms(7) del: of_nat_add)
qed

lemma find_free_truncates:
  assumes repr: "heap_repr m h" and "ucast n = (ucast k :: u32)"
  shows "root_find_free_block n (word_of_nat (h_position h)) m =
    root_find_free_block k (word_of_nat (h_position h)) m"
proof -
  have "find_free_loop n (word_of_nat (h_position h)) (word_of_nat 65) m =
      find_free_loop k (word_of_nat (h_position h)) (word_of_nat 65) m"
    using heap_okD [OF heap_reprD(1) [OF repr]] heap_reprD(1,3) [OF repr] assms(2)
    by (intro find_free_loop_truncates [OF heap_reprD(5) [OF repr]]) (auto simp: heap_ok_def)
  then show ?thesis by (simp add: root_find_free_block_def layout)
qed

lemma k_alloc_truncates:
  assumes repr: "heap_repr m h" and n: "0 < n" "n < 4294967296"
    and fit: "first_fit n (h_blocks h) \<noteq> None"
  shows "k_alloc (word_of_nat (4294967296 * j + n)) m = k_alloc (word_of_nat n) m"
proof -
  obtain p x q where f: "first_fit n (h_blocks h) = Some (p, x, q)" using fit by (cases "first_fit n (h_blocks h)") auto
  let ?big = "word_of_nat (4294967296 * j + n) :: u64"
  have tr: "ucast ?big = (word_of_nat n :: u32)"
  proof -
    have "(word_of_nat 4294967296 :: u32) = 0" by simp
    then have "(word_of_nat (4294967296 * j + n) :: u32) = word_of_nat n"
      by (simp only: of_nat_add of_nat_mult mult_zero_left add_0)
    then show ?thesis by (simp only: ucast_nat_64_32)
  qed
  have tr': "ucast (word_of_nat n :: u64) = (word_of_nat n :: u32)" by (rule ucast_nat_64_32)
  have nz: "?big \<noteq> 0" "(word_of_nat n :: u64) \<noteq> 0"
  proof -
    have "(word_of_nat n :: u32) \<noteq> 0" using n nat32_eq [of n 0] by simp
    with tr tr' show "?big \<noteq> 0" "(word_of_nat n :: u64) \<noteq> 0" by auto
  qed
  obtain b m1 where found: "root_find_free_block (word_of_nat n) (word_of_nat (h_position h)) m =
      Some (Ret (Some b, m1)) \<or>
      root_find_free_block (word_of_nat n) (word_of_nat (h_position h)) m = Some Trap \<or>
      root_find_free_block (word_of_nat n) (word_of_nat (h_position h)) m = None"
    using find_free_ok [OF repr n(2)] f
    by (auto simp: fit_result_def wbind_apply wret_apply split: option.splits outcome.splits if_splits)
  have same: "root_find_free_block ?big (word_of_nat (h_position h)) m =
      root_find_free_block (word_of_nat n) (word_of_nat (h_position h)) m"
    using find_free_truncates [OF repr] tr tr' by metis
  show ?thesis
    using found nz same tr tr' root_get(1,2) [OF repr] root_new_ok [OF repr]
    by (auto simp: k_alloc_def root_alloc_def wbind_apply wthen_apply simp del: of_nat_add of_nat_mult)
qed

end
