(* ===== verification/Plugin_Memory.thy ===== *)
theory Plugin_Memory
  imports Wasm_Memory Allocator
begin

text \<open>
  \<^verbatim>\<open>PluginMemory\<close>, \<^verbatim>\<open>runtime/src/otoroshi/custom_memory.rs\<close>: the allocator for plugins that
  export their own memory.  Its book-keeping is kept outside the memory: a map of the live
  blocks, a vector of free ones and the position of the next fresh block.  The wasm memory
  it grows is a parameter of the state: its size in pages and the verdict on a growth
  request, as for the linear memory of the kernel.

  An \<^verbatim>\<open>usize\<close> is a natural number; \<open>saturating_add\<close> and \<open>saturating_sub\<close> are written out.  The
  number of pages to grow is computed by the code in \<^verbatim>\<open>f64\<close>, which is exact below \<open>2 ^ 53\<close> bytes;
  beyond, a request exceeds any memory and growing fails either way.
\<close>

section \<open>State\<close>

record MemoryBlock =
  mb_offset :: nat
  mb_length :: nat

datatype mem_error = Grow_failed | Invalid_offset nat

record PluginMemory =
  mem_pages :: nat
  mem_growth :: "nat \<Rightarrow> nat \<Rightarrow> grow_verdict"
  live_blocks :: "nat \<Rightarrow> nat option"
  free_list :: "MemoryBlock list"
  position :: nat

definition BLOCK_SIZE_THRESHOLD :: nat where
  "BLOCK_SIZE_THRESHOLD = 32"

definition usize_max :: nat where
  "usize_max = 18446744073709551615"

definition pm_new :: "nat \<Rightarrow> (nat \<Rightarrow> nat \<Rightarrow> grow_verdict) \<Rightarrow> PluginMemory" where
  "pm_new np g = \<lparr>mem_pages = np, mem_growth = g, live_blocks = (\<lambda>_. None), free_list = [], position = 1\<rparr>"

definition pm_size :: "PluginMemory \<Rightarrow> nat" where
  "pm_size pm = mem_pages pm * 65536"

section \<open>Allocation\<close>

text \<open>\<^verbatim>\<open>Vec::swap_remove\<close>: the last element takes the place of the removed one.\<close>

definition swap_remove :: "nat \<Rightarrow> 'a list \<Rightarrow> 'a list" where
  "swap_remove i xs = (let ys = butlast xs in if i < length ys then ys[i := last xs] else ys)"

text \<open>
  The loop over the free blocks: the index of the first block that has the size, or is
  larger by the threshold.
\<close>

fun scan_free :: "nat \<Rightarrow> nat \<Rightarrow> MemoryBlock list \<Rightarrow> nat option" where
  "scan_free i n [] = None"
| "scan_free i n (b # bs) =
     (if mb_length b = n \<or> BLOCK_SIZE_THRESHOLD \<le> mb_length b - n then Some i else scan_free (Suc i) n bs)"

definition pm_reuse :: "nat \<Rightarrow> nat \<Rightarrow> PluginMemory \<Rightarrow> MemoryBlock \<times> PluginMemory" where
  "pm_reuse i n pm =
     (let block = free_list pm ! i in
      if mb_length block = n
      then (block, pm\<lparr>free_list := swap_remove i (free_list pm),
              live_blocks := (live_blocks pm)(mb_offset block \<mapsto> mb_length block)\<rparr>)
      else let handle = \<lparr>mb_offset = mb_offset block, mb_length = n\<rparr>;
               rest = \<lparr>mb_offset = mb_offset block + n, mb_length = mb_length block - n\<rparr>
           in (handle, pm\<lparr>free_list := (free_list pm)[i := rest],
                 live_blocks := (live_blocks pm)(mb_offset handle \<mapsto> mb_length handle)\<rparr>))"

text \<open>\<^verbatim>\<open>memory.grow\<close> of the runtime: it fails beyond 4 GiB and when the limiter refuses.\<close>

definition pm_grow :: "nat \<Rightarrow> PluginMemory \<Rightarrow> PluginMemory option" where
  "pm_grow np pm =
     (if 65536 < mem_pages pm + np then None
      else (case mem_growth pm (mem_pages pm) np of
              Grown \<Rightarrow> Some (pm\<lparr>mem_pages := mem_pages pm + np\<rparr>)
            | Refused \<Rightarrow> None
            | Grow_trap \<Rightarrow> None))"

definition pages_to_grow :: "nat \<Rightarrow> nat \<Rightarrow> nat" where
  "pages_to_grow new_offset sz =
     (let pages_needed = (new_offset - sz + 65535) div 65536
      in if pages_needed = 0 then 1 else pages_needed)"

definition pm_alloc :: "nat \<Rightarrow> PluginMemory \<Rightarrow> mem_error + (MemoryBlock \<times> PluginMemory)" where
  "pm_alloc n pm =
     (case scan_free 0 n (free_list pm) of
        Some i \<Rightarrow> Inr (pm_reuse i n pm)
      | None \<Rightarrow>
          let new_offset = min usize_max (position pm + n);
              grown = (if pm_size pm \<le> new_offset
                       then pm_grow (pages_to_grow new_offset (pm_size pm)) pm
                       else Some pm)
          in (case grown of
                None \<Rightarrow> Inl Grow_failed
              | Some pm1 \<Rightarrow>
                  let mem = \<lparr>mb_offset = position pm1, mb_length = n\<rparr>
                  in Inr (mem, pm1\<lparr>live_blocks := (live_blocks pm1)(mb_offset mem \<mapsto> mb_length mem),
                               position := position pm1 + n\<rparr>)))"

section \<open>Free, reset and lookup\<close>

text \<open>
  The compaction of the free list: the first block is kept; of the others only those that
  are adjacent to their predecessor are, merged with it.
\<close>

fun compact_loop :: "MemoryBlock option \<Rightarrow> MemoryBlock list \<Rightarrow> MemoryBlock list" where
  "compact_loop prev [] = []"
| "compact_loop prev (block # bs) =
     (case prev of
        None \<Rightarrow> [block]
      | Some l \<Rightarrow>
          if mb_offset l + mb_length l = mb_offset block
          then [\<lparr>mb_offset = mb_offset l, mb_length = mb_length l + mb_length block\<rparr>] else [])
     @ compact_loop (Some block) bs"

definition free_size :: "MemoryBlock list \<Rightarrow> nat" where
  "free_size bs = sum_list (map mb_length bs)"

definition pm_free :: "nat \<Rightarrow> PluginMemory \<Rightarrow> PluginMemory" where
  "pm_free p pm =
     (case live_blocks pm p of
        None \<Rightarrow> pm
      | Some l \<Rightarrow>
          let bs = free_list pm @ [\<lparr>mb_offset = p, mb_length = l\<rparr>]
          in pm\<lparr>live_blocks := (live_blocks pm)(p := None),
               free_list := (if 1024 \<le> free_size bs then compact_loop None bs else bs)\<rparr>)"

definition pm_reset :: "PluginMemory \<Rightarrow> PluginMemory" where
  "pm_reset pm = pm\<lparr>free_list := [], live_blocks := (\<lambda>_. None), position := 1\<rparr>"

definition block_length :: "PluginMemory \<Rightarrow> nat \<Rightarrow> nat option" where
  "block_length pm offs = live_blocks pm offs"

definition at_offset :: "PluginMemory \<Rightarrow> nat \<Rightarrow> MemoryBlock option" where
  "at_offset pm offs = map_option (\<lambda>l. \<lparr>mb_offset = offs, mb_length = l\<rparr>) (block_length pm offs)"

text \<open>The three \<^verbatim>\<open>ToMemoryBlock\<close> instances.\<close>

datatype block_source = Of_block MemoryBlock | Of_pair nat nat | Of_offset nat

fun to_memory_block :: "block_source \<Rightarrow> PluginMemory \<Rightarrow> mem_error + MemoryBlock" where
  "to_memory_block (Of_block b) pm = Inr b"
| "to_memory_block (Of_pair o1 l) pm = Inr \<lparr>mb_offset = o1, mb_length = l\<rparr>"
| "to_memory_block (Of_offset p) pm =
     (case at_offset pm p of Some x \<Rightarrow> Inr x | None \<Rightarrow> Inl (Invalid_offset p))"

section \<open>The invariant\<close>

definition as_pair :: "MemoryBlock \<Rightarrow> nat \<times> nat" where
  "as_pair b = (mb_offset b, mb_length b)"

definition pm_live :: "PluginMemory \<Rightarrow> (nat \<times> nat) set" where
  "pm_live pm = {(p, n). live_blocks pm p = Some n}"

definition free_set :: "PluginMemory \<Rightarrow> (nat \<times> nat) set" where
  "free_set pm = as_pair ` set (free_list pm)"

definition block_in :: "nat \<Rightarrow> nat \<times> nat \<Rightarrow> bool" where
  "block_in pos b \<longleftrightarrow> 1 \<le> fst b \<and> 0 < snd b \<and> fst b + snd b \<le> pos"

text \<open>
  All blocks, live or free, are non-empty, lie between 1 and the position and are pairwise
  apart; no free block is listed twice; the position is within the memory.
\<close>

definition pm_ok :: "PluginMemory \<Rightarrow> bool" where
  "pm_ok pm \<longleftrightarrow>
     (\<forall>b \<in> pm_live pm \<union> free_set pm. block_in (position pm) b) \<and>
     pairwise apart (pm_live pm \<union> free_set pm) \<and> pm_live pm \<inter> free_set pm = {} \<and>
     distinct (free_list pm) \<and> 1 \<le> position pm \<and> position pm \<le> pm_size pm \<and> mem_pages pm \<le> 65536"

lemma pairwise_UnI:
  "pairwise R A \<Longrightarrow> pairwise R B \<Longrightarrow> (\<And>a b. a \<in> A \<Longrightarrow> b \<in> B \<Longrightarrow> R a b \<and> R b a) \<Longrightarrow>
     pairwise R (A \<union> B)"
  by (auto simp: pairwise_def)

lemma as_pair_inj: "as_pair b = as_pair c \<Longrightarrow> b = c"
  by (simp add: as_pair_def)

lemma pm_okD:
  assumes "pm_ok pm"
  shows "b \<in> pm_live pm \<union> free_set pm \<Longrightarrow> block_in (position pm) b"
    "b \<in> pm_live pm \<union> free_set pm \<Longrightarrow> c \<in> pm_live pm \<union> free_set pm \<Longrightarrow> b \<noteq> c \<Longrightarrow> apart b c"
    "pm_live pm \<inter> free_set pm = {}" "distinct (free_list pm)" "1 \<le> position pm"
    "position pm \<le> pm_size pm" "mem_pages pm \<le> 65536"
  using assms by (auto simp: pm_ok_def pairwise_def)

lemma pm_new_ok: "1 \<le> np \<Longrightarrow> np \<le> 65536 \<Longrightarrow> pm_ok (pm_new np g)"
  by (simp add: pm_ok_def pm_new_def pm_live_def free_set_def pm_size_def)

lemma pm_reset_ok: "pm_ok pm \<Longrightarrow> pm_ok (pm_reset pm)"
  by (simp add: pm_ok_def pm_reset_def pm_live_def free_set_def pm_size_def)

lemma scan_free_SomeD:
  "scan_free i n bs = Some j \<Longrightarrow>
     i \<le> j \<and> j < i + length bs \<and>
     (mb_length (bs ! (j - i)) = n \<or> BLOCK_SIZE_THRESHOLD \<le> mb_length (bs ! (j - i)) - n)"
proof (induction bs arbitrary: i)
  case Nil
  then show ?case by simp
next
  case (Cons b bs)
  show ?case
  proof (cases "mb_length b = n \<or> BLOCK_SIZE_THRESHOLD \<le> mb_length b - n")
    case True
    with Cons.prems show ?thesis by auto
  next
    case False
    with Cons.prems have "Suc i \<le> j \<and> j < Suc i + length bs \<and>
        (mb_length (bs ! (j - Suc i)) = n \<or> BLOCK_SIZE_THRESHOLD \<le> mb_length (bs ! (j - Suc i)) - n)"
      by (intro Cons.IH) auto
    moreover from this have "j - i = Suc (j - Suc i)" by (metis Suc_diff_Suc Suc_le_lessD)
    ultimately show ?thesis by simp
  qed
qed

lemma swap_remove_set:
  assumes "distinct xs" "i < length xs"
  shows "set (swap_remove i xs) = set xs - {xs ! i}" "distinct (swap_remove i xs)"
proof -
  obtain ys z where xs: "xs = ys @ [z]" using assms(2) by (cases xs rule: rev_cases) auto
  with assms show "set (swap_remove i xs) = set xs - {xs ! i}"
    by (auto simp: swap_remove_def Let_def nth_append set_update_distinct)
  from xs assms show "distinct (swap_remove i xs)"
    by (auto simp: swap_remove_def Let_def distinct_list_update)
qed

lemma free_set_remove:
  assumes "pm_ok pm" "i < length (free_list pm)"
  shows "as_pair ` (set (free_list pm) - {free_list pm ! i}) = free_set pm - {as_pair (free_list pm ! i)}"
  using as_pair_inj by (auto simp: free_set_def)

lemma pm_live_upd:
  "p \<notin> fst ` pm_live pm \<Longrightarrow>
     pm_live (pm\<lparr>live_blocks := (live_blocks pm)(p \<mapsto> n), free_list := fs\<rparr>) = insert (p, n) (pm_live pm)"
  by (auto simp: pm_live_def image_iff split: if_splits)


section \<open>The operations keep the invariant\<close>

text \<open>Handing out a block of the free list, whole or in part.\<close>

lemma pm_reuse_ok:
  assumes ok: "pm_ok pm" and n: "0 < n" and i: "scan_free 0 n (free_list pm) = Some i"
  shows "pm_ok (snd (pm_reuse i n pm))"
    "pm_live (snd (pm_reuse i n pm)) = insert (mb_offset (fst (pm_reuse i n pm)), n) (pm_live pm)"
    "mb_offset (fst (pm_reuse i n pm)) \<notin> fst ` pm_live pm" "mb_length (fst (pm_reuse i n pm)) = n"
proof -
  let ?b = "free_list pm ! i"
  note scan = scan_free_SomeD [OF i]
  have i': "i < length (free_list pm)" using scan by simp
  have b: "as_pair ?b \<in> free_set pm" using i' by (simp add: free_set_def)
  note D = pm_okD [OF ok]
  have fresh: "mb_offset ?b \<notin> fst ` pm_live pm"
  proof
    assume "mb_offset ?b \<in> fst ` pm_live pm"
    then obtain k where k: "(mb_offset ?b, k) \<in> pm_live pm" by auto
    with b D(3) have "apart (as_pair ?b) (mb_offset ?b, k)" by (intro D(2)) auto
    moreover have "block_in (position pm) (as_pair ?b)" "block_in (position pm) (mb_offset ?b, k)"
      using b k by (auto intro: D(1))
    ultimately show False by (auto simp: block_in_def apart_def as_pair_def)
  qed
  define fs where "fs = (if mb_length ?b = n then swap_remove i (free_list pm)
    else (free_list pm)[i := \<lparr>mb_offset = mb_offset ?b + n, mb_length = mb_length ?b - n\<rparr>])"
  define rest where "rest = (if mb_length ?b = n then {} else {(mb_offset ?b + n, mb_length ?b - n)})"
  have large: "mb_length ?b = n \<or> n < mb_length ?b"
    using scan by (auto simp: BLOCK_SIZE_THRESHOLD_def)
  have new: "pm_reuse i n pm = (\<lparr>mb_offset = mb_offset ?b, mb_length = n\<rparr>,
      pm\<lparr>live_blocks := (live_blocks pm)(mb_offset ?b \<mapsto> n), free_list := fs\<rparr>)"
    by (cases "free_list pm ! i") (simp add: pm_reuse_def fs_def Let_def)
  have frees: "as_pair ` set fs = rest \<union> (free_set pm - {as_pair ?b})"
    using swap_remove_set [OF D(4) i'] free_set_remove [OF ok i'] D(4) i'
    by (auto simp: fs_def rest_def set_update_distinct as_pair_def)
  have live: "pm_live (snd (pm_reuse i n pm)) = insert (mb_offset ?b, n) (pm_live pm)"
    using pm_live_upd [OF fresh] by (simp add: new)
  then show "pm_live (snd (pm_reuse i n pm)) =
      insert (mb_offset (fst (pm_reuse i n pm)), n) (pm_live pm)"
    by (simp add: new)
  show "mb_offset (fst (pm_reuse i n pm)) \<notin> fst ` pm_live pm" "mb_length (fst (pm_reuse i n pm)) = n"
    using fresh by (simp_all add: new)
  have pair: "as_pair ?b = (mb_offset ?b, mb_length ?b)" by (simp add: as_pair_def)
  let ?U = "pm_live pm \<union> (free_set pm - {as_pair ?b})"
  let ?new = "insert (mb_offset ?b, n) rest"
  have U: "apart (as_pair ?b) c \<and> block_in (position pm) c" if "c \<in> ?U" for c
    using that D(1) [of c] D(2) [of "as_pair ?b" c] D(3) b by auto
  have parts: "block_in (position pm) c \<and> (\<forall>d \<in> ?U. apart c d)" if "c \<in> ?new" for c
  proof -
    have "block_in (position pm) (as_pair ?b)" using D(1) b by blast
    then show ?thesis
      using that U n large by (fastforce simp: rest_def block_in_def apart_def pair split: if_splits)
  qed
  have apart_new: "apart c d" if "c \<in> ?new" "d \<in> ?new" "c \<noteq> d" for c d
    using that by (auto simp: rest_def apart_def split: if_splits)
  have all: "pm_live (snd (pm_reuse i n pm)) \<union> as_pair ` set fs = ?new \<union> ?U"
    using live frees by auto
  have out: "c \<notin> ?U" if "c \<in> ?new" for c
  proof
    assume "c \<in> ?U"
    with parts [OF that] have "apart c c \<and> block_in (position pm) c" by blast
    then show False by (auto simp: apart_def block_in_def)
  qed
  have "distinct fs"
  proof (cases "mb_length ?b = n")
    case True
    then show ?thesis using swap_remove_set [OF D(4) i'] by (simp add: fs_def)
  next
    case False
    let ?r = "\<lparr>mb_offset = mb_offset ?b + n, mb_length = mb_length ?b - n\<rparr>"
    have "as_pair ?r \<in> ?new" using False by (simp add: rest_def as_pair_def)
    then have "as_pair ?r \<notin> free_set pm - {as_pair ?b}" using out by blast
    then have "?r \<notin> set (free_list pm) - {?b}"
      using free_set_remove [OF ok i'] by blast
    with False D(4) i' show ?thesis by (simp add: fs_def distinct_list_update)
  qed
  moreover have "pairwise apart (?new \<union> ?U)"
  proof (rule pairwise_UnI)
    show "pairwise apart ?new" using apart_new by (rule pairwiseI)
    show "pairwise apart ?U" by (rule pairwiseI, rule D(2)) auto
    show "apart c d \<and> apart d c" if "c \<in> ?new" "d \<in> ?U" for c d
      using parts [OF that(1)] that(2) by (meson apart_sym bspec)
  qed
  moreover have "(mb_offset ?b, n) \<notin> rest" using n by (simp add: rest_def)
  then have "pm_live (snd (pm_reuse i n pm)) \<inter> as_pair ` set fs = {}"
    unfolding live frees using out D(3) by blast
  moreover have "\<forall>c \<in> ?new \<union> ?U. block_in (position pm) c"
    using parts U by blast
  ultimately show "pm_ok (snd (pm_reuse i n pm))"
    unfolding pm_ok_def
    using all D(5-7) by (simp add: free_set_def new pm_size_def)
qed

text \<open>A block taken at the position, after growing the memory if need be.\<close>

lemma pm_grow_SomeD:
  "pm_grow np pm = Some pm1 \<Longrightarrow>
     pm1 = pm\<lparr>mem_pages := mem_pages pm + np\<rparr> \<and> mem_pages pm + np \<le> 65536"
  by (auto simp: pm_grow_def split: if_splits grow_verdict.splits)

lemma pages_to_grow_covers: "new_offset \<le> sz + pages_to_grow new_offset sz * 65536"
  by (auto simp: pages_to_grow_def Let_def div_eq_0_iff)

text \<open>An allocation that does not reuse a free block: what it returns and leaves.\<close>

lemma pm_alloc_fresh:
  assumes ok: "pm_ok pm" and none: "scan_free 0 n (free_list pm) = None"
    and alloc: "pm_alloc n pm = Inr (b, pm')"
  obtains k where "b = \<lparr>mb_offset = position pm, mb_length = n\<rparr>"
    "pm' = pm\<lparr>mem_pages := mem_pages pm + k, live_blocks := (live_blocks pm)(position pm \<mapsto> n),
       position := position pm + n\<rparr>"
    "position pm + n \<le> (mem_pages pm + k) * 65536" "mem_pages pm + k \<le> 65536"
proof -
  define off where "off = min usize_max (position pm + n)"
  show ?thesis
  proof (cases "pm_size pm \<le> off")
    case True
    define k where "k = pages_to_grow off (pm_size pm)"
    from True alloc none obtain pm1 where grow: "pm_grow k pm = Some pm1"
      and b: "b = \<lparr>mb_offset = position pm1, mb_length = n\<rparr>"
      and pm': "pm' = pm1\<lparr>live_blocks := (live_blocks pm1)(position pm1 \<mapsto> n),
        position := position pm1 + n\<rparr>"
      by (auto simp: pm_alloc_def Let_def off_def k_def split: option.splits)
    note G = pm_grow_SomeD [OF grow]
    have "off \<le> pm_size pm + k * 65536" unfolding k_def by (rule pages_to_grow_covers)
    moreover have "(mem_pages pm + k) * 65536 \<le> 65536 * 65536" using G by simp
    ultimately have "off = position pm + n"
      by (auto simp: off_def usize_max_def min_def pm_size_def split: if_splits)
    then show ?thesis
      using \<open>off \<le> pm_size pm + k * 65536\<close> G b pm' by (intro that [of k]) (auto simp: pm_size_def)
  next
    case False
    have size: "pm_size pm \<le> 4294967296" using pm_okD(7) [OF ok] by (simp add: pm_size_def)
    then have "position pm + n < pm_size pm"
      using False by (auto simp: off_def min_def usize_max_def split: if_splits)
    with False alloc none pm_okD(7) [OF ok] show ?thesis
      by (intro that [of 0]) (auto simp: pm_alloc_def Let_def off_def pm_size_def)
  qed
qed

lemma pm_alloc_cases:
  assumes "pm_alloc n pm = Inr (b, pm')"
  obtains (reuse) i where "scan_free 0 n (free_list pm) = Some i" "(b, pm') = pm_reuse i n pm"
  | (fresh) "scan_free 0 n (free_list pm) = None"
  using assms by (cases "scan_free 0 n (free_list pm)") (auto simp: pm_alloc_def)

lemma pm_alloc_ok:
  assumes ok: "pm_ok pm" and n: "0 < n" and alloc: "pm_alloc n pm = Inr (b, pm')"
  shows "pm_ok pm' \<and> pm_live pm' = insert (mb_offset b, n) (pm_live pm) \<and>
    mb_offset b \<notin> fst ` pm_live pm \<and> mb_length b = n"
  using alloc
proof (cases rule: pm_alloc_cases)
  case (reuse i)
  then have "b = fst (pm_reuse i n pm)" "pm' = snd (pm_reuse i n pm)"
    by (metis fst_conv, metis snd_conv)
  with pm_reuse_ok [OF ok n reuse(1)] show ?thesis by simp
next
  case fresh
  from pm_alloc_fresh [OF ok fresh alloc] obtain k
    where b: "b = \<lparr>mb_offset = position pm, mb_length = n\<rparr>"
    and pm': "pm' = pm\<lparr>mem_pages := mem_pages pm + k,
       live_blocks := (live_blocks pm)(position pm \<mapsto> n), position := position pm + n\<rparr>"
    and room: "position pm + n \<le> (mem_pages pm + k) * 65536" "mem_pages pm + k \<le> 65536"
    by blast
  note D = pm_okD [OF ok]
  let ?all = "pm_live pm \<union> free_set pm"
  have below: "block_in (position pm) c" if "c \<in> ?all" for c using D(1) that .
  then have below': "fst c + snd c \<le> position pm \<and> fst c < position pm" if "c \<in> ?all" for c
    using that by (fastforce simp: block_in_def)
  have new: "position pm \<notin> fst ` ?all"
    using below' by fastforce
  have live: "pm_live pm' = insert (position pm, n) (pm_live pm)"
    using new by (force simp: pm' pm_live_def split: if_splits)
  have frees: "free_set pm' = free_set pm" by (simp add: pm' free_set_def)
  have "block_in (position pm') c" if "c \<in> insert (position pm, n) ?all" for c
    using that below n D(5) by (fastforce simp: pm' block_in_def)
  moreover have "pairwise apart (insert (position pm, n) ?all)"
    using ok below' by (fastforce simp: pairwise_insert pm_ok_def apart_def)
  moreover have "pm_live pm' \<inter> free_set pm' = {}"
    using D(3) new by (force simp: live frees)
  ultimately have "pm_ok pm'"
    using D(4,5) room by (simp add: pm_ok_def live frees) (simp add: pm' pm_size_def)
  then show ?thesis using live new b by auto
qed

section \<open>Free\<close>

text \<open>
  Compaction keeps a free list of one block as it is; below 1 KiB of free memory there is
  none.  Beyond that it may list a merged block beside the blocks it was merged from.
\<close>

definition pm_free_ok :: "PluginMemory \<Rightarrow> nat \<Rightarrow> bool" where
  "pm_free_ok pm p =
     (case live_blocks pm p of
        None \<Rightarrow> True
      | Some l \<Rightarrow> free_size (free_list pm) + l < 1024 \<or> free_list pm = [])"

lemma pm_free_list:
  assumes "pm_free_ok pm p" "live_blocks pm p = Some l"
  shows "pm_free p pm = pm\<lparr>live_blocks := (live_blocks pm)(p := None),
    free_list := free_list pm @ [\<lparr>mb_offset = p, mb_length = l\<rparr>]\<rparr>"
  using assms by (auto simp: pm_free_ok_def pm_free_def free_size_def Let_def)

lemma pm_free_invar:
  assumes ok: "pm_ok pm" and free: "pm_free_ok pm p"
  shows "pm_ok (pm_free p pm) \<and> pm_live (pm_free p pm) = {b \<in> pm_live pm. fst b \<noteq> p}"
proof (cases "live_blocks pm p")
  case None
  then show ?thesis using ok by (auto simp: pm_free_def pm_live_def)
next
  case (Some l)
  note D = pm_okD [OF ok] and run = pm_free_list [OF free Some]
  have live: "pm_live (pm_free p pm) = {b \<in> pm_live pm. fst b \<noteq> p}"
    by (auto simp: run pm_live_def split: if_splits)
  have was: "(p, l) \<in> pm_live pm" using Some by (simp add: pm_live_def)
  have frees: "free_set (pm_free p pm) = insert (p, l) (free_set pm)"
    by (simp add: run free_set_def as_pair_def)
  have out: "(p, l) \<notin> free_set pm" using was D(3) by blast
  have sub: "pm_live (pm_free p pm) \<union> free_set (pm_free p pm) \<subseteq> pm_live pm \<union> free_set pm"
    using was live frees by auto
  have "\<lparr>mb_offset = p, mb_length = l\<rparr> \<notin> set (free_list pm)"
    using out by (force simp: free_set_def as_pair_def)
  then have "distinct (free_list (pm_free p pm))" using D(4) by (simp add: run)
  moreover have "pairwise apart (pm_live (pm_free p pm) \<union> free_set (pm_free p pm))"
    using ok sub unfolding pm_ok_def by (blast intro: pairwise_subset)
  moreover have "pm_live (pm_free p pm) \<inter> free_set (pm_free p pm) = {}"
    using D(3) by (auto simp: live frees)
  moreover have "position (pm_free p pm) = position pm" "mem_pages (pm_free p pm) = mem_pages pm"
    by (simp_all add: run)
  ultimately have "pm_ok (pm_free p pm)"
    unfolding pm_ok_def using D(1,5-7) sub by (auto simp: pm_size_def)
  then show ?thesis using live by simp
qed

section \<open>The allocator contract\<close>

definition pm_take :: "nat \<Rightarrow> PluginMemory \<Rightarrow> (nat \<times> PluginMemory) option" where
  "pm_take n pm = (case pm_alloc n pm of Inl e \<Rightarrow> None | Inr (b, pm') \<Rightarrow> Some (mb_offset b, pm'))"

lemma pm_take_SomeD:
  "pm_take n pm = Some (p, pm') \<Longrightarrow> \<exists>b. pm_alloc n pm = Inr (b, pm') \<and> mb_offset b = p"
  by (auto simp: pm_take_def split: sum.splits)

interpretation plugin: allocator pm_ok pm_live pm_take pm_free pm_free_ok
proof unfold_locales
  show "fst b \<noteq> fst c \<and> apart b c"
    if "pm_ok pm" "b \<in> pm_live pm" "c \<in> pm_live pm" "b \<noteq> c" for pm b c
    using that pm_okD(2) [OF that(1), of b c] by (auto simp: pm_live_def)
  show "pm_ok pm'" if "pm_ok pm" "0 < n" "pm_take n pm = Some (p, pm')" for pm n p pm'
    using pm_alloc_ok [OF that(1,2)] pm_take_SomeD [OF that(3)] by blast
  show "p \<notin> fst ` pm_live pm" if "pm_ok pm" "0 < n" "pm_take n pm = Some (p, pm')" for pm n p pm'
    using pm_alloc_ok [OF that(1,2)] pm_take_SomeD [OF that(3)] by blast
  show "pm_live pm' = insert (p, n) (pm_live pm)"
    if "pm_ok pm" "0 < n" "pm_take n pm = Some (p, pm')" for pm n p pm'
    using pm_alloc_ok [OF that(1,2)] pm_take_SomeD [OF that(3)] by blast
  show "pm_ok (pm_free p pm)" if "pm_ok pm" "pm_free_ok pm p" for pm p
    using pm_free_invar [OF that] ..
  show "pm_live (pm_free p pm) = {b \<in> pm_live pm. fst b \<noteq> p}"
    if "pm_ok pm" "pm_free_ok pm p" for pm p
    using pm_free_invar [OF that] ..
qed

text \<open>
  A successful allocation of \<^verbatim>\<open>PluginMemory\<close> returns a block of the requested length, within
  the memory, at an offset that was not live, and \<^verbatim>\<open>at_offset\<close> finds it afterwards.
\<close>

lemma plugin_memory_alloc:
  assumes "pm_ok pm" "0 < n" "pm_alloc n pm = Inr (b, pm')"
  shows "mb_length b = n \<and> at_offset pm' (mb_offset b) = Some b \<and> at_offset pm (mb_offset b) = None \<and>
    1 \<le> mb_offset b \<and> mb_offset b + n \<le> pm_size pm' \<and>
    to_memory_block (Of_offset (mb_offset b)) pm' = Inr b"
proof -
  note A = pm_alloc_ok [OF assms]
  have live: "(mb_offset b, n) \<in> pm_live pm'" using A by simp
  then have "block_in (position pm') (mb_offset b, n)" using pm_okD(1) A by blast
  moreover have "position pm' \<le> pm_size pm'" using pm_okD(6) A by blast
  moreover have at: "at_offset pm' (mb_offset b) = Some b"
    using live A by (cases b) (auto simp: at_offset_def block_length_def pm_live_def)
  moreover have "live_blocks pm (mb_offset b) = None"
    using A by (cases "live_blocks pm (mb_offset b)") (auto simp: pm_live_def image_iff)
  ultimately show ?thesis
    using A by (auto simp: block_in_def at_offset_def block_length_def)
qed

end
