(* ===== verification/Utf8.thy ===== *)
theory Utf8
  imports Prelude
begin

text \<open>
  The parts of Rust's \<^verbatim>\<open>str\<close> the code uses, on the bytes of a string: \<^verbatim>\<open>from_utf8\<close>, \<^verbatim>\<open>trim_start\<close>
  and \<^verbatim>\<open>starts_with\<close>.
\<close>

section \<open>Validation\<close>

definition cont :: "u8 \<Rightarrow> bool" where
  "cont b \<longleftrightarrow> 128 \<le> unat b \<and> unat b < 192"

definition cont_val :: "u8 \<Rightarrow> nat" where
  "cont_val b = unat b - 128"

text \<open>
  The next code point and the bytes behind it.  As in the standard, overlong forms,
  surrogates and code points above U+10FFFF are rejected.
\<close>

fun utf8_next :: "u8 list \<Rightarrow> (nat \<times> u8 list) option" where
  "utf8_next [] = None"
| "utf8_next (a # bs) =
     (let x = unat a in
      if x < 128 then Some (x, bs)
      else if 194 \<le> x \<and> x < 224 then
        (case bs of b # r \<Rightarrow> if cont b then Some ((x - 192) * 64 + cont_val b, r) else None
         | _ \<Rightarrow> None)
      else if 224 \<le> x \<and> x < 240 then
        (case bs of b # c # r \<Rightarrow>
             let cp = (x - 224) * 4096 + cont_val b * 64 + cont_val c
             in if cont b \<and> cont c \<and> 2048 \<le> cp \<and> \<not> (55296 \<le> cp \<and> cp < 57344)
                then Some (cp, r) else None
         | _ \<Rightarrow> None)
      else if 240 \<le> x \<and> x < 245 then
        (case bs of b # c # d # r \<Rightarrow>
             let cp = (x - 240) * 262144 + cont_val b * 4096 + cont_val c * 64 + cont_val d
             in if cont b \<and> cont c \<and> cont d \<and> 65536 \<le> cp \<and> cp < 1114112
                then Some (cp, r) else None
         | _ \<Rightarrow> None)
      else None)"

lemma utf8_next_shorter: "utf8_next bs = Some (c, r) \<Longrightarrow> length r < length bs"
  by (cases bs) (auto simp: Let_def split: if_splits list.splits)

function from_utf8_ok :: "u8 list \<Rightarrow> bool" where
  "from_utf8_ok bs =
     (bs = [] \<or> (case utf8_next bs of None \<Rightarrow> False | Some (c, r) \<Rightarrow> from_utf8_ok r))"
  by pat_completeness auto
termination
  by (relation "measure length") (auto dest: utf8_next_shorter)

declare from_utf8_ok.simps [simp del]

text \<open>ASCII text is valid.\<close>

lemma from_utf8_ascii: "list_all (\<lambda>b. unat b < 128) bs \<Longrightarrow> from_utf8_ok bs"
  by (induction bs) (simp_all add: from_utf8_ok.simps Let_def)

section \<open>Trimming and prefixes\<close>

text \<open>Unicode's \<^verbatim>\<open>White_Space\<close>.\<close>

definition white_space :: "nat \<Rightarrow> bool" where
  "white_space c \<longleftrightarrow> (9 \<le> c \<and> c \<le> 13) \<or> c = 32 \<or> c = 133 \<or> c = 160 \<or> c = 5760 \<or>
     (8192 \<le> c \<and> c \<le> 8202) \<or> c = 8232 \<or> c = 8233 \<or> c = 8239 \<or> c = 8287 \<or> c = 12288"

function trim_start :: "u8 list \<Rightarrow> u8 list" where
  "trim_start bs =
     (case utf8_next bs of
        Some (c, r) \<Rightarrow> if white_space c then trim_start r else bs
      | None \<Rightarrow> bs)"
  by pat_completeness auto
termination
  by (relation "measure length") (auto dest: utf8_next_shorter)

declare trim_start.simps [simp del]

definition starts_with :: "u8 list \<Rightarrow> u8 list \<Rightarrow> bool" where
  "starts_with s p \<longleftrightarrow> take (length p) s = p"

lemma trim_start_length: "length (trim_start bs) \<le> length bs"
proof (induction bs rule: trim_start.induct)
  case (1 bs)
  show ?case
  proof (cases "utf8_next bs")
    case (Some t)
    then show ?thesis
      using 1 utf8_next_shorter [of bs "fst t" "snd t"]
      by (subst trim_start.simps) (cases t, fastforce)
  qed (simp add: trim_start.simps)
qed

lemma trim_start_idem: "trim_start (trim_start bs) = trim_start bs"
proof (induction bs rule: trim_start.induct)
  case (1 bs)
  show ?case
  proof (cases "utf8_next bs")
    case (Some t)
    with 1 show ?thesis
      by (cases t) (simp add: trim_start.simps [of bs] trim_start.simps [of bs])
  qed (simp add: trim_start.simps)
qed

lemma trim_start_Cons_ascii:
  "unat b < 128 \<Longrightarrow> \<not> white_space (unat b) \<Longrightarrow> trim_start (b # bs) = b # bs"
  by (simp add: trim_start.simps Let_def)

text \<open>The bytes of an ASCII literal.\<close>

definition ascii :: "string \<Rightarrow> u8 list" where
  "ascii s = map (\<lambda>c. word_of_nat (of_char c)) s"

end
