(* ===== verification/Convert.thy ===== *)
theory Convert
  imports Utf8
begin

text \<open>
  The convert crate, \<^verbatim>\<open>convert/src\<close>: the encodings of the values that are passed to and from a
  plugin.  One pair of functions per instance of \<^verbatim>\<open>ToBytes\<close> and \<^verbatim>\<open>FromBytes\<close>.  A signed integer
  is an \<open>int\<close> in its range; a float is its bit pattern, which is what \<^verbatim>\<open>to_le_bytes\<close> writes.  The
  serde, base64, protobuf and bytemuck crates are parameters of the encodings that call
  them.  That a codec reads back what it writes is the contract of the locale \<open>codec\<close>.
\<close>

section \<open>Memory handles\<close>

record MemoryHandle =
  handle_offset :: u64
  handle_length :: u64

definition handle_new :: "u64 \<Rightarrow> u64 \<Rightarrow> MemoryHandle" where
  "handle_new offs l = \<lparr>handle_offset = offs, handle_length = l\<rparr>"

definition handle_null :: MemoryHandle where
  "handle_null = \<lparr>handle_offset = 0, handle_length = 0\<rparr>"

definition handle_len :: "MemoryHandle \<Rightarrow> nat" where
  "handle_len h = unat (handle_length h)"

definition handle_is_empty :: "MemoryHandle \<Rightarrow> bool" where
  "handle_is_empty h \<longleftrightarrow> handle_length h = 0"

section \<open>Instances\<close>

datatype convert_error = Try_from_slice | Utf8_error | Decode_error | Encode_error

text \<open>\<^verbatim>\<open>Vec<u8>\<close>, \<^verbatim>\<open>&[u8]\<close> and \<^verbatim>\<open>Box<[u8]>\<close>\<close>

definition bytes_to_bytes :: "u8 list \<Rightarrow> convert_error + u8 list" where
  "bytes_to_bytes v = Inr v"

definition bytes_from_bytes :: "u8 list \<Rightarrow> convert_error + u8 list" where
  "bytes_from_bytes d = Inr d"

text \<open>\<^verbatim>\<open>String\<close> and \<^verbatim>\<open>&str\<close>: a string is its bytes, which are valid UTF-8.\<close>

definition string_to_bytes :: "u8 list \<Rightarrow> convert_error + u8 list" where
  "string_to_bytes s = Inr s"

definition string_from_bytes :: "u8 list \<Rightarrow> convert_error + u8 list" where
  "string_from_bytes d = (if from_utf8_ok d then Inr d else Inl Utf8_error)"

text \<open>\<^verbatim>\<open>u64\<close>, \<^verbatim>\<open>u32\<close> and the bit patterns of \<^verbatim>\<open>f64\<close> and \<^verbatim>\<open>f32\<close>\<close>

definition u64_to_bytes :: "u64 \<Rightarrow> convert_error + u8 list" where
  "u64_to_bytes w = Inr (to_le_bytes w)"

definition u64_from_bytes :: "u8 list \<Rightarrow> convert_error + u64" where
  "u64_from_bytes d = (if length d = 8 then Inr (from_le_bytes d) else Inl Try_from_slice)"

definition u32_to_bytes :: "u32 \<Rightarrow> convert_error + u8 list" where
  "u32_to_bytes w = Inr (to_le_bytes w)"

definition u32_from_bytes :: "u8 list \<Rightarrow> convert_error + u32" where
  "u32_from_bytes d = (if length d = 4 then Inr (from_le_bytes d) else Inl Try_from_slice)"

text \<open>\<^verbatim>\<open>i64\<close> and \<^verbatim>\<open>i32\<close>\<close>

definition i64_to_bytes :: "int \<Rightarrow> convert_error + u8 list" where
  "i64_to_bytes i = Inr (to_le_bytes (word_of_int i :: u64))"

definition i64_from_bytes :: "u8 list \<Rightarrow> convert_error + int" where
  "i64_from_bytes d =
     (if length d = 8 then Inr (sint (from_le_bytes d :: u64)) else Inl Try_from_slice)"

definition i32_to_bytes :: "int \<Rightarrow> convert_error + u8 list" where
  "i32_to_bytes i = Inr (to_le_bytes (word_of_int i :: u32))"

definition i32_from_bytes :: "u8 list \<Rightarrow> convert_error + int" where
  "i32_from_bytes d =
     (if length d = 4 then Inr (sint (from_le_bytes d :: u32)) else Inl Try_from_slice)"

text \<open>\<^verbatim>\<open>f64\<close> and \<^verbatim>\<open>f32\<close>: a float is its bit pattern, which \<^verbatim>\<open>to_le_bytes\<close> writes as it stands.\<close>

definition f64_to_bytes :: "u64 \<Rightarrow> convert_error + u8 list" where
  "f64_to_bytes bits = Inr (to_le_bytes bits)"

definition f64_from_bytes :: "u8 list \<Rightarrow> convert_error + u64" where
  "f64_from_bytes d = (if length d = 8 then Inr (from_le_bytes d) else Inl Try_from_slice)"

definition f32_to_bytes :: "u32 \<Rightarrow> convert_error + u8 list" where
  "f32_to_bytes bits = Inr (to_le_bytes bits)"

definition f32_from_bytes :: "u8 list \<Rightarrow> convert_error + u32" where
  "f32_from_bytes d = (if length d = 4 then Inr (from_le_bytes d) else Inl Try_from_slice)"

text \<open>The unit type\<close>

definition unit_to_bytes :: "unit \<Rightarrow> convert_error + u8 list" where
  "unit_to_bytes u = Inr []"

definition unit_from_bytes :: "u8 list \<Rightarrow> convert_error + unit" where
  "unit_from_bytes d = Inr ()"

text \<open>\<^verbatim>\<open>Option<T>\<close>, over the instance of \<^verbatim>\<open>T\<close>\<close>

fun option_to_bytes :: "('a \<Rightarrow> 'e + u8 list) \<Rightarrow> 'a option \<Rightarrow> 'e + u8 list" where
  "option_to_bytes enc (Some x) = enc x"
| "option_to_bytes enc None = Inr []"

definition option_from_bytes :: "(u8 list \<Rightarrow> 'e + 'a) \<Rightarrow> u8 list \<Rightarrow> 'e + 'a option" where
  "option_from_bytes dec d = (if d = [] then Inr None else map_sum id Some (dec d))"

text \<open>\<^verbatim>\<open>Cursor<T>\<close>, and a reference to a \<^verbatim>\<open>T\<close>: those of \<^verbatim>\<open>T\<close>; a cursor starts at position 0.\<close>

definition cursor_from_bytes :: "(u8 list \<Rightarrow> 'e + 'a) \<Rightarrow> u8 list \<Rightarrow> 'e + ('a \<times> nat)" where
  "cursor_from_bytes dec d = map_sum id (\<lambda>x. (x, 0)) (dec d)"

definition ref_to_bytes :: "('a \<Rightarrow> 'e + u8 list) \<Rightarrow> 'a \<Rightarrow> 'e + u8 list" where
  "ref_to_bytes enc x = enc x"

text \<open>The newtypes of the \<^verbatim>\<open>encoding!\<close> macro: \<^verbatim>\<open>Json\<close> and \<^verbatim>\<open>Msgpack\<close>\<close>

definition encoded_to_bytes :: "('a \<Rightarrow> 'e + u8 list) \<Rightarrow> 'a \<Rightarrow> 'e + u8 list" where
  "encoded_to_bytes to_vec x = (case to_vec x of Inl e \<Rightarrow> Inl e | Inr enc \<Rightarrow> Inr enc)"

definition encoded_from_bytes :: "(u8 list \<Rightarrow> 'e + 'a) \<Rightarrow> u8 list \<Rightarrow> 'e + 'a" where
  "encoded_from_bytes from_slice d = (case from_slice d of Inl e \<Rightarrow> Inl e | Inr x \<Rightarrow> Inr x)"

text \<open>\<^verbatim>\<open>Base64<Vec<u8>>\<close> and \<^verbatim>\<open>Base64<String>\<close>; \<open>encode\<close> and \<open>decode\<close> are the base64 crate's.\<close>

definition base64_to_bytes :: "(u8 list \<Rightarrow> u8 list) \<Rightarrow> u8 list \<Rightarrow> convert_error + u8 list" where
  "base64_to_bytes encode v = Inr (encode v)"

definition base64_vec_from_bytes ::
    "(u8 list \<Rightarrow> u8 list option) \<Rightarrow> u8 list \<Rightarrow> convert_error + u8 list" where
  "base64_vec_from_bytes decode d =
     (case decode d of None \<Rightarrow> Inl Decode_error | Some v \<Rightarrow> Inr v)"

definition base64_string_from_bytes ::
    "(u8 list \<Rightarrow> u8 list option) \<Rightarrow> u8 list \<Rightarrow> convert_error + u8 list" where
  "base64_string_from_bytes decode d =
     (case decode d of None \<Rightarrow> Inl Decode_error
      | Some v \<Rightarrow> if from_utf8_ok v then Inr v else Inl Utf8_error)"

text \<open>
  \<^verbatim>\<open>Prost\<close>, whose encoder cannot fail, \<^verbatim>\<open>Protobuf\<close>, and \<^verbatim>\<open>Raw\<close>, over the functions of the crates:
  \<^verbatim>\<open>bytes_of\<close> views a value as bytes, \<^verbatim>\<open>try_from_bytes\<close> checks size and alignment.
\<close>

definition prost_to_bytes :: "('a \<Rightarrow> u8 list) \<Rightarrow> 'a \<Rightarrow> convert_error + u8 list" where
  "prost_to_bytes encode_to_vec x = Inr (encode_to_vec x)"

definition prost_from_bytes :: "(u8 list \<Rightarrow> 'a option) \<Rightarrow> u8 list \<Rightarrow> convert_error + 'a" where
  "prost_from_bytes decode d = (case decode d of None \<Rightarrow> Inl Decode_error | Some x \<Rightarrow> Inr x)"

definition protobuf_to_bytes :: "('a \<Rightarrow> u8 list option) \<Rightarrow> 'a \<Rightarrow> convert_error + u8 list" where
  "protobuf_to_bytes write_to_bytes x =
     (case write_to_bytes x of None \<Rightarrow> Inl Encode_error | Some bs \<Rightarrow> Inr bs)"

definition protobuf_from_bytes :: "(u8 list \<Rightarrow> 'a option) \<Rightarrow> u8 list \<Rightarrow> convert_error + 'a" where
  "protobuf_from_bytes parse_from_bytes d =
     (case parse_from_bytes d of None \<Rightarrow> Inl Decode_error | Some x \<Rightarrow> Inr x)"

definition raw_to_bytes :: "('a \<Rightarrow> u8 list) \<Rightarrow> 'a \<Rightarrow> convert_error + u8 list" where
  "raw_to_bytes bytes_of x = Inr (bytes_of x)"

definition raw_from_bytes :: "(u8 list \<Rightarrow> 'a option) \<Rightarrow> u8 list \<Rightarrow> convert_error + 'a" where
  "raw_from_bytes try_from_bytes d =
     (case try_from_bytes d of None \<Rightarrow> Inl Try_from_slice | Some x \<Rightarrow> Inr x)"

section \<open>The contract of a codec\<close>

locale codec =
  fixes good :: "'a \<Rightarrow> bool"
    and enc :: "'a \<Rightarrow> 'e + u8 list"
    and dec :: "u8 list \<Rightarrow> 'e + 'a"
  assumes round: "good x \<Longrightarrow> \<exists>bs. enc x = Inr bs \<and> dec bs = Inr x"
begin

lemma enc_inj: "good x \<Longrightarrow> good y \<Longrightarrow> enc x = enc y \<Longrightarrow> x = y"
  using round [of x] round [of y] by auto

lemma enc_not_error: "good x \<Longrightarrow> enc x \<noteq> Inl e"
  using round [of x] by auto

end

text \<open>A codec that never writes the empty sequence carries over to options.\<close>

locale nonempty_codec = codec +
  assumes nonempty: "good x \<Longrightarrow> enc x \<noteq> Inr []"

sublocale nonempty_codec \<subseteq> opt: codec "pred_option good" "option_to_bytes enc" "option_from_bytes dec"
proof unfold_locales
  fix x
  assume good: "pred_option good x"
  show "\<exists>bs. option_to_bytes enc x = Inr bs \<and> option_from_bytes dec bs = Inr x"
  proof (cases x)
    case None
    then show ?thesis by (simp add: option_from_bytes_def)
  next
    case (Some y)
    with good have y: "good y" by simp
    with round obtain bs where bs: "enc y = Inr bs" "dec bs = Inr y" by blast
    with nonempty [OF y] have "bs \<noteq> []" by auto
    with Some bs show ?thesis by (simp add: option_from_bytes_def)
  qed
qed

interpretation bytes_codec: codec "\<lambda>_. True" bytes_to_bytes bytes_from_bytes
  by unfold_locales (simp add: bytes_to_bytes_def bytes_from_bytes_def)

interpretation string_codec: codec from_utf8_ok string_to_bytes string_from_bytes
  by unfold_locales (simp add: string_to_bytes_def string_from_bytes_def)

lemma to_le_bytes_nonempty [simp]:
  "to_le_bytes (w :: u64) \<noteq> []" "to_le_bytes (v :: u32) \<noteq> []"
  using length_to_le_bytes64 [of w] length_to_le_bytes32 [of v] by (metis list.size(3) zero_neq_numeral)+

interpretation u64_codec: nonempty_codec "\<lambda>_. True" u64_to_bytes u64_from_bytes
  by unfold_locales (simp_all add: u64_to_bytes_def u64_from_bytes_def)

interpretation u32_codec: nonempty_codec "\<lambda>_. True" u32_to_bytes u32_from_bytes
  by unfold_locales (simp_all add: u32_to_bytes_def u32_from_bytes_def)

interpretation i64_codec: nonempty_codec "\<lambda>i. - (2 ^ 63) \<le> i \<and> i < 2 ^ 63" i64_to_bytes i64_from_bytes
  by unfold_locales
    (simp_all add: i64_to_bytes_def i64_from_bytes_def sint_sbintrunc' signed_take_bit_int_eq_self)

interpretation i32_codec: nonempty_codec "\<lambda>i. - (2 ^ 31) \<le> i \<and> i < 2 ^ 31" i32_to_bytes i32_from_bytes
  by unfold_locales
    (simp_all add: i32_to_bytes_def i32_from_bytes_def sint_sbintrunc' signed_take_bit_int_eq_self)

interpretation f64_codec: nonempty_codec "\<lambda>_. True" f64_to_bytes f64_from_bytes
  by unfold_locales (simp_all add: f64_to_bytes_def f64_from_bytes_def)

interpretation f32_codec: nonempty_codec "\<lambda>_. True" f32_to_bytes f32_from_bytes
  by unfold_locales (simp_all add: f32_to_bytes_def f32_from_bytes_def)

interpretation unit_codec: codec "\<lambda>_. True" unit_to_bytes unit_from_bytes
  by unfold_locales (simp add: unit_to_bytes_def unit_from_bytes_def)

section \<open>Canonical encodings\<close>

lemma canonical_words:
  "u64_from_bytes d = Inr w \<longleftrightarrow> u64_to_bytes w = Inr d" "u32_from_bytes d = Inr v \<longleftrightarrow> u32_to_bytes v = Inr d"
  "f64_from_bytes d = Inr w \<longleftrightarrow> f64_to_bytes w = Inr d" "f32_from_bytes d = Inr v \<longleftrightarrow> f32_to_bytes v = Inr d"
proof -
  have "to_le_bytes (from_le_bytes d :: u64) = d" if "length d = 8" using to_from_le_bytes64 [OF that] .
  moreover have "to_le_bytes (from_le_bytes d :: u32) = d" if "length d = 4" using to_from_le_bytes32 [OF that] .
  ultimately show "u64_from_bytes d = Inr w \<longleftrightarrow> u64_to_bytes w = Inr d" "u32_from_bytes d = Inr v \<longleftrightarrow> u32_to_bytes v = Inr d"
    "f64_from_bytes d = Inr w \<longleftrightarrow> f64_to_bytes w = Inr d" "f32_from_bytes d = Inr v \<longleftrightarrow> f32_to_bytes v = Inr d"
    by (auto simp: u64_from_bytes_def u64_to_bytes_def u32_from_bytes_def u32_to_bytes_def
        f64_from_bytes_def f64_to_bytes_def f32_from_bytes_def f32_to_bytes_def)
qed

lemma canonical_ints:
  "i64_from_bytes d = Inr i \<longleftrightarrow> i64_to_bytes i = Inr d \<and> - (2 ^ 63) \<le> i \<and> i < 2 ^ 63"
  "i32_from_bytes d = Inr i \<longleftrightarrow> i32_to_bytes i = Inr d \<and> - (2 ^ 31) \<le> i \<and> i < 2 ^ 31"
proof -
  have 64: "to_le_bytes (word_of_int (sint (from_le_bytes d :: u64)) :: u64) = d" if "length d = 8"
    using to_from_le_bytes64 [OF that] by simp
  have 32: "to_le_bytes (word_of_int (sint (from_le_bytes d :: u32)) :: u32) = d" if "length d = 4"
    using to_from_le_bytes32 [OF that] by simp
  have range: "- (2 ^ 63) \<le> sint (a :: u64) \<and> sint a < 2 ^ 63" "- (2 ^ 31) \<le> sint (b :: u32) \<and> sint b < 2 ^ 31" for a b
    using sint_greater_eq [of a] sint_lt [of a] sint_greater_eq [of b] sint_lt [of b] by simp_all
  show "i64_from_bytes d = Inr i \<longleftrightarrow> i64_to_bytes i = Inr d \<and> - (2 ^ 63) \<le> i \<and> i < 2 ^ 63"
    using 64 range(1) i64_codec.round [of i] by (auto simp: i64_from_bytes_def i64_to_bytes_def)
  show "i32_from_bytes d = Inr i \<longleftrightarrow> i32_to_bytes i = Inr d \<and> - (2 ^ 31) \<le> i \<and> i < 2 ^ 31"
    using 32 range(2) i32_codec.round [of i] by (auto simp: i32_from_bytes_def i32_to_bytes_def)
qed

lemma canonical_option:
  "option_from_bytes u64_from_bytes d = Inr ow \<longleftrightarrow> option_to_bytes u64_to_bytes ow = Inr d"
proof (cases ow)
  case None
  then show ?thesis by (auto simp: option_from_bytes_def map_sum_def split: sum.splits)
next
  case (Some w)
  then show ?thesis
    using canonical_words(1) [of d w]
    by (auto simp: option_from_bytes_def u64_to_bytes_def u64_from_bytes_def)
qed

text \<open>An optional string is read back unless it is the empty one, which reads back as none.\<close>

lemma convert_optional_string:
  "option_from_bytes string_from_bytes s =
     (if s = [] then Inr None else if from_utf8_ok s then Inr (Some s) else Inl Utf8_error)"
  by (simp add: option_from_bytes_def string_from_bytes_def)

end
