(* ===== verification/Btree.thy ===== *)
theory Btree
  imports Prelude "HOL-Library.List_Lexorder" "HOL-Library.Char_ord"
begin

text \<open>
  \<^verbatim>\<open>std::collections::BTreeMap\<close> as the code uses it: a list of bindings in strictly ascending
  key order, which is also the order of iteration.  A Rust string is the list of its UTF-8
  bytes, as characters of 8 bits, and its \<^verbatim>\<open>Ord\<close> is the lexicographic order of the bytes, as
  for \<open>string\<close> here.  The contract of a map is a locale; its lemmas on inserting many bindings
  serve every user of a map.
\<close>

section \<open>Operations\<close>

type_synonym ('k, 'v) btree = "('k \<times> 'v) list"

fun btree_get :: "('k::linorder, 'v) btree \<Rightarrow> 'k \<Rightarrow> 'v option" where
  "btree_get [] k = None"
| "btree_get ((k', v) # m) k = (if k = k' then Some v else btree_get m k)"

fun btree_insert :: "'k::linorder \<Rightarrow> 'v \<Rightarrow> ('k, 'v) btree \<Rightarrow> ('k, 'v) btree" where
  "btree_insert k v [] = [(k, v)]"
| "btree_insert k v ((k', v') # m) =
     (if k < k' then (k, v) # (k', v') # m
      else if k = k' then (k, v) # m
      else (k', v') # btree_insert k v m)"

fun btree_remove :: "'k::linorder \<Rightarrow> ('k, 'v) btree \<Rightarrow> ('k, 'v) btree" where
  "btree_remove k [] = []"
| "btree_remove k ((k', v') # m) = (if k = k' then m else (k', v') # btree_remove k m)"

definition contains_key :: "('k::linorder, 'v) btree \<Rightarrow> 'k \<Rightarrow> bool" where
  "contains_key m k \<longleftrightarrow> btree_get m k \<noteq> None"

definition btree_ok :: "('k::linorder, 'v) btree \<Rightarrow> bool" where
  "btree_ok m \<longleftrightarrow> sorted_wrt (<) (map fst m)"

section \<open>Laws\<close>

lemma btree_get_None: "k \<notin> fst ` set m \<Longrightarrow> btree_get m k = None"
  by (induction m) (auto split: if_splits)

lemma btree_get_mem: "btree_get m k = Some v \<Longrightarrow> (k, v) \<in> set m"
  by (induction m) (auto split: if_splits)

lemma btree_get_insert: "btree_get (btree_insert k v m) k' = (if k' = k then Some v else btree_get m k')"
  by (induction m) auto

lemma fst_set_btree_insert: "fst ` set (btree_insert k v m) = insert k (fst ` set m)"
proof (induction m)
  case (Cons b m)
  then show ?case by (cases b) (simp add: insert_commute)
qed simp

lemma btree_insert_ok: "btree_ok m \<Longrightarrow> btree_ok (btree_insert k v m)"
proof (induction m)
  case Nil
  then show ?case by (simp add: btree_ok_def)
next
  case (Cons b m)
  obtain k' v' where b: "b = (k', v')" by (cases b)
  have "btree_ok (btree_insert k v m)" using Cons by (simp add: btree_ok_def)
  then show ?case
    using Cons.prems b fst_set_btree_insert [of k v m]
    by (auto simp: btree_ok_def dest: less_trans)
qed

lemma btree_remove_subset: "fst ` set (btree_remove k m) \<subseteq> fst ` set m"
proof (induction m)
  case (Cons b m)
  then show ?case by (cases b) (simp, blast)
qed simp

lemma btree_remove_ok: "btree_ok m \<Longrightarrow> btree_ok (btree_remove k m)"
proof (induction m)
  case Nil
  then show ?case by (simp add: btree_ok_def)
next
  case (Cons b m)
  then show ?case
    using btree_remove_subset [of k m] by (cases b) (fastforce simp: btree_ok_def)
qed

lemma btree_get_remove:
  "btree_ok m \<Longrightarrow> btree_get (btree_remove k m) k' = (if k' = k then None else btree_get m k')"
proof (induction m)
  case Nil
  then show ?case by simp
next
  case (Cons b m)
  obtain a v where b: "b = (a, v)" by (cases b)
  have "a \<notin> fst ` set m" using Cons.prems b by (auto simp: btree_ok_def)
  then have "btree_get m a = None" by (rule btree_get_None)
  then show ?case using Cons b by (auto simp: btree_ok_def)
qed

section \<open>The contract of a map\<close>

locale ordered_map =
  fixes ok :: "'m \<Rightarrow> bool"
    and empty_map :: 'm
    and lookup :: "'m \<Rightarrow> 'k \<Rightarrow> 'v option"
    and ins :: "'k \<Rightarrow> 'v \<Rightarrow> 'm \<Rightarrow> 'm"
    and del :: "'k \<Rightarrow> 'm \<Rightarrow> 'm"
  assumes empty_ok: "ok empty_map" and lookup_empty: "lookup empty_map k = None"
    and ins_ok: "ok m \<Longrightarrow> ok (ins k v m)"
    and lookup_ins: "ok m \<Longrightarrow> lookup (ins k v m) = (lookup m)(k \<mapsto> v)"
    and del_ok: "ok m \<Longrightarrow> ok (del k m)"
    and lookup_del: "ok m \<Longrightarrow> lookup (del k m) = (lookup m)(k := None)"
begin

lemma fold_ins_ok: "ok m \<Longrightarrow> ok (fold (\<lambda>(k, v). ins k v) bs m)"
  by (induction bs arbitrary: m) (auto simp: ins_ok)

text \<open>Of several bindings of a key the last one wins.\<close>

lemma lookup_fold_ins:
  "ok m \<Longrightarrow> lookup (fold (\<lambda>(k, v). ins k v) bs m) = lookup m ++ map_of (rev bs)"
proof (induction bs arbitrary: m)
  case Nil
  then show ?case by simp
next
  case (Cons b bs)
  then show ?case
    by (cases b) (auto simp: ins_ok lookup_ins fun_eq_iff map_add_def split: option.splits)
qed

lemma ins_del_lookup: "ok m \<Longrightarrow> lookup (ins k v (del k m)) = lookup (ins k v m)"
  by (simp add: lookup_ins lookup_del del_ok)

end

interpretation btree: ordered_map btree_ok "[]" btree_get btree_insert btree_remove
  by unfold_locales
    (auto simp: btree_ok_def [of "[]"] btree_insert_ok btree_get_insert btree_remove_ok btree_get_remove)

lemmas btree_simps = btree_get_insert btree_get_remove btree_insert_ok btree_remove_ok contains_key_def

end
