(* ===== verification/Manifest.thy ===== *)
theory Manifest
  imports Btree
begin

text \<open>
  The manifest crate, \<^verbatim>\<open>manifest/src/lib.rs\<close>: the description of a plugin and its builder
  methods.  A path is the list of its components, which is how \<^verbatim>\<open>PathBuf\<close> compares.  The
  hand-written (de)serialisation of wasm data is over the base64 crate and the memory of the process.
\<close>

type_synonym path = "string list"

section \<open>Data\<close>

record MemoryOptions =
  max_pages :: "u32 option"

record HttpRequest =
  url :: string
  headers :: "(string, string) btree"
  http_method :: "string option"

record WasmMetadata =
  name :: "string option"
  hash :: "string option"

datatype Wasm =
    File path WasmMetadata
  | Data "u8 list" WasmMetadata
  | Url HttpRequest WasmMetadata

record Manifest =
  wasm :: "Wasm list"
  memory :: MemoryOptions
  config :: "(string, string) btree"
  allowed_hosts :: "string list option"
  allowed_paths :: "(path, path) btree option"
  timeout_ms :: "u64 option"

definition memory_options_default :: MemoryOptions where
  "memory_options_default = \<lparr>max_pages = None\<rparr>"

definition wasm_metadata_default :: WasmMetadata where
  "wasm_metadata_default = \<lparr>name = None, hash = None\<rparr>"

definition manifest_default :: Manifest where
  "manifest_default = \<lparr>wasm = [], memory = memory_options_default, config = [],
     allowed_hosts = None, allowed_paths = None, timeout_ms = None\<rparr>"

section \<open>Requests\<close>

definition http_request_new :: "string \<Rightarrow> HttpRequest" where
  "http_request_new u = \<lparr>url = u, headers = [], http_method = None\<rparr>"

definition with_method :: "string \<Rightarrow> HttpRequest \<Rightarrow> HttpRequest" where
  "with_method m req = req\<lparr>http_method := Some m\<rparr>"

definition with_header :: "string \<Rightarrow> string \<Rightarrow> HttpRequest \<Rightarrow> HttpRequest" where
  "with_header k v req = req\<lparr>headers := btree_insert k v (headers req)\<rparr>"

section \<open>Modules\<close>

definition wasm_from_request :: "HttpRequest \<Rightarrow> Wasm" where
  "wasm_from_request req = Url req wasm_metadata_default"

definition wasm_from_path :: "path \<Rightarrow> Wasm" where
  "wasm_from_path p = File p wasm_metadata_default"

definition wasm_from_bytes :: "u8 list \<Rightarrow> Wasm" where
  "wasm_from_bytes d = Data d wasm_metadata_default"

definition wasm_file :: "path \<Rightarrow> Wasm" where
  "wasm_file p = File p wasm_metadata_default"

definition wasm_data :: "u8 list \<Rightarrow> Wasm" where
  "wasm_data d = Data d wasm_metadata_default"

definition wasm_url :: "string \<Rightarrow> Wasm" where
  "wasm_url u = Url \<lparr>url = u, headers = [], http_method = None\<rparr> wasm_metadata_default"

definition wasm_http :: "HttpRequest \<Rightarrow> Wasm" where
  "wasm_http req = Url req wasm_metadata_default"

fun meta :: "Wasm \<Rightarrow> WasmMetadata" where
  "meta (File p m) = m"
| "meta (Data d m) = m"
| "meta (Url r m) = m"

text \<open>A write through the reference \<^verbatim>\<open>meta_mut\<close> returns.\<close>

fun meta_mut :: "(WasmMetadata \<Rightarrow> WasmMetadata) \<Rightarrow> Wasm \<Rightarrow> Wasm" where
  "meta_mut f (File p m) = File p (f m)"
| "meta_mut f (Data d m) = Data d (f m)"
| "meta_mut f (Url r m) = Url r (f m)"

definition with_name :: "string \<Rightarrow> Wasm \<Rightarrow> Wasm" where
  "with_name n w = meta_mut (\<lambda>m. m\<lparr>name := Some n\<rparr>) w"

definition with_hash :: "string \<Rightarrow> Wasm \<Rightarrow> Wasm" where
  "with_hash h w = meta_mut (\<lambda>m. m\<lparr>hash := Some h\<rparr>) w"

section \<open>Wasm data in a serialised manifest\<close>

datatype WasmDataTypes = Data_string "u8 list" | DataPtrLength u64 u64

definition wasmdata_serialize :: "(u8 list \<Rightarrow> u8 list) \<Rightarrow> u8 list \<Rightarrow> u8 list" where
  "wasmdata_serialize encode v = encode v"

fun wasmdata_deserialize ::
    "(u8 list \<Rightarrow> u8 list option) \<Rightarrow> store \<Rightarrow> WasmDataTypes \<Rightarrow> u8 list option" where
  "wasmdata_deserialize decode process_memory (Data_string s) = decode s"
| "wasmdata_deserialize decode process_memory (DataPtrLength p l) =
     Some (read_bytes process_memory (unat p) (unat l))"

section \<open>The builder of a manifest\<close>

definition manifest_new :: "Wasm list \<Rightarrow> Manifest" where
  "manifest_new ws = manifest_default\<lparr>wasm := ws\<rparr>"

definition with_wasm :: "Wasm \<Rightarrow> Manifest \<Rightarrow> Manifest" where
  "with_wasm w m = m\<lparr>wasm := wasm m @ [w]\<rparr>"

definition disallow_all_hosts :: "Manifest \<Rightarrow> Manifest" where
  "disallow_all_hosts m = m\<lparr>allowed_hosts := Some []\<rparr>"

definition with_memory_options :: "MemoryOptions \<Rightarrow> Manifest \<Rightarrow> Manifest" where
  "with_memory_options mo m = m\<lparr>memory := mo\<rparr>"

definition with_memory_max :: "u32 \<Rightarrow> Manifest \<Rightarrow> Manifest" where
  "with_memory_max k m = m\<lparr>memory := (memory m)\<lparr>max_pages := Some k\<rparr>\<rparr>"

definition with_allowed_host :: "string \<Rightarrow> Manifest \<Rightarrow> Manifest" where
  "with_allowed_host host m =
     (case allowed_hosts m of
        Some h \<Rightarrow> m\<lparr>allowed_hosts := Some (h @ [host])\<rparr>
      | None \<Rightarrow> m\<lparr>allowed_hosts := Some [host]\<rparr>)"

definition with_allowed_hosts :: "string list \<Rightarrow> Manifest \<Rightarrow> Manifest" where
  "with_allowed_hosts hosts m = m\<lparr>allowed_hosts := Some hosts\<rparr>"

definition with_allowed_path :: "path \<Rightarrow> path \<Rightarrow> Manifest \<Rightarrow> Manifest" where
  "with_allowed_path src dest m =
     (case allowed_paths m of
        Some p \<Rightarrow> m\<lparr>allowed_paths := Some (btree_insert src dest p)\<rparr>
      | None \<Rightarrow> m\<lparr>allowed_paths := Some (btree_insert src dest [])\<rparr>)"

definition with_allowed_paths :: "(path \<times> path) list \<Rightarrow> Manifest \<Rightarrow> Manifest" where
  "with_allowed_paths ps m =
     m\<lparr>allowed_paths := Some (fold (\<lambda>(k, v). btree_insert k v) ps [])\<rparr>"

definition with_config :: "(string \<times> string) list \<Rightarrow> Manifest \<Rightarrow> Manifest" where
  "with_config c m = m\<lparr>config := fold (\<lambda>(k, v). btree_insert k v) c (config m)\<rparr>"

definition with_config_key :: "string \<Rightarrow> string \<Rightarrow> Manifest \<Rightarrow> Manifest" where
  "with_config_key k v m = m\<lparr>config := btree_insert k v (config m)\<rparr>"

text \<open>\<^verbatim>\<open>timeout.as_millis() as u64\<close>: a duration is its whole milliseconds, truncated to 64 bits.\<close>

definition with_timeout :: "nat \<Rightarrow> Manifest \<Rightarrow> Manifest" where
  "with_timeout millis m = m\<lparr>timeout_ms := Some (word_of_nat millis)\<rparr>"

section \<open>Well-formed manifests\<close>

definition manifest_ok :: "Manifest \<Rightarrow> bool" where
  "manifest_ok m \<longleftrightarrow> btree_ok (config m) \<and> pred_option btree_ok (allowed_paths m)"

named_theorems builder_defs "the definitions of the builder methods"

lemmas [builder_defs] =
  manifest_new_def manifest_default_def with_wasm_def disallow_all_hosts_def
  with_memory_options_def with_memory_max_def with_allowed_host_def with_allowed_hosts_def
  with_allowed_path_def with_allowed_paths_def with_config_def with_config_key_def
  with_timeout_def

lemma btree_ok_Nil [simp]: "btree_ok []"
  by (simp add: btree_ok_def)

lemma btree_ok_single [simp]: "btree_ok [b]"
  by (simp add: btree_ok_def)

text \<open>Every builder method yields a well-formed manifest from a well-formed one.\<close>

lemma builder_ok:
  "manifest_ok (manifest_new ws)"
  "manifest_ok m \<Longrightarrow> manifest_ok (with_wasm w m)"
  "manifest_ok m \<Longrightarrow> manifest_ok (disallow_all_hosts m)"
  "manifest_ok m \<Longrightarrow> manifest_ok (with_memory_options mo m)"
  "manifest_ok m \<Longrightarrow> manifest_ok (with_memory_max k m)"
  "manifest_ok m \<Longrightarrow> manifest_ok (with_allowed_host host m)"
  "manifest_ok m \<Longrightarrow> manifest_ok (with_allowed_hosts hosts m)"
  "manifest_ok m \<Longrightarrow> manifest_ok (with_allowed_path src dest m)"
  "manifest_ok m \<Longrightarrow> manifest_ok (with_allowed_paths ps m)"
  "manifest_ok m \<Longrightarrow> manifest_ok (with_config c m)"
  "manifest_ok m \<Longrightarrow> manifest_ok (with_config_key k' v m)"
  "manifest_ok m \<Longrightarrow> manifest_ok (with_timeout t m)"
  by (auto simp: manifest_ok_def builder_defs btree_insert_ok btree.fold_ins_ok split: option.splits)

lemma meta_mut_meta: "meta (meta_mut f w) = f (meta w)"
  by (cases w) auto

text \<open>
  \<^verbatim>\<open>with_config\<close> inserts every pair, the last one of a key wins, keys that are not mentioned
  keep their value, and the map stays ordered; the rest of the manifest is as before.
\<close>

lemma manifest_with_config:
  assumes "manifest_ok m"
  shows "btree_get (config (with_config c m)) k =
      (case map_of (rev c) k of Some v \<Rightarrow> Some v | None \<Rightarrow> btree_get (config m) k) \<and>
    manifest_ok (with_config c m) \<and> with_config c m = m\<lparr>config := config (with_config c m)\<rparr>"
  using assms builder_ok(10) [OF assms] btree.lookup_fold_ins [of "config m" c]
  by (simp add: with_config_def manifest_ok_def map_add_def)

end
