(* ===== verification/Manifest_Load.thy ===== *)
theory Manifest_Load
  imports Manifest Utf8
begin

text \<open>
  Loading a plugin, \<^verbatim>\<open>runtime/src/manifest.rs\<close>: from bytes or a manifest to the map of compiled
  modules.  The compiler of wasmtime, the file system, the HTTP client, SHA-256 and the
  manifest parsers are the fields of a record the functions take; \<open>'m\<close> is the type of a
  compiled module.  The features of the crate are flags of the record.
\<close>

datatype load_error =
    Compile_error
  | Io_error
  | Http_error
  | File_disabled
  | Http_disabled
  | Hash_mismatch string string
  | Unknown_format
  | No_wasm
  | Duplicate_name string

record 'm loader =
  compile :: "u8 list \<Rightarrow> 'm option"
  runtime_wasm :: "u8 list"
  read_file :: "path \<Rightarrow> u8 list option"
  http_call :: "string \<Rightarrow> string \<Rightarrow> (string \<times> string) list \<Rightarrow> u8 list option"
  sha256 :: "u8 list \<Rightarrow> u8 list"
  toml_from_str :: "u8 list \<Rightarrow> Manifest option"
  json_from_str :: "u8 list \<Rightarrow> Manifest option"
  register_filesystem :: bool
  register_http :: bool

datatype WasmInput =
    Input_data "u8 list"
  | Input_manifest Manifest
  | Input_manifest_ref Manifest

definition MAIN_KEY :: string where
  "MAIN_KEY = ''main''"

definition EXTISM_ENV_MODULE :: string where
  "EXTISM_ENV_MODULE = ''extism:host/env''"

section \<open>Hashes\<close>

definition hex_digit :: "nat \<Rightarrow> char" where
  "hex_digit d = ''0123456789abcdef'' ! d"

definition hex :: "u8 list \<Rightarrow> string" where
  "hex data = concat (map (\<lambda>b. [hex_digit (unat b div 16), hex_digit (unat b mod 16)]) data)"

definition check_hash :: "'m loader \<Rightarrow> string option \<Rightarrow> u8 list \<Rightarrow> load_error + string option" where
  "check_hash L h data =
     (case h of
        None \<Rightarrow> Inr None
      | Some h \<Rightarrow>
          let digest = sha256 L data;
              hx = hex digest
          in if hx \<noteq> h then Inl (Hash_mismatch hx h) else Inr (Some hx))"

section \<open>One module\<close>

definition module_new :: "'m loader \<Rightarrow> u8 list \<Rightarrow> load_error + 'm" where
  "module_new L data = (case compile L data of None \<Rightarrow> Inl Compile_error | Some m \<Rightarrow> Inr m)"

definition name_of_module :: "WasmMetadata \<Rightarrow> string" where
  "name_of_module m = (case name m of None \<Rightarrow> MAIN_KEY | Some n \<Rightarrow> n)"

text \<open>The common end of the three cases: check the hash, then compile.\<close>

definition checked_module :: "'m loader \<Rightarrow> WasmMetadata \<Rightarrow> u8 list \<Rightarrow> load_error + (string \<times> 'm)" where
  "checked_module L m data =
     (case check_hash L (hash m) data of
        Inl e \<Rightarrow> Inl e
      | Inr h \<Rightarrow> map_sum id (Pair (name_of_module m)) (module_new L data))"

fun to_module :: "'m loader \<Rightarrow> Wasm \<Rightarrow> load_error + (string \<times> 'm)" where
  "to_module L (File p m) =
     (if \<not> register_filesystem L then Inl File_disabled
      else (case read_file L p of
              None \<Rightarrow> Inl Io_error
            | Some buf \<Rightarrow> checked_module L m buf))"
| "to_module L (Data d m) = checked_module L m d"
| "to_module L (Url req m) =
     (if \<not> register_http L then Inl Http_disabled
      else (case http_call L (case http_method req of None \<Rightarrow> ''GET'' | Some v \<Rightarrow> v) (url req) (headers req) of
              None \<Rightarrow> Inl Http_error
            | Some data \<Rightarrow> checked_module L m data))"

section \<open>The modules of a manifest\<close>

fun modules_loop ::
    "'m loader \<Rightarrow> nat \<Rightarrow> nat \<Rightarrow> Wasm list \<Rightarrow> (string, 'm) btree \<Rightarrow> load_error + (string, 'm) btree"
where
  "modules_loop L nmods i [] mods = Inr mods"
| "modules_loop L nmods i (f # fs) mods =
     (case to_module L f of
        Inl e \<Rightarrow> Inl e
      | Inr (n, m) \<Rightarrow>
          let n = (if i = nmods - 1 \<and> \<not> contains_key mods MAIN_KEY then MAIN_KEY else n)
          in if contains_key mods n then Inl (Duplicate_name n)
             else modules_loop L nmods (Suc i) fs (btree_insert n m mods))"

definition modules :: "'m loader \<Rightarrow> Manifest \<Rightarrow> (string, 'm) btree \<Rightarrow> load_error + (string, 'm) btree" where
  "modules L manifest mods =
     (case wasm manifest of
        [] \<Rightarrow> Inl No_wasm
      | [w] \<Rightarrow>
          (case to_module L w of
             Inl e \<Rightarrow> Inl e
           | Inr (_, m) \<Rightarrow> Inr (btree_insert MAIN_KEY m mods))
      | ws \<Rightarrow> modules_loop L (length ws) 0 ws mods)"

section \<open>Loading\<close>

definition WASM_MAGIC :: "u8 list" where
  "WASM_MAGIC = [0, 0x61, 0x73, 0x6d]"

text \<open>
  \<^verbatim>\<open>s\<close> is trimmed, but the test for a leading parenthesis reads the first byte of the
  untrimmed data.
\<close>

definition is_wat :: "u8 list \<Rightarrow> bool" where
  "is_wat data =
     (from_utf8_ok data \<and>
      (let s = trim_start data;
           starts_with_module = 2 < length s \<and> hd data = 40 \<and>
             starts_with (trim_start (drop 1 s)) (ascii ''module'')
       in starts_with_module \<or> starts_with s (ascii '';;'') \<or> starts_with s (ascii ''(;'')))"

definition load ::
    "'m loader \<Rightarrow> WasmInput \<Rightarrow> load_error + (Manifest \<times> (string, 'm) btree)" where
  "load L input =
     (case module_new L (runtime_wasm L) of
        Inl e \<Rightarrow> Inl e
      | Inr env \<Rightarrow>
          let mods = btree_insert EXTISM_ENV_MODULE env [];
              with_modules = (\<lambda>t. map_sum id (Pair t) (modules L t mods))
          in (case input of
                Input_data data \<Rightarrow>
                  let has_magic = (4 \<le> length data \<and> take 4 data = WASM_MAGIC)
                  in if \<not> has_magic \<and> \<not> is_wat data \<and> from_utf8_ok data
                     then (case toml_from_str L data of
                             Some t \<Rightarrow> with_modules t
                           | None \<Rightarrow>
                               (case json_from_str L data of
                                  Some t \<Rightarrow> with_modules t
                                | None \<Rightarrow> Inl Unknown_format))
                     else (case module_new L data of
                             Inl e \<Rightarrow> Inl e
                           | Inr m \<Rightarrow> Inr (manifest_default, btree_insert MAIN_KEY m mods))
              | Input_manifest m \<Rightarrow> with_modules m
              | Input_manifest_ref m \<Rightarrow> with_modules m))"

section \<open>Lemmas\<close>

lemma hex_digit_inj: "i < 16 \<Longrightarrow> j < 16 \<Longrightarrow> hex_digit i = hex_digit j \<Longrightarrow> i = j"
proof -
  have "distinct ''0123456789abcdef''" by simp
  then show "i < 16 \<Longrightarrow> j < 16 \<Longrightarrow> hex_digit i = hex_digit j \<Longrightarrow> i = j"
    unfolding hex_digit_def by (subst (asm) nth_eq_iff_index_eq) simp_all
qed

lemma hex_byte_inj:
  assumes "hex_digit (unat (a :: u8) div 16) = hex_digit (unat b div 16)"
    "hex_digit (unat a mod 16) = hex_digit (unat (b :: u8) mod 16)"
  shows "a = b"
proof -
  have "unat a div 16 = unat b div 16"
    using assms(1) unat_u8_less [of a] unat_u8_less [of b] by (intro hex_digit_inj) simp_all
  moreover have "unat a mod 16 = unat b mod 16"
    using assms(2) by (intro hex_digit_inj) simp_all
  ultimately have "unat a = unat b" by (metis div_mult_mod_eq)
  then show ?thesis by (simp add: word_unat_eq_iff)
qed

lemma hex_Cons: "hex (b # bs) = hex_digit (unat b div 16) # hex_digit (unat b mod 16) # hex bs"
  by (simp add: hex_def)

lemma hex_inj_aux: "hex xs = hex ys \<Longrightarrow> xs = ys"
proof (induction xs arbitrary: ys)
  case Nil
  then show ?case by (cases ys) (simp_all add: hex_def)
next
  case (Cons x xs)
  then obtain y ys' where ys: "ys = y # ys'" by (cases ys) (simp_all add: hex_def)
  with Cons.prems have "x = y" using hex_byte_inj by (simp add: hex_Cons)
  moreover have "xs = ys'" using Cons.prems ys by (intro Cons.IH) (simp add: hex_Cons)
  ultimately show ?case using ys by simp
qed

lemma length_hex: "length (hex xs) = 2 * length xs"
  by (induction xs) (simp_all add: hex_def)

lemma check_hash_InrD: "check_hash L (Some h) data = Inr r \<Longrightarrow> hex (sha256 L data) = h"
  by (simp add: check_hash_def Let_def split: if_splits)

text \<open>The bytes a module is compiled from.\<close>

fun module_bytes :: "'m loader \<Rightarrow> Wasm \<Rightarrow> u8 list option" where
  "module_bytes L (File p m) = read_file L p"
| "module_bytes L (Data d m) = Some d"
| "module_bytes L (Url req m) =
     http_call L (case http_method req of None \<Rightarrow> ''GET'' | Some v \<Rightarrow> v) (url req) (headers req)"

lemma to_module_InrD:
  assumes "to_module L w = Inr (n, m)"
  shows "n = name_of_module (meta w) \<and> (\<exists>d. module_bytes L w = Some d \<and> compile L d = Some m \<and>
    (\<forall>h. hash (meta w) = Some h \<longrightarrow> hex (sha256 L d) = h))"
proof -
  have checked: "n = name_of_module x \<and> compile L d = Some m \<and>
      (\<forall>h. hash x = Some h \<longrightarrow> hex (sha256 L d) = h)"
    if "checked_module L x d = Inr (n, m)" for x d
    using that check_hash_InrD [of L _ d]
    by (cases "hash x") (auto simp: checked_module_def module_new_def split: sum.splits option.splits)
  show ?thesis
    using assms by (cases w) (auto dest!: checked split: if_splits option.splits)
qed

text \<open>What a successful run of the loop has done to the map.\<close>

lemma contains_insert: "contains_key (btree_insert k v m) k' \<longleftrightarrow> k' = k \<or> contains_key m k'"
  by (simp add: contains_key_def btree_get_insert)

lemma length_btree_insert:
  "\<not> contains_key m k \<Longrightarrow> length (btree_insert k v m) = Suc (length m)"
  by (induction m) (auto simp: contains_key_def split: if_splits)

lemma modules_loop_ok:
  assumes "modules_loop L nmods i fs mods = Inr mods'" "btree_ok mods"
  shows "btree_ok mods' \<and> length mods' = length mods + length fs \<and>
    (\<forall>k v. btree_get mods k = Some v \<longrightarrow> btree_get mods' k = Some v) \<and>
    (\<forall>w \<in> set fs. \<exists>r. to_module L w = Inr r) \<and>
    (fs \<noteq> [] \<and> i + length fs = nmods \<longrightarrow> contains_key mods' MAIN_KEY)"
  using assms
proof (induction fs arbitrary: i mods)
  case Nil
  then show ?case by simp
next
  case (Cons f fs)
  obtain n0 m where f: "to_module L f = Inr (n0, m)"
    using Cons.prems(1) by (auto split: sum.splits)
  define n where "n = (if i = nmods - 1 \<and> \<not> contains_key mods MAIN_KEY then MAIN_KEY else n0)"
  have new: "\<not> contains_key mods n"
    and rest: "modules_loop L nmods (Suc i) fs (btree_insert n m mods) = Inr mods'"
    using Cons.prems(1) f unfolding n_def by (auto simp: Let_def split: if_splits)
  note IH = Cons.IH [OF rest btree_insert_ok [OF Cons.prems(2)]]
  have main: "contains_key mods' MAIN_KEY" if "i + length (f # fs) = nmods"
  proof (cases "fs = []")
    case True
    with that rest have "mods' = btree_insert n m mods" "i = nmods - 1" by simp_all
    then show ?thesis using n_def by (auto simp: contains_insert)
  next
    case False
    with that IH show ?thesis by simp
  qed
  have keeps: "btree_get mods' k = Some v" if "btree_get mods k = Some v" for k v
    using that IH new by (cases "k = n") (auto simp: btree_get_insert contains_key_def)
  show ?case
    using IH main f length_btree_insert [OF new] keeps by auto
qed

text \<open>What every successful run of \<open>modules\<close> has done to the map.\<close>

lemma modules_ok:
  assumes "modules L t mods = Inr mods'" "btree_ok mods" "\<not> contains_key mods MAIN_KEY"
  shows "btree_ok mods' \<and> length mods' = length mods + length (wasm t) \<and>
    (\<forall>k v. btree_get mods k = Some v \<longrightarrow> btree_get mods' k = Some v) \<and>
    (\<forall>w \<in> set (wasm t). \<exists>r. to_module L w = Inr r) \<and> contains_key mods' MAIN_KEY"
proof (cases "wasm t")
  case Nil
  with assms show ?thesis by (simp add: modules_def)
next
  case (Cons w ws)
  show ?thesis
  proof (cases ws)
    case Nil
    with assms Cons length_btree_insert [OF assms(3)] show ?thesis
      by (auto simp: modules_def contains_insert btree_get_insert btree_insert_ok contains_key_def
          split: sum.splits)
  next
    case (Cons w' ws')
    with \<open>wasm t = w # ws\<close> assms(1)
    have "modules_loop L (length (wasm t)) 0 (wasm t) mods = Inr mods'"
      by (simp add: modules_def)
    with modules_loop_ok [OF this assms(2)] \<open>wasm t = w # ws\<close> show ?thesis by simp
  qed
qed

text \<open>What a successful load yields.\<close>

lemma load_ok:
  assumes "load L input = Inr (t, mods)"
  shows "contains_key mods MAIN_KEY \<and> btree_get mods EXTISM_ENV_MODULE = compile L (runtime_wasm L) \<and>
    btree_ok mods \<and> 1 < length mods \<and>
    (length mods = 1 + length (wasm t) \<and> (\<forall>w \<in> set (wasm t). module_bytes L w \<noteq> None) \<or>
     t = manifest_default \<and> length mods = 2)"
proof -
  obtain env where env: "compile L (runtime_wasm L) = Some env"
    using assms by (cases "compile L (runtime_wasm L)") (auto simp: load_def module_new_def)
  let ?mods = "[(EXTISM_ENV_MODULE, env)]"
  have ne: "MAIN_KEY \<noteq> EXTISM_ENV_MODULE" by (simp add: MAIN_KEY_def EXTISM_ENV_MODULE_def)
  have many: ?thesis if mm: "modules L t' ?mods = Inr mods" "t' = t" for t'
  proof -
    have "length mods = 1 + length (wasm t)"
      "\<forall>k v. btree_get ?mods k = Some v \<longrightarrow> btree_get mods k = Some v"
      "\<forall>w \<in> set (wasm t). \<exists>r. to_module L w = Inr r" "contains_key mods MAIN_KEY" "btree_ok mods"
      using modules_ok [OF mm(1)] mm(2) ne by (auto simp: btree_ok_def contains_key_def)
    moreover have "module_bytes L w \<noteq> None" if "\<exists>r. to_module L w = Inr r" for w
      using that to_module_InrD [of L w] by fastforce
    moreover have "wasm t \<noteq> []" using mm by (auto simp: modules_def)
    ultimately show ?thesis using env by auto
  qed
  have raw: ?thesis if "mods = btree_insert MAIN_KEY m ?mods" "t = manifest_default" for m
    using that env ne by (auto simp: contains_key_def btree_get_insert btree_insert_ok btree_ok_def)
  have sum: "map_sum id (Pair t') r = Inr (t, mods) \<longleftrightarrow> r = Inr mods \<and> t' = t" for t' and r :: "load_error + (string, 'a) btree"
    by (cases r) auto
  show ?thesis
    using assms env many raw
    by (auto simp: load_def module_new_def Let_def sum split: WasmInput.splits if_splits option.splits)
qed

text \<open>
  Of three or more modules the first two may not share a name, nor may both go without one:
  loading then fails with the name that is taken twice.
\<close>

lemma load_duplicate_names:
  assumes "wasm t = w1 # w2 # w3 # ws" "name_of_module (meta w1) = name_of_module (meta w2)"
    and "to_module L w1 = Inr r1" "to_module L w2 = Inr r2"
    and "name_of_module (meta w1) \<noteq> EXTISM_ENV_MODULE" "compile L (runtime_wasm L) = Some env"
  shows "load L (Input_manifest_ref t) = Inl (Duplicate_name (name_of_module (meta w1)))"
proof -
  obtain m1 m2 where r: "to_module L w1 = Inr (name_of_module (meta w1), m1)"
    "to_module L w2 = Inr (name_of_module (meta w1), m2)"
    using assms(2-4) to_module_InrD [of L w1 "fst r1" "snd r1"] to_module_InrD [of L w2 "fst r2" "snd r2"]
    by (cases r1; cases r2) auto
  show ?thesis
    using r assms(1,5,6)
    by (simp add: load_def module_new_def modules_def contains_key_def btree_get_insert Let_def)
qed

end
