(* ===== verification/Current_Plugin.thy ===== *)
theory Current_Plugin
  imports Kernel_Total Plugin_Memory Convert Manifest_Load
begin

text \<open>
  \<^verbatim>\<open>CurrentPlugin\<close>, \<^verbatim>\<open>runtime/src/current_plugin.rs\<close>: the data of a plugin a host function
  reaches, and its access to the memory the kernel manages.  A call of a kernel function
  goes through the linker, by name: it may be missing, and it may trap.

  An operation of the host returns a value, returns an error, or reads or writes outside the
  memory through a raw slice, which the source leaves undefined (\<open>Fault\<close>); an operation that
  never returns is \<open>None\<close>.
\<close>

section \<open>The memory limiter\<close>

record MemoryLimiter =
  bytes_left :: nat
  max_bytes :: nat

definition limiter_reset :: "MemoryLimiter \<Rightarrow> MemoryLimiter" where
  "limiter_reset l = l\<lparr>bytes_left := max_bytes l\<rparr>"

datatype limiter_answer = Oom | Answer bool

definition memory_growing ::
    "nat \<Rightarrow> nat \<Rightarrow> nat option \<Rightarrow> MemoryLimiter \<Rightarrow> limiter_answer \<times> MemoryLimiter" where
  "memory_growing current desired maximum l =
     (if (case maximum of None \<Rightarrow> False | Some mx \<Rightarrow> mx \<le> desired) then (Oom, l)
      else let d = desired - current
           in if bytes_left l < d then (Oom, l)
              else (Answer True, l\<lparr>bytes_left := bytes_left l - d\<rparr>))"

definition table_growing :: "u32 \<Rightarrow> u32 \<Rightarrow> u32 option \<Rightarrow> bool" where
  "table_growing current desired maximum =
     (case maximum of Some mx \<Rightarrow> desired \<le> mx | None \<Rightarrow> True)"

section \<open>State\<close>

type_synonym u16 = "16 word"

record Wasi =
  wasi_env :: "(string \<times> string) list"
  wasi_preopens :: "(path \<times> path) list"
  wasi_inherit :: bool

text \<open>
  \<open>linked\<close> are the names the linker has for the kernel module; \<open>engine_growth\<close> is what the
  engine itself says to a growth of the kernel memory that the limiter does not veto.
  \<open>memory_export\<close> is the allocator of a plugin that exports its own memory, or a null pointer.
\<close>

record CurrentPlugin =
  vars :: "(string, u8 list) btree"
  manifest :: Manifest
  wasi :: "Wasi option"
  http_status :: u16
  available_pages :: "u32 option"
  memory_limiter :: "MemoryLimiter option"
  kernel_memory :: wasm_mem
  linked :: "string list"
  engine_growth :: "nat \<Rightarrow> nat \<Rightarrow> grow_verdict"
  memory_export :: "PluginMemory option"

datatype host_error =
    Kernel_missing string
  | Kernel_trap string
  | Out_of_memory
  | No_memory
  | Bad_utf8
  | Convert_failed convert_error
  | Invalid_offset u64
  | Length_mismatch
  | Wasi_failed
  | Message string

datatype 'a hres = Done 'a | Err host_error | Fault

type_synonym 'a host = "CurrentPlugin \<Rightarrow> ('a hres \<times> CurrentPlugin) option"

definition hret :: "'a \<Rightarrow> 'a host" where
  "hret x cp = Some (Done x, cp)"

definition herr :: "host_error \<Rightarrow> 'a host" where
  "herr e cp = Some (Err e, cp)"

definition hbind :: "'a host \<Rightarrow> ('a \<Rightarrow> 'b host) \<Rightarrow> 'b host" where
  "hbind f g cp =
     (case f cp of
        None \<Rightarrow> None
      | Some (r, cp') \<Rightarrow>
          (case r of Done x \<Rightarrow> g x cp' | Err e \<Rightarrow> Some (Err e, cp') | Fault \<Rightarrow> Some (Fault, cp')))"

text \<open>\<^verbatim>\<open>unwrap_or_default\<close> and friends: an error becomes a value.\<close>

definition hcatch :: "'a host \<Rightarrow> 'a \<Rightarrow> 'a host" where
  "hcatch f d cp =
     (case f cp of Some (Err e, cp') \<Rightarrow> Some (Done d, cp') | r \<Rightarrow> r)"

named_theorems host_simps "evaluation laws of host operations"

lemma hret_apply [host_simps]: "hret x cp = Some (Done x, cp)" by (simp add: hret_def)
lemma herr_apply [host_simps]: "herr e cp = Some (Err e, cp)" by (simp add: herr_def)
lemma hbind_Done [host_simps]: "f cp = Some (Done x, cp') \<Longrightarrow> hbind f g cp = g x cp'"
  by (simp add: hbind_def)
lemma hbind_Err [host_simps]: "f cp = Some (Err e, cp') \<Longrightarrow> hbind f g cp = Some (Err e, cp')"
  by (simp add: hbind_def)
lemma hcatch_Done [host_simps]: "f cp = Some (Done x, cp') \<Longrightarrow> hcatch f d cp = Some (Done x, cp')"
  by (simp add: hcatch_def)
lemma hcatch_Err [host_simps]: "f cp = Some (Err e, cp') \<Longrightarrow> hcatch f d cp = Some (Done d, cp')"
  by (simp add: hcatch_def)

lemma hbind_DoneE:
  assumes "hbind f g cp = Some (Done y, cp2)"
  obtains x cp1 where "f cp = Some (Done x, cp1)" "g x cp1 = Some (Done y, cp2)"
  using assms by (auto simp: hbind_def split: option.splits hres.splits)

section \<open>Creation\<close>

text \<open>\<^verbatim>\<open>ctx.env\<close> and \<^verbatim>\<open>open_ambient_dir\<close> may fail; \<open>env_output\<close> is \<^verbatim>\<open>EXTISM_ENABLE_WASI_OUTPUT\<close>.\<close>

definition current_plugin_new ::
    "(string \<times> string \<Rightarrow> bool) \<Rightarrow> (path \<Rightarrow> bool) \<Rightarrow> bool \<Rightarrow> Manifest \<Rightarrow> bool \<Rightarrow> u32 option \<Rightarrow>
     wasm_mem \<Rightarrow> string list \<Rightarrow> (nat \<Rightarrow> nat \<Rightarrow> grow_verdict) \<Rightarrow> host_error + CurrentPlugin" where
  "current_plugin_new env_ok dir_ok env_output m with_wasi avail mem names eng =
     (let paths = (case allowed_paths m of None \<Rightarrow> [] | Some a \<Rightarrow> a);
          w = (if with_wasi
               then (if list_all env_ok (config m) \<and> list_all (dir_ok \<circ> fst) paths
                     then Inr (Some \<lparr>wasi_env = config m, wasi_preopens = paths, wasi_inherit = env_output\<rparr>)
                     else Inl Wasi_failed)
               else Inr None)
      in map_sum id
          (\<lambda>w. \<lparr>vars = [], manifest = m, wasi = w, http_status = 0, available_pages = avail,
             memory_limiter = map_option (\<lambda>pgs. let n = unat pgs * 65536
                                               in \<lparr>bytes_left = n, max_bytes = n\<rparr>) avail,
             kernel_memory = mem, linked = names, engine_growth = eng,
             memory_export = None\<rparr>) w)"

section \<open>Calling the kernel\<close>

text \<open>The verdict on a growth of the kernel memory, which declares no maximum.\<close>

definition growth_verdict :: "CurrentPlugin \<Rightarrow> nat \<Rightarrow> nat \<Rightarrow> grow_verdict" where
  "growth_verdict cp cur n =
     (case memory_limiter cp of
        None \<Rightarrow> engine_growth cp cur n
      | Some l \<Rightarrow>
          (case fst (memory_growing (cur * 65536) ((cur + n) * 65536) None l) of
             Oom \<Rightarrow> Grow_trap
           | Answer ok \<Rightarrow> if ok then engine_growth cp cur n else Refused))"

definition charge :: "nat \<Rightarrow> nat \<Rightarrow> MemoryLimiter option \<Rightarrow> MemoryLimiter option" where
  "charge before after l =
     map_option (\<lambda>l. snd (memory_growing (before * 65536) (after * 65536) None l)) l"

definition kernel_fn :: "string \<Rightarrow> host_error \<Rightarrow> 'a wasm \<Rightarrow> 'a host" where
  "kernel_fn n missing f cp =
     (if n \<notin> set (linked cp) then Some (Err missing, cp)
      else (case f ((kernel_memory cp)\<lparr>growth := growth_verdict cp\<rparr>) of
              None \<Rightarrow> None
            | Some Trap \<Rightarrow> Some (Err (Kernel_trap n), cp)
            | Some (Ret (x, m)) \<Rightarrow>
                Some (Done x, cp\<lparr>kernel_memory := m,
                  memory_limiter := charge (pages (kernel_memory cp)) (pages m) (memory_limiter cp)\<rparr>)))"

definition memory_length :: "u64 \<Rightarrow> u64 host" where
  "memory_length offs = kernel_fn ''length'' (Kernel_missing ''length'') (k_length offs)"

definition memory_length_unsafe :: "u64 \<Rightarrow> u64 host" where
  "memory_length_unsafe offs =
     kernel_fn ''length_unsafe'' (Kernel_missing ''length_unsafe'') (k_length_unsafe offs)"

definition memory_free :: "MemoryHandle \<Rightarrow> unit host" where
  "memory_free h = kernel_fn ''free'' (Kernel_missing ''free'') (k_free (handle_offset h))"

definition memory_alloc :: "u64 \<Rightarrow> MemoryHandle host" where
  "memory_alloc n =
     (if n = 0 then hret \<lparr>handle_offset = 0, handle_length = 0\<rparr>
      else hbind (kernel_fn ''alloc'' (Kernel_missing ''alloc'') (k_alloc n)) (\<lambda>offs.
           if offs = 0 then herr Out_of_memory
           else hret \<lparr>handle_offset = offs, handle_length = n\<rparr>))"

section \<open>Access to the bytes\<close>

definition handle_in_memory :: "MemoryHandle \<Rightarrow> CurrentPlugin \<Rightarrow> bool" where
  "handle_in_memory h cp \<longleftrightarrow> unat (handle_offset h) + handle_len h \<le> mem_size (kernel_memory cp)"

definition memory_bytes :: "MemoryHandle \<Rightarrow> u8 list host" where
  "memory_bytes h cp =
     (if ''memory'' \<notin> set (linked cp) then Some (Err No_memory, cp)
      else if handle_in_memory h cp
      then Some (Done (read_bytes (bytes (kernel_memory cp)) (unat (handle_offset h)) (handle_len h)), cp)
      else Some (Fault, cp))"

text \<open>\<^verbatim>\<open>memory_bytes_mut\<close> and the \<^verbatim>\<open>copy_from_slice\<close> into it, which panics on a length mismatch.\<close>

definition memory_bytes_mut_copy :: "MemoryHandle \<Rightarrow> u8 list \<Rightarrow> unit host" where
  "memory_bytes_mut_copy h data cp =
     (if ''memory'' \<notin> set (linked cp) then Some (Err No_memory, cp)
      else if \<not> handle_in_memory h cp then Some (Fault, cp)
      else if length data \<noteq> handle_len h then Some (Err Length_mismatch, cp)
      else Some (Done (), cp\<lparr>kernel_memory := (kernel_memory cp)
             \<lparr>bytes := write_bytes (bytes (kernel_memory cp)) (unat (handle_offset h)) data\<rparr>\<rparr>))"

definition memory_str :: "MemoryHandle \<Rightarrow> u8 list host" where
  "memory_str h = hbind (memory_bytes h) (\<lambda>bs. if from_utf8_ok bs then hret bs else herr Bad_utf8)"

text \<open>A write through the \<^verbatim>\<open>&mut str\<close> of \<^verbatim>\<open>memory_str_mut\<close>, which keeps its length.\<close>

definition memory_str_mut :: "(u8 list \<Rightarrow> u8 list) \<Rightarrow> MemoryHandle \<Rightarrow> unit host" where
  "memory_str_mut f h =
     hbind (memory_bytes h) (\<lambda>bs. if from_utf8_ok bs then memory_bytes_mut_copy h (f bs) else herr Bad_utf8)"

definition memory_new :: "convert_error + u8 list \<Rightarrow> MemoryHandle host" where
  "memory_new encoded =
     (case encoded of
        Inl e \<Rightarrow> herr (Convert_failed e)
      | Inr data \<Rightarrow>
          if data = [] then hret handle_null
          else hbind (memory_alloc (word_of_nat (length data))) (\<lambda>handle.
               hbind (memory_bytes_mut_copy handle data) (\<lambda>_. hret handle)))"

definition memory_handle :: "u64 \<Rightarrow> MemoryHandle option host" where
  "memory_handle offs =
     (if offs = 0 then hret (Some handle_null)
      else hbind (hcatch (memory_length offs) 0) (\<lambda>l.
           if l = 0 then hret None
           else hret (Some \<lparr>handle_offset = offs, handle_length = l\<rparr>)))"

definition decoded :: "convert_error + 'a \<Rightarrow> 'a host" where
  "decoded r = (case r of Inl e \<Rightarrow> herr (Convert_failed e) | Inr x \<Rightarrow> hret x)"

definition memory_get :: "(u8 list \<Rightarrow> convert_error + 'a) \<Rightarrow> MemoryHandle \<Rightarrow> 'a host" where
  "memory_get from_bytes h = hbind (memory_bytes h) (\<lambda>d. decoded (from_bytes d))"

section \<open>Wasm values\<close>

datatype Val = I32 u32 | I64 u64 | F32 u32 | F64 u64 | V128 nat | FuncRef | ExternRef

fun val_i64 :: "Val \<Rightarrow> u64 option" where
  "val_i64 (I64 v) = Some v"
| "val_i64 _ = None"

fun val_i32 :: "Val \<Rightarrow> u32 option" where
  "val_i32 (I32 v) = Some v"
| "val_i32 _ = None"

definition memory_get_val :: "(u8 list \<Rightarrow> convert_error + 'a) \<Rightarrow> Val \<Rightarrow> 'a host" where
  "memory_get_val from_bytes v =
     (let offs = (case val_i64 v of Some x \<Rightarrow> x | None \<Rightarrow> 0)
      in hbind (memory_handle offs) (\<lambda>h.
         case h of
           Some handle \<Rightarrow> hbind (memory_bytes handle) (\<lambda>d. decoded (from_bytes d))
         | None \<Rightarrow> herr (Invalid_offset offs)))"

definition memory_set_val :: "convert_error + u8 list \<Rightarrow> Val host" where
  "memory_set_val encoded = hbind (memory_new encoded) (\<lambda>mem. hret (I64 (handle_offset mem)))"

definition memory_from_val :: "Val \<Rightarrow> MemoryHandle option host" where
  "memory_from_val v =
     (case val_i64 v of
        None \<Rightarrow> hret None
      | Some offs \<Rightarrow>
          hbind (hcatch (memory_length offs) 0) (\<lambda>l.
            if l = 0 then hret None
            else hret (Some \<lparr>handle_offset = offs, handle_length = l\<rparr>)))"

definition memory_to_val :: "MemoryHandle \<Rightarrow> Val" where
  "memory_to_val h = I64 (handle_offset h)"

section \<open>The error register\<close>

definition clear_error :: "unit host" where
  "clear_error cp =
     (if ''error_set'' \<notin> set (linked cp) then Some (Done (), cp)
      else hcatch (kernel_fn ''error_set'' (Kernel_missing ''error_set'') (k_error_set 0)) () cp)"

definition set_error_msg :: "u8 list \<Rightarrow> (u64 \<times> u64) host" where
  "set_error_msg s =
     hbind (memory_new (string_to_bytes s)) (\<lambda>handle.
     hbind (kernel_fn ''error_set'' (Kernel_missing ''error_set'') (k_error_set (handle_offset handle)))
       (\<lambda>_. hret (handle_offset handle, word_of_nat (length s))))"

definition get_error_position :: "(u64 \<times> u64) host" where
  "get_error_position cp =
     (let then_length = (\<lambda>offs. hbind (hcatch (memory_length offs) 0) (\<lambda>l. hret (offs, l)))
      in if ''error_get'' \<notin> set (linked cp) then then_length 0 cp
         else (case kernel_fn ''error_get'' (Kernel_missing ''error_get'') k_error_get cp of
                 None \<Rightarrow> None
               | Some (Done offs, cp') \<Rightarrow> then_length offs cp'
               | Some (Err e, cp') \<Rightarrow> Some (Done (0, 0), cp')
               | Some (Fault, cp') \<Rightarrow> Some (Fault, cp')))"

definition get_error_msg :: "u8 list option host" where
  "get_error_msg =
     hbind get_error_position (\<lambda>(offs, l).
     if offs = 0 then hret None
     else hcatch (hbind (memory_str \<lparr>handle_offset = offs, handle_length = l\<rparr>) (\<lambda>s. hret (Some s))) None)"

end
