(* ===== verification/Plugin_Laws.thy ===== *)
theory Plugin_Laws
  imports Current_Plugin
begin

text \<open>
  What the host may rely on when it works with the memory of a plugin: on a well-formed
  kernel heap, every access through a handle obtained from the runtime stays within the
  memory, and what is written is read back.
\<close>

section \<open>Well-formed plugins\<close>

definition kernel_exports :: "string list" where
  "kernel_exports = [''memory'', ''alloc'', ''free'', ''length'', ''length_unsafe'', ''reset'',
     ''input_set'', ''error_set'', ''error_get'', ''output_offset'', ''output_length'']"

definition cp_ok :: "CurrentPlugin \<Rightarrow> heap \<Rightarrow> bool" where
  "cp_ok cp h \<longleftrightarrow> heap_repr (kernel_memory cp) h \<and> set kernel_exports \<subseteq> set (linked cp)"

lemma cp_okD:
  assumes "cp_ok cp h"
  shows "heap_repr (kernel_memory cp) h"
    "''memory'' \<in> set (linked cp)" "''alloc'' \<in> set (linked cp)" "''free'' \<in> set (linked cp)"
    "''length'' \<in> set (linked cp)" "''length_unsafe'' \<in> set (linked cp)"
    "''reset'' \<in> set (linked cp)" "''input_set'' \<in> set (linked cp)"
    "''error_set'' \<in> set (linked cp)" "''error_get'' \<in> set (linked cp)"
    "''output_offset'' \<in> set (linked cp)" "''output_length'' \<in> set (linked cp)"
  using assms by (auto simp: cp_ok_def kernel_exports_def)

lemma heap_repr_growth [simp]: "heap_repr (m\<lparr>growth := g\<rparr>) h = heap_repr m h"
  by (simp add: heap_repr_def mem_size_def)

lemma kernel_fn_Ret:
  assumes "n \<in> set (linked cp)"
    "f ((kernel_memory cp)\<lparr>growth := growth_verdict cp\<rparr>) = Some (Ret (x, m))"
  shows "kernel_fn n e f cp = Some (Done x, cp\<lparr>kernel_memory := m,
    memory_limiter := charge (pages (kernel_memory cp)) (pages m) (memory_limiter cp)\<rparr>)"
  using assms by (simp add: kernel_fn_def)

lemma kernel_fn_Trap:
  assumes "n \<in> set (linked cp)"
    "f ((kernel_memory cp)\<lparr>growth := growth_verdict cp\<rparr>) = Some Trap"
  shows "kernel_fn n e f cp = Some (Err (Kernel_trap n), cp)"
  using assms by (simp add: kernel_fn_def)

text \<open>
  Two states that differ in what a kernel call may change without changing the heap: the
  limiter and the growth verdict that was in force.
\<close>

definition same_heap :: "CurrentPlugin \<Rightarrow> CurrentPlugin \<Rightarrow> bool" where
  "same_heap cp cp' \<longleftrightarrow> linked cp' = linked cp \<and> vars cp' = vars cp \<and> manifest cp' = manifest cp \<and>
     http_status cp' = http_status cp \<and> bytes (kernel_memory cp') = bytes (kernel_memory cp) \<and>
     pages (kernel_memory cp') = pages (kernel_memory cp)"

lemma same_heap_refl [simp]: "same_heap cp cp"
  by (simp add: same_heap_def)

lemma same_heap_trans: "same_heap a b \<Longrightarrow> same_heap b c \<Longrightarrow> same_heap a c"
  by (simp add: same_heap_def)

lemma same_heap_repr: "same_heap cp cp' \<Longrightarrow> heap_repr (kernel_memory cp') h = heap_repr (kernel_memory cp) h"
  by (simp add: same_heap_def heap_repr_def mem_size_def)

lemma same_heap_ok: "same_heap cp cp' \<Longrightarrow> cp_ok cp' h = cp_ok cp h"
  using same_heap_repr [of cp cp' h] by (simp add: cp_ok_def) (simp add: same_heap_def)

lemma same_heap_bytes:
  "same_heap cp cp' \<Longrightarrow> \<exists>r. memory_bytes hdl cp = Some (r, cp) \<and> memory_bytes hdl cp' = Some (r, cp')"
  by (auto simp: same_heap_def memory_bytes_def handle_in_memory_def mem_size_def)

section \<open>Lookups\<close>

definition in_heap :: "heap \<Rightarrow> u64 \<Rightarrow> nat \<Rightarrow> bool" where
  "in_heap h offs n \<longleftrightarrow> (\<exists>xs x ys. heap_find h (unat offs) = Some (xs, x, ys) \<and> bused x = n)"

lemma in_heap_bounds:
  assumes "heap_repr m h" "in_heap h offs n"
  shows "77 \<le> unat offs" "unat offs + n \<le> mem_size m" "n < 4294967296" "0 \<le> n"
proof -
  from assms(2) obtain xs x ys where find: "heap_find h (unat offs) = Some (xs, x, ys)" "bused x = n"
    by (auto simp: in_heap_def)
  note found = heap_find_SomeD [OF find(1)]
  have "bused x \<le> bsize x"
    using heap_reprD(1) [OF assms(1)] found(1) by (auto simp: heap_ok_def blk_ok_def)
  then show "unat offs + n \<le> mem_size m" "n < 4294967296"
    using found find heap_okD [OF heap_reprD(1) [OF assms(1)]] heap_reprD(3) [OF assms(1)] by auto
  show "77 \<le> unat offs" using found(3) by simp
qed simp

lemma memory_length_run:
  assumes ok: "cp_ok cp h" and pages: "pages (kernel_memory cp) < 65536"
  shows "\<exists>cp'. same_heap cp cp' \<and>
    ((\<exists>n. in_heap h offs n \<and> memory_length offs cp = Some (Done (word_of_nat n), cp')) \<or>
     heap_find h (unat offs) = None \<and>
       (memory_length offs cp = Some (Done 0, cp') \<or>
        memory_length offs cp = Some (Err (Kernel_trap ''length''), cp')))"
proof -
  let ?m = "(kernel_memory cp)\<lparr>growth := growth_verdict cp\<rparr>"
  let ?cp = "cp\<lparr>kernel_memory := ?m, memory_limiter :=
    charge (pages (kernel_memory cp)) (pages (kernel_memory cp)) (memory_limiter cp)\<rparr>"
  have w: "word_of_nat (unat offs) = offs" by simp
  have same: "same_heap cp ?cp" by (simp add: same_heap_def)
  have run: "memory_length offs cp = Some (Done l, ?cp)" if "k_length offs ?m = Some (Ret (l, ?m))" for l
    using kernel_fn_Ret [OF cp_okD(5) [OF ok], of "k_length offs"] that by (simp add: memory_length_def)
  have trap: "memory_length offs cp = Some (Err (Kernel_trap ''length''), cp)"
    if "k_length offs ?m = Some Trap"
    using kernel_fn_Trap [OF cp_okD(5) [OF ok], of "k_length offs"] that by (simp add: memory_length_def)
  consider (found) xs x ys where "heap_find h (unat offs) = Some (xs, x, ys)"
      "k_length offs ?m = Some (Ret (word_of_nat (bused x), ?m))"
    | (none) "heap_find h (unat offs) = None" "k_length offs ?m = Some (Ret (0, ?m))"
    | (trap) "heap_find h (unat offs) = None" "k_length offs ?m = Some Trap"
    using k_length_total [of ?m h "unat offs"] cp_okD(1) [OF ok] pages unat_u64_less [of offs] w by auto
  then show ?thesis
  proof cases
    case found
    then have "in_heap h offs (bused x)" by (auto simp: in_heap_def)
    with run found(2) same show ?thesis by blast
  next
    case none
    with run same show ?thesis by blast
  next
    case trap
    with \<open>k_length offs ?m = Some Trap \<Longrightarrow> _\<close> show ?thesis by (auto intro!: exI [of _ cp])
  qed
qed

text \<open>
  \<^verbatim>\<open>memory_handle\<close> never faults: it returns the null handle, the handle of a block, or none.
\<close>

lemma memory_handle_run:
  assumes ok: "cp_ok cp h" and pages: "pages (kernel_memory cp) < 65536"
  shows "\<exists>r cp'. memory_handle offs cp = Some (Done r, cp') \<and> same_heap cp cp' \<and>
    (case r of
       None \<Rightarrow> offs \<noteq> 0 \<and> (\<forall>n. in_heap h offs n \<longrightarrow> n = 0)
     | Some hdl \<Rightarrow> handle_offset hdl = offs \<and>
         (offs = 0 \<and> handle_length hdl = 0 \<or> in_heap h offs (handle_len hdl) \<and> 0 < handle_len hdl))"
proof (cases "offs = 0")
  case True
  then show ?thesis by (simp add: memory_handle_def host_simps handle_null_def)
next
  case False
  obtain cp' where same: "same_heap cp cp'"
    and cases: "(\<exists>n. in_heap h offs n \<and> memory_length offs cp = Some (Done (word_of_nat n), cp')) \<or>
     heap_find h (unat offs) = None \<and>
       (memory_length offs cp = Some (Done 0, cp') \<or>
        memory_length offs cp = Some (Err (Kernel_trap ''length''), cp'))"
    using memory_length_run [OF assms] by blast
  show ?thesis
  proof (cases "\<exists>n. in_heap h offs n \<and> memory_length offs cp = Some (Done (word_of_nat n), cp')")
    case True
    then obtain n where n: "in_heap h offs n" "memory_length offs cp = Some (Done (word_of_nat n), cp')"
      by blast
    have small: "n < 18446744073709551616" using in_heap_bounds(3) [OF cp_okD(1) [OF ok] n(1)] by simp
    have unique: "k = n" if "in_heap h offs k" for k using that n(1) by (auto simp: in_heap_def)
    have zero: "(word_of_nat n :: u64) = 0 \<longleftrightarrow> n = 0" using small nat64_eq [of n 0] by simp
    show ?thesis
    proof (cases "n = 0")
      case True
      with False n same unique show ?thesis
        by (auto simp: memory_handle_def hbind_def hcatch_def hret_def)
    next
      case nz: False
      with False n same small zero show ?thesis
        by (auto simp: memory_handle_def hbind_def hcatch_def hret_def handle_len_def word_nat)
    qed
  next
    case none: False
    then have "\<forall>n. \<not> in_heap h offs n" using cases by (auto simp: in_heap_def)
    with False none cases same show ?thesis
      by (auto simp: memory_handle_def hbind_def hcatch_def hret_def)
  qed
qed

lemma block_bytes_ok:
  assumes "cp_ok cp h" "handle_offset hdl = 0 \<and> handle_length hdl = 0 \<or> in_heap h (handle_offset hdl) (handle_len hdl)"
  shows "memory_bytes hdl cp =
    Some (Done (read_bytes (bytes (kernel_memory cp)) (unat (handle_offset hdl)) (handle_len hdl)), cp)"
  using assms in_heap_bounds(2) [OF cp_okD(1) [OF assms(1)]] cp_okD(2) [OF assms(1)]
  by (auto simp: memory_bytes_def handle_in_memory_def handle_len_def)

section \<open>Writing new blocks\<close>

text \<open>Allocation through the host: a block, or an error and nothing changed.\<close>

lemma memory_alloc_run:
  assumes ok: "cp_ok cp h" and n: "0 < n" "n < 4294967296"
  shows "(\<exists>cp' h' p. memory_alloc (word_of_nat n) cp =
        Some (Done \<lparr>handle_offset = word_of_nat p, handle_length = word_of_nat n\<rparr>, cp') \<and>
      heap_take (growth_verdict cp) n h = Some (p, h') \<and> cp_ok cp' h' \<and> 77 \<le> p \<and>
      linked cp' = linked cp \<and> vars cp' = vars cp \<and> manifest cp' = manifest cp \<and>
      http_status cp' = http_status cp \<and>
      (\<forall>i. in_active 65 (h_blocks h) i \<longrightarrow> bytes (kernel_memory cp') i = bytes (kernel_memory cp) i))
    \<or> (\<exists>e cp'. memory_alloc (word_of_nat n) cp = Some (Err e, cp') \<and> cp_ok cp' h \<and>
        heap_take (growth_verdict cp) n h = None \<and>
        vars cp' = vars cp \<and> manifest cp' = manifest cp \<and>
        (\<forall>i. in_active 65 (h_blocks h) i \<longrightarrow> bytes (kernel_memory cp') i = bytes (kernel_memory cp) i))"
proof -
  let ?m = "(kernel_memory cp)\<lparr>growth := growth_verdict cp\<rparr>"
  let ?g = "growth_verdict cp"
  have repr: "heap_repr ?m h" using cp_okD(1) [OF ok] by simp
  have nz: "(word_of_nat n :: u64) \<noteq> 0" using n nat64_eq [of n 0] by simp
  have agrees: "alloc_agrees h ?m (k_alloc (word_of_nat n) ?m) (heap_alloc ?g n h)"
    using k_alloc_refines_heap [OF repr n] by simp
  show ?thesis
  proof (cases "heap_alloc ?g n h")
    case Trap
    with agrees have "k_alloc (word_of_nat n) ?m = Some Trap" by (simp add: alloc_agrees_def)
    with kernel_fn_Trap [OF cp_okD(3) [OF ok], of "k_alloc (word_of_nat n)"] nz ok show ?thesis
      by (auto simp: memory_alloc_def hbind_def heap_take_def Trap)
  next
    case (Ret r)
    obtain p h' where r: "r = (p, h')" by (cases r)
    with agrees Ret obtain m' where run: "k_alloc (word_of_nat n) ?m = Some (Ret (word_of_nat p, m'))"
      and repr': "heap_repr m' h'"
      and same: "\<forall>i. in_active 65 (h_blocks h) i \<longrightarrow> bytes m' i = bytes (kernel_memory cp) i"
      by (auto simp: alloc_agrees_def)
    note fn = kernel_fn_Ret [OF cp_okD(3) [OF ok], of "k_alloc (word_of_nat n)", OF run]
    show ?thesis
    proof (cases "p = 0")
      case True
      then have "h' = h"
        using Ret r by (auto simp: heap_alloc_def Let_def split: option.splits if_splits grow_verdict.splits)
      with True fn nz repr' same ok show ?thesis
        by (intro disjI2) (auto simp: memory_alloc_def hbind_def herr_def cp_ok_def heap_take_def Ret r)
    next
      case False
      then have take: "heap_take ?g n h = Some (p, h')" using Ret r by (simp add: heap_take_def)
      have "(p, n) \<in> heap_live h'"
        using heap_take_live [OF heap_reprD(1) [OF repr] n(1) take] by simp
      then obtain xs x ys where find: "heap_find h' p = Some (xs, x, ys)"
        using heap_find_live [OF heap_reprD(1) [OF repr']] by blast
      have p: "77 \<le> p" "p < 18446744073709551616"
        using heap_find_SomeD(3) [OF find] found_bound [OF repr' find] by auto
      then have "(word_of_nat p :: u64) \<noteq> 0" using nat64_eq [of p 0] by simp
      with fn nz repr' same ok take p show ?thesis
        by (intro disjI1) (auto simp: memory_alloc_def hbind_def hret_def cp_ok_def)
    qed
  qed
qed

text \<open>The bytes of a live block are those of an active one.\<close>

lemma live_active:
  assumes "heap_ok h" "(q, k) \<in> heap_live h" "q \<le> i" "i < q + k"
  shows "in_active 65 (h_blocks h) i"
proof -
  from assms(1,2) obtain xs x ys where find: "heap_find h q = Some (xs, x, ys)" "bused x = k"
    using heap_find_live by blast
  have "bused x \<le> bsize x"
    using assms(1) heap_find_SomeD(1) [OF find(1)] by (auto simp: heap_ok_def blk_ok_def)
  then show ?thesis using block_range_active [OF find(1) assms(3)] assms(4) find(2) by simp
qed

lemma live_in_heap: "heap_ok h \<Longrightarrow> (unat p, n) \<in> heap_live h \<Longrightarrow> in_heap h p n"
  using heap_find_live by (auto simp: in_heap_def)

definition keeps_blocks :: "heap \<Rightarrow> CurrentPlugin \<Rightarrow> CurrentPlugin \<Rightarrow> bool" where
  "keeps_blocks h cp cp' \<longleftrightarrow>
     (\<forall>(q, k) \<in> heap_live h. read_bytes (bytes (kernel_memory cp')) q k =
        read_bytes (bytes (kernel_memory cp)) q k)"

lemma keeps_blocksI:
  assumes "heap_ok h"
    and "\<And>i. in_active 65 (h_blocks h) i \<Longrightarrow> bytes (kernel_memory cp') i = bytes (kernel_memory cp) i"
  shows "keeps_blocks h cp cp'"
  using assms live_active by (auto simp: keeps_blocks_def intro!: read_bytes_cong)

text \<open>What a successful \<^verbatim>\<open>memory_new\<close> leaves behind.\<close>

definition stored :: "CurrentPlugin \<Rightarrow> heap \<Rightarrow> u8 list \<Rightarrow> MemoryHandle \<Rightarrow> CurrentPlugin \<Rightarrow> heap \<Rightarrow> bool" where
  "stored cp h data hdl cp' h' \<longleftrightarrow> data \<noteq> [] \<and>
     heap_take (growth_verdict cp) (length data) h = Some (unat (handle_offset hdl), h') \<and>
     handle_len hdl = length data \<and> cp_ok cp' h' \<and> linked cp' = linked cp \<and>
     vars cp' = vars cp \<and> manifest cp' = manifest cp \<and> http_status cp' = http_status cp \<and>
     in_heap h' (handle_offset hdl) (length data) \<and> handle_offset hdl \<noteq> 0 \<and>
     read_bytes (bytes (kernel_memory cp')) (unat (handle_offset hdl)) (length data) = data \<and>
     keeps_blocks h cp cp'"

lemma memory_new_run:
  assumes ok: "cp_ok cp h" and data: "data \<noteq> []" "length data < 4294967296"
  shows "(\<exists>hdl cp' h'. memory_new (Inr data) cp = Some (Done hdl, cp') \<and> stored cp h data hdl cp' h')
    \<or> (\<exists>e cp'. memory_new (Inr data) cp = Some (Err e, cp') \<and> cp_ok cp' h \<and> keeps_blocks h cp cp' \<and>
        heap_take (growth_verdict cp) (length data) h = None \<and> vars cp' = vars cp \<and> manifest cp' = manifest cp)"
proof -
  have hok: "heap_ok h" using heap_reprD(1) [OF cp_okD(1) [OF ok]] .
  have n: "0 < length data" using data(1) by simp
  from memory_alloc_run [OF ok n data(2)] show ?thesis
  proof (elim disjE exE conjE)
    fix cp1 h' p
    assume alloc: "memory_alloc (word_of_nat (length data)) cp =
        Some (Done \<lparr>handle_offset = word_of_nat p, handle_length = word_of_nat (length data)\<rparr>, cp1)"
      and take: "heap_take (growth_verdict cp) (length data) h = Some (p, h')"
      and ok1: "cp_ok cp1 h'" and p77: "77 \<le> p"
      and rest: "linked cp1 = linked cp" "vars cp1 = vars cp" "manifest cp1 = manifest cp"
        "http_status cp1 = http_status cp"
      and same: "\<forall>i. in_active 65 (h_blocks h) i \<longrightarrow> bytes (kernel_memory cp1) i = bytes (kernel_memory cp) i"
    define hdl where "hdl = \<lparr>handle_offset = word_of_nat p :: u64, handle_length = word_of_nat (length data)\<rparr>"
    let ?f = "write_bytes (bytes (kernel_memory cp1)) p data"
    define cp2 where "cp2 = cp1\<lparr>kernel_memory := (kernel_memory cp1)\<lparr>bytes := ?f\<rparr>\<rparr>"
    have hok': "heap_ok h'" using heap_reprD(1) [OF cp_okD(1) [OF ok1]] .
    have live: "heap_live h' = insert (p, length data) (heap_live h)" "p \<notin> fst ` heap_live h"
      using heap_take_live [OF hok n take] by auto
    have heap: "(p, length data) \<in> heap_live h'" using live by simp
    then have found: "heap_find h' p \<noteq> None" using heap_find_live [OF hok'] by blast
    have small: "p < 18446744073709551616"
      using found found_bound [OF cp_okD(1) [OF ok1]] by blast
    then have up: "unat (word_of_nat p :: u64) = p" by (simp add: unat_nat64)
    have ln: "handle_len hdl = length data" using data(2) by (simp add: hdl_def handle_len_def word_nat)
    have inh: "in_heap h' (word_of_nat p) (length data)" using live_in_heap [OF hok'] heap up by simp
    have "handle_in_memory hdl cp1"
      using in_heap_bounds(2) [OF cp_okD(1) [OF ok1] inh] up ln by (simp add: handle_in_memory_def hdl_def)
    then have copy: "memory_bytes_mut_copy hdl data cp1 = Some (Done (), cp2)"
      using ln cp_okD(2) [OF ok1] up by (simp add: memory_bytes_mut_copy_def cp2_def hdl_def)
    have run: "memory_new (Inr data) cp = Some (Done hdl, cp2)"
      using data(1) alloc copy by (simp add: memory_new_def hbind_def hret_def hdl_def)
    have out: "?f i = bytes (kernel_memory cp1) i" if "\<not> in_active 65 (h_blocks h') i" for i
      using that live_active [OF hok' heap, of i] by (auto simp: write_bytes_def)
    have ok2: "cp_ok cp2 h'"
      using heap_repr_data [OF cp_okD(1) [OF ok1] out] ok1 by (simp add: cp_ok_def cp2_def)
    have keep: "keeps_blocks h cp cp2"
    proof (unfold keeps_blocks_def, intro ballI, clarify)
      fix q k
      assume qk: "(q, k) \<in> heap_live h"
      have ap: "apart (p, length data) (q, k)"
        using kernel.alloc_apart [OF hok n take qk] .
      show "read_bytes (bytes (kernel_memory cp2)) q k = read_bytes (bytes (kernel_memory cp)) q k"
      proof (rule read_bytes_cong)
        fix i
        assume i: "q \<le> i" "i < q + k"
        then have "?f i = bytes (kernel_memory cp1) i"
          using ap by (auto simp: apart_def write_bytes_def)
        with same live_active [OF hok qk i] show "bytes (kernel_memory cp2) i = bytes (kernel_memory cp) i"
          by (simp add: cp2_def)
      qed
    qed
    have "read_bytes (bytes (kernel_memory cp2)) p (length data) = data"
      by (simp add: cp2_def read_write_same)
    moreover have "(word_of_nat p :: u64) \<noteq> 0" using small p77 nat64_eq [of p 0] by simp
    ultimately have "stored cp h data hdl cp2 h'"
      unfolding stored_def using data(1) take up ln ok2 rest inh keep by (simp add: hdl_def cp2_def)
    with run show ?thesis by blast
  next
    fix e cp1
    assume err: "memory_alloc (word_of_nat (length data)) cp = Some (Err e, cp1)" "cp_ok cp1 h"
      "heap_take (growth_verdict cp) (length data) h = None"
      "vars cp1 = vars cp" "manifest cp1 = manifest cp"
      "\<forall>i. in_active 65 (h_blocks h) i \<longrightarrow> bytes (kernel_memory cp1) i = bytes (kernel_memory cp) i"
    have "memory_new (Inr data) cp = Some (Err e, cp1)"
      using err(1) data(1) by (simp add: memory_new_def hbind_def)
    moreover have "keeps_blocks h cp cp1" using err(6) by (intro keeps_blocksI [OF hok]) simp
    ultimately show ?thesis using err by blast
  qed
qed

text \<open>A stored value is read back through its handle.\<close>

lemma stored_bytes:
  assumes "stored cp h data hdl cp' h'"
  shows "memory_bytes hdl cp' = Some (Done data, cp')"
  using assms block_bytes_ok [of cp' h' hdl] by (auto simp: stored_def)

text \<open>And what was stored before is still there.\<close>

lemma stored_keeps:
  assumes st: "stored cp h data hdl cp' h'" and ok: "cp_ok cp h"
    and "in_heap h (handle_offset old) (handle_len old)"
    and "memory_bytes old cp = Some (Done d, cp)"
  shows "memory_bytes old cp' = Some (Done d, cp')"
proof -
  have hok: "heap_ok h" "heap_ok h'"
    using heap_reprD(1) cp_okD(1) ok st by (auto simp: stored_def)
  have live: "(unat (handle_offset old), handle_len old) \<in> heap_live h"
    using assms(3) heap_find_live [OF hok(1)] by (auto simp: in_heap_def)
  have "data \<noteq> []" using st by (simp add: stored_def)
  then have pos: "0 < length data" by simp
  have "heap_take (growth_verdict cp) (length data) h = Some (unat (handle_offset hdl), h')"
    using st by (simp add: stored_def)
  from heap_take_live [OF hok(1) pos this] live
  have "(unat (handle_offset old), handle_len old) \<in> heap_live h'" by simp
  then have "in_heap h' (handle_offset old) (handle_len old)" by (rule live_in_heap [OF hok(2)])
  moreover have "read_bytes (bytes (kernel_memory cp')) (unat (handle_offset old)) (handle_len old) =
      read_bytes (bytes (kernel_memory cp)) (unat (handle_offset old)) (handle_len old)"
    using st live by (auto simp: stored_def keeps_blocks_def)
  ultimately show ?thesis
    using block_bytes_ok [OF ok, of old] block_bytes_ok [of cp' h' old] assms(3,4) st
    by (auto simp: stored_def)
qed

section \<open>The limiter\<close>

lemma heap_alloc_pages:
  assumes "heap_alloc g n h = Ret (p, h')"
  shows "\<exists>np. h_pages h' = h_pages h + np \<and> (np = 0 \<or> g (h_pages h) np = Grown)"
  using assms
  by (auto simp: heap_alloc_def heap_push_def heap_grow_def Let_def
      split: option.splits if_splits grow_verdict.splits)

lemma limiter_grown:
  assumes "memory_limiter cp = Some l" "growth_verdict cp cur np = Grown"
  shows "np * 65536 \<le> bytes_left l"
  using assms
  by (auto simp: growth_verdict_def memory_growing_def Let_def distrib_right
      split: limiter_answer.splits if_splits)

lemma charge_pages:
  assumes "np * 65536 \<le> bytes_left l"
  shows "charge cur (cur + np) (Some l) = Some (l\<lparr>bytes_left := bytes_left l - np * 65536\<rparr>)"
  using assms by (simp add: charge_def memory_growing_def Let_def distrib_right)

text \<open>Every byte by which an allocation grows the memory is taken off the limiter's budget.\<close>

lemma memory_alloc_limited:
  assumes ok: "cp_ok cp h" and n: "0 < n" "n < 4294967296" and lim: "memory_limiter cp = Some l"
    and run: "memory_alloc (word_of_nat n) cp = Some (r, cp')"
  shows "\<exists>l'. memory_limiter cp' = Some l' \<and> max_bytes l' = max_bytes l \<and>
    pages (kernel_memory cp) \<le> pages (kernel_memory cp') \<and>
    bytes_left l' + (pages (kernel_memory cp') - pages (kernel_memory cp)) * 65536 = bytes_left l"
proof -
  let ?m = "(kernel_memory cp)\<lparr>growth := growth_verdict cp\<rparr>"
  have repr: "heap_repr ?m h" using cp_okD(1) [OF ok] by simp
  have nz: "(word_of_nat n :: u64) \<noteq> 0" using n nat64_eq [of n 0] by simp
  have agrees: "alloc_agrees h ?m (k_alloc (word_of_nat n) ?m) (heap_alloc (growth_verdict cp) n h)"
    using k_alloc_refines_heap [OF repr n] by simp
  show ?thesis
  proof (cases "heap_alloc (growth_verdict cp) n h")
    case Trap
    with agrees have "k_alloc (word_of_nat n) ?m = Some Trap" by (simp add: alloc_agrees_def)
    with kernel_fn_Trap [OF cp_okD(3) [OF ok], of "k_alloc (word_of_nat n)"] nz run lim show ?thesis
      by (auto simp: memory_alloc_def hbind_def)
  next
    case (Ret q)
    obtain p h' where q: "q = (p, h')" by (cases q)
    with agrees Ret obtain m' where alloc: "k_alloc (word_of_nat n) ?m = Some (Ret (word_of_nat p, m'))"
      and repr': "heap_repr m' h'" by (auto simp: alloc_agrees_def)
    from heap_alloc_pages Ret q obtain np where np: "h_pages h' = h_pages h + np"
      "np = 0 \<or> growth_verdict cp (h_pages h) np = Grown" by blast
    have le: "np * 65536 \<le> bytes_left l" using np(2) limiter_grown [OF lim] by auto
    have pages: "pages m' = pages (kernel_memory cp) + np"
      using np(1) heap_reprD(2) [OF repr] heap_reprD(2) [OF repr'] by simp
    have cp': "kernel_memory cp' = m' \<and>
        memory_limiter cp' = charge (pages (kernel_memory cp)) (pages m') (memory_limiter cp)"
      using run nz kernel_fn_Ret [OF cp_okD(3) [OF ok], of "k_alloc (word_of_nat n)", OF alloc]
      by (auto simp: memory_alloc_def hbind_def herr_def hret_def split: if_splits)
    then show ?thesis using charge_pages [OF le] lim pages le by simp
  qed
qed

end
