(* ===== verification/Pdk.thy ===== *)
theory Pdk
  imports Plugin_Laws
begin

text \<open>
  The host functions every plugin may import, \<^verbatim>\<open>runtime/src/pdk.rs\<close>: configuration, variables,
  HTTP and logging.  A host function takes the wasm arguments and returns the wasm results.
  The JSON and URL parsers, the glob matcher and the HTTP client are the fields of a record.
\<close>

section \<open>Arguments\<close>

text \<open>A string is its bytes; as a key of a map it is the same bytes as characters.\<close>

definition str_of :: "u8 list \<Rightarrow> string" where
  "str_of bs = map (\<lambda>b. char_of (unat b)) bs"

definition bytes_of :: "string \<Rightarrow> u8 list" where
  "bytes_of s = map (\<lambda>c. word_of_nat (of_char c)) s"

text \<open>The macro \<^verbatim>\<open>args!\<close> at type \<^verbatim>\<open>i64\<close>; indexing past the arguments panics.\<close>

definition arg_i64 :: "Val list \<Rightarrow> nat \<Rightarrow> u64 host" where
  "arg_i64 input i =
     (if length input \<le> i then herr (Message ''index out of bounds'')
      else (case val_i64 (input ! i) of
              Some x \<Rightarrow> hret x
            | None \<Rightarrow> herr (Message ''Invalid input type'')))"

definition handle_or :: "u64 \<Rightarrow> MemoryHandle host" where
  "handle_or offs =
     hbind (memory_handle offs) (\<lambda>h. case h of Some handle \<Rightarrow> hret handle | None \<Rightarrow> herr (Invalid_offset offs))"

section \<open>Configuration and variables\<close>

definition config_get :: "Val list \<Rightarrow> Val list host" where
  "config_get input =
     hbind (arg_i64 input 0) (\<lambda>offset.
     hbind (handle_or offset) (\<lambda>handle.
     hbind (memory_str handle) (\<lambda>key cp.
       case btree_get (config (manifest cp)) (str_of key) of
         Some v \<Rightarrow> hbind (memory_new (Inr (bytes_of v))) (\<lambda>mem. hret [I64 (handle_offset mem)]) cp
       | None \<Rightarrow> hret [I64 0] cp)))"

definition var_get :: "Val list \<Rightarrow> Val list host" where
  "var_get input =
     hbind (arg_i64 input 0) (\<lambda>offset.
     hbind (handle_or offset) (\<lambda>handle.
     hbind (memory_str handle) (\<lambda>key cp.
       case btree_get (vars cp) (str_of key) of
         Some v \<Rightarrow> hbind (memory_new (Inr v)) (\<lambda>mem. hret [I64 (handle_offset mem)]) cp
       | None \<Rightarrow> hret [I64 0] cp)))"

definition vars_size :: "CurrentPlugin \<Rightarrow> nat" where
  "vars_size cp = sum_list (map (\<lambda>(k, v). length v) (vars cp))"

definition var_limit :: nat where
  "var_limit = 1024 * 1024 * 100"

definition put_vars :: "(string, u8 list) btree \<Rightarrow> Val list host" where
  "put_vars vs cp = Some (Done [], cp\<lparr>vars := vs\<rparr>)"

definition var_set :: "Val list \<Rightarrow> Val list host" where
  "var_set input cp0 =
     (let sz = vars_size cp0
      in hbind (arg_i64 input 1) (\<lambda>voffset.
         if var_limit < sz \<and> voffset \<noteq> 0 then herr (Message ''Variable store is full'')
         else hbind (arg_i64 input 0) (\<lambda>key_offs.
              hbind (handle_or key_offs) (\<lambda>khandle.
              hbind (memory_str khandle) (\<lambda>key.
              if voffset = 0 then (\<lambda>cp. put_vars (btree_remove (str_of key) (vars cp)) cp)
              else hbind (handle_or voffset) (\<lambda>handle.
                   hbind (memory_bytes handle) (\<lambda>v cp.
                     put_vars (btree_insert (str_of key) v (vars cp)) cp)))))) cp0)"

section \<open>HTTP\<close>

text \<open>
  A response has a status and a body, which may fail to be read; a failed request may still
  carry a response.
\<close>

datatype http_result =
    Response u16 "u8 list option"
  | Status_error u16 "u8 list option"
  | Transport_error

record http_env =
  http_enabled :: bool
  json_request :: "u8 list \<Rightarrow> HttpRequest option"
  url_host :: "string \<Rightarrow> string option option"
  glob_pattern :: "string \<Rightarrow> (string \<Rightarrow> bool) option"
  http_send :: "string \<Rightarrow> string \<Rightarrow> (string \<times> string) list \<Rightarrow> u8 list option \<Rightarrow> http_result"

definition host_matches :: "http_env \<Rightarrow> string list option \<Rightarrow> string \<Rightarrow> bool" where
  "host_matches E allowed host =
     (case allowed of
        None \<Rightarrow> False
      | Some hosts \<Rightarrow>
          list_ex (\<lambda>u. case glob_pattern E u of Some pat \<Rightarrow> pat host | None \<Rightarrow> u = host) hosts)"

definition max_body :: nat where
  "max_body = 1024 * 1024 * 50"

definition set_status_code :: "u16 \<Rightarrow> unit host" where
  "set_status_code st cp = Some (Done (), cp\<lparr>http_status := st\<rparr>)"

text \<open>The response is read up to the limit and copied to the memory of the plugin.\<close>

definition return_body :: "u8 list option \<Rightarrow> Val list host" where
  "return_body body =
     (case body of
        None \<Rightarrow> herr (Message ''read error'')
      | Some b \<Rightarrow> hbind (memory_new (Inr (take max_body b))) (\<lambda>mem. hret [I64 (handle_offset mem)]))"

definition finish_request :: "http_result \<Rightarrow> Val list host" where
  "finish_request res =
     (case res of
        Response st body \<Rightarrow> hbind (set_status_code st) (\<lambda>_. return_body body)
      | Status_error st body \<Rightarrow> hbind (set_status_code st) (\<lambda>_. return_body body)
      | Transport_error \<Rightarrow> hret [I64 0])"

definition parse_request :: "http_env \<Rightarrow> u8 list \<Rightarrow> HttpRequest host" where
  "parse_request E b =
     (case json_request E b of None \<Rightarrow> herr (Message ''json'') | Some req \<Rightarrow> hret req)"

definition http_request :: "http_env \<Rightarrow> Val list \<Rightarrow> Val list host" where
  "http_request E input =
     hbind (arg_i64 input 0) (\<lambda>req_offset.
     hbind (handle_or req_offset) (\<lambda>handle.
     hbind (memory_bytes handle) (\<lambda>b.
     hbind (parse_request E b) (\<lambda>req.
     if \<not> http_enabled E then herr (Message ''http_request is not enabled'')
     else hbind (arg_i64 input 1) (\<lambda>body_offset.
       case url_host E (url req) of
         None \<Rightarrow> herr (Message ''Invalid URL'')
       | Some h \<Rightarrow>
           let host = (case h of None \<Rightarrow> [] | Some s \<Rightarrow> s)
           in (\<lambda>cp.
               if \<not> host_matches E (allowed_hosts (manifest cp)) host
               then herr (Message ''HTTP request is not allowed'') cp
               else (let send = http_send E (case http_method req of None \<Rightarrow> ''GET'' | Some v \<Rightarrow> v)
                                  (url req) (headers req)
                     in if 0 < body_offset
                        then hbind (handle_or body_offset) (\<lambda>bh.
                             hbind (memory_bytes bh) (\<lambda>buf. finish_request (send (Some buf)))) cp
                        else finish_request (send None) cp)))))))"

definition http_status_code :: "Val list host" where
  "http_status_code cp = Some (Done [I32 (ucast (http_status cp))], cp)"

section \<open>Logging\<close>

datatype Level = ERROR | WARN | INFO | DEBUG | TRACE

text \<open>
  What goes to the log: the message at the level, or, when the bytes are no string, a report
  at level \<^verbatim>\<open>ERROR\<close>.
\<close>

definition log_message :: "Level \<Rightarrow> Val list \<Rightarrow> (Level \<times> u8 list option) host" where
  "log_message level input =
     hbind (arg_i64 input 0) (\<lambda>offset.
     hbind (handle_or offset) (\<lambda>handle.
     hcatch (hbind (memory_str handle) (\<lambda>buf. hret (level, Some buf))) (ERROR, None)))"

definition log_warn :: "Val list \<Rightarrow> (Level \<times> u8 list option) host" where
  "log_warn = log_message WARN"

definition log_info :: "Val list \<Rightarrow> (Level \<times> u8 list option) host" where
  "log_info = log_message INFO"

definition log_debug :: "Val list \<Rightarrow> (Level \<times> u8 list option) host" where
  "log_debug = log_message DEBUG"

definition log_error :: "Val list \<Rightarrow> (Level \<times> u8 list option) host" where
  "log_error = log_message ERROR"

section \<open>Strings and keys\<close>

lemma str_of_bytes_of [simp]: "str_of (bytes_of s) = s"
proof -
  have "char_of (unat (word_of_nat (of_char c) :: u8)) = c" for c :: char
    by (simp add: unat_of_nat)
  then show ?thesis by (simp add: str_of_def bytes_of_def o_def)
qed

lemma bytes_of_str_of [simp]: "bytes_of (str_of bs) = bs"
proof -
  have "(word_of_nat (of_char (char_of (unat b) :: char)) :: u8) = b" for b :: u8
    using unat_u8_less [of b] by simp
  then show ?thesis by (simp add: str_of_def bytes_of_def o_def)
qed

section \<open>Reading the arguments\<close>

text \<open>An argument that holds \<open>d\<close>: a null handle for the empty string, or the handle of a block.\<close>

definition holds :: "CurrentPlugin \<Rightarrow> heap \<Rightarrow> u64 \<Rightarrow> u8 list \<Rightarrow> bool" where
  "holds cp h offs d \<longleftrightarrow>
     (if d = [] then offs = 0
      else offs \<noteq> 0 \<and> in_heap h offs (length d) \<and>
        read_bytes (bytes (kernel_memory cp)) (unat offs) (length d) = d)"

lemma same_heap_holds: "same_heap cp cp' \<Longrightarrow> holds cp' h offs d = holds cp h offs d"
  by (simp add: same_heap_def holds_def)

lemma handle_or_holds:
  assumes ok: "cp_ok cp h" and pages: "pages (kernel_memory cp) < 65536" and holds: "holds cp h offs d"
  shows "\<exists>hdl cp'. handle_or offs cp = Some (Done hdl, cp') \<and> same_heap cp cp' \<and>
    memory_bytes hdl cp' = Some (Done d, cp')"
proof -
  obtain r cp' where run: "memory_handle offs cp = Some (Done r, cp')" and same: "same_heap cp cp'"
    and res: "case r of None \<Rightarrow> offs \<noteq> 0 \<and> (\<forall>n. in_heap h offs n \<longrightarrow> n = 0)
      | Some hdl \<Rightarrow> handle_offset hdl = offs \<and>
         (offs = 0 \<and> handle_length hdl = 0 \<or> in_heap h offs (handle_len hdl) \<and> 0 < handle_len hdl)"
    using memory_handle_run [OF ok pages] by blast
  have unique: "n = k" if "in_heap h offs n" "in_heap h offs k" for n k
    using that by (auto simp: in_heap_def)
  obtain hdl where r: "r = Some hdl" and off: "handle_offset hdl = offs" and len: "handle_len hdl = length d"
    and live: "offs = 0 \<and> handle_length hdl = 0 \<or> in_heap h offs (handle_len hdl)"
  proof (cases "d = []")
    case True
    then have "offs = 0" using holds by (simp add: holds_def)
    moreover have "\<not> in_heap h 0 n" for n
      using in_heap_bounds(1) [OF cp_okD(1) [OF ok], of 0 n] by auto
    ultimately show ?thesis using res True that by (cases r) (auto simp: handle_len_def)
  next
    case False
    then have nz: "offs \<noteq> 0" and inh: "in_heap h offs (length d)"
      using holds by (simp_all add: holds_def)
    show ?thesis
    proof (cases r)
      case None
      then have "\<forall>n. in_heap h offs n \<longrightarrow> n = 0" using res by simp
      with inh have "length d = 0" by blast
      then show ?thesis using False by simp
    next
      case (Some hdl)
      then have "in_heap h offs (handle_len hdl)" "handle_offset hdl = offs" using res nz by auto
      with unique [OF this(1) inh] Some that show ?thesis by blast
    qed
  qed
  have "memory_bytes hdl cp' = Some (Done d, cp')"
    using block_bytes_ok [of cp' h hdl] same_heap_ok [OF same] ok live off len holds same
    by (auto simp: holds_def same_heap_def read_bytes_def split: if_splits)
  with run r same show ?thesis
    by (auto simp: handle_or_def hbind_def hret_def)
qed

lemma arg_holds:
  assumes "i < length input" "input ! i = I64 offs"
  shows "hbind (arg_i64 input i) f cp = f offs cp"
  using assms by (simp add: arg_i64_def hbind_def hret_def)

text \<open>The common prefix of the functions that take a key.\<close>

lemma key_run:
  assumes ok: "cp_ok cp h" and pages: "pages (kernel_memory cp) < 65536"
    and key: "holds cp h offs key" "from_utf8_ok key"
  shows "\<exists>cp'. same_heap cp cp' \<and>
    (\<forall>f :: u8 list \<Rightarrow> 'a host. hbind (handle_or offs) (\<lambda>hdl. hbind (memory_str hdl) f) cp = f key cp')"
proof -
  obtain hdl cp' where run: "handle_or offs cp = Some (Done hdl, cp')" and same: "same_heap cp cp'"
    and b: "memory_bytes hdl cp' = Some (Done key, cp')"
    using handle_or_holds [OF ok pages key(1)] by blast
  have "memory_str hdl cp' = Some (Done key, cp')"
    using b key(2) by (simp add: memory_str_def hbind_def hret_def)
  with run same show ?thesis by (auto simp: hbind_def)
qed

section \<open>Configuration and variables\<close>

text \<open>Returning a value from the memory of the host: what \<^verbatim>\<open>memory_new\<close> stored, or 0 for nothing.\<close>

lemma return_value_run:
  assumes ok: "cp_ok cp h" and len: "length v < 4294967296"
  shows "(\<exists>offs cp' h'. hbind (memory_new (Inr v)) (\<lambda>mem. hret [I64 (handle_offset mem)]) cp =
        Some (Done [I64 offs], cp') \<and> cp_ok cp' h' \<and> holds cp' h' offs v \<and> keeps_blocks h cp cp' \<and>
        vars cp' = vars cp \<and> manifest cp' = manifest cp)
    \<or> (\<exists>e cp'. hbind (memory_new (Inr v)) (\<lambda>mem. hret [I64 (handle_offset mem)]) cp =
        Some (Err e, cp') \<and> v \<noteq> [] \<and> heap_take (growth_verdict cp) (length v) h = None \<and>
        cp_ok cp' h \<and> keeps_blocks h cp cp' \<and> vars cp' = vars cp \<and> manifest cp' = manifest cp)"
proof (cases "v = []")
  case True
  then have "hbind (memory_new (Inr v)) (\<lambda>mem. hret [I64 (handle_offset mem)]) cp = Some (Done [I64 0], cp)"
    by (simp add: memory_new_def hbind_def hret_def handle_null_def)
  with True ok show ?thesis by (auto simp: holds_def keeps_blocks_def)
next
  case False
  from memory_new_run [OF ok False len] show ?thesis
  proof (elim disjE exE conjE)
    fix hdl cp' h'
    assume run: "memory_new (Inr v) cp = Some (Done hdl, cp')" and st: "stored cp h v hdl cp' h'"
    have "holds cp' h' (handle_offset hdl) v" using st by (simp add: stored_def holds_def)
    with run st show ?thesis
      by (intro disjI1) (auto simp: hbind_def hret_def stored_def)
  next
    fix e cp'
    assume "memory_new (Inr v) cp = Some (Err e, cp')" "cp_ok cp' h" "keeps_blocks h cp cp'"
      "heap_take (growth_verdict cp) (length v) h = None" "vars cp' = vars cp" "manifest cp' = manifest cp"
    with False show ?thesis by (intro disjI2) (auto simp: hbind_def)
  qed
qed

lemma same_heap_keeps: "same_heap cp cp' \<Longrightarrow> keeps_blocks h cp' cp'' = keeps_blocks h cp cp''"
  by (simp add: same_heap_def keeps_blocks_def)

lemma config_get_key:
  assumes "cp_ok cp h" "pages (kernel_memory cp) < 65536" "holds cp h offs key" "from_utf8_ok key"
  shows "\<exists>cp'. same_heap cp cp' \<and> config_get [I64 offs] cp =
    (case btree_get (config (manifest cp)) (str_of key) of
       Some v \<Rightarrow> hbind (memory_new (Inr (bytes_of v))) (\<lambda>mem. hret [I64 (handle_offset mem)]) cp'
     | None \<Rightarrow> Some (Done [I64 0], cp'))"
proof -
  obtain cp' where same: "same_heap cp cp'"
    and run: "hbind (handle_or offs) (\<lambda>hdl. hbind (memory_str hdl) f) cp = f key cp'"
    for f :: "u8 list \<Rightarrow> Val list host"
    using key_run [OF assms] by blast
  have "config_get [I64 offs] cp = hbind (handle_or offs) (\<lambda>handle.
      hbind (memory_str handle) (\<lambda>key cp. case btree_get (config (manifest cp)) (str_of key) of
         Some v \<Rightarrow> hbind (memory_new (Inr (bytes_of v))) (\<lambda>mem. hret [I64 (handle_offset mem)]) cp
       | None \<Rightarrow> hret [I64 0] cp)) cp"
    unfolding config_get_def by (rule arg_holds) simp_all
  with run same show ?thesis
    by (auto simp: same_heap_def hret_def split: option.splits)
qed

lemma var_get_key:
  assumes "cp_ok cp h" "pages (kernel_memory cp) < 65536" "holds cp h offs key" "from_utf8_ok key"
  shows "\<exists>cp'. same_heap cp cp' \<and> var_get [I64 offs] cp =
    (case btree_get (vars cp) (str_of key) of
       Some v \<Rightarrow> hbind (memory_new (Inr v)) (\<lambda>mem. hret [I64 (handle_offset mem)]) cp'
     | None \<Rightarrow> Some (Done [I64 0], cp'))"
proof -
  obtain cp' where same: "same_heap cp cp'"
    and run: "hbind (handle_or offs) (\<lambda>hdl. hbind (memory_str hdl) f) cp = f key cp'"
    for f :: "u8 list \<Rightarrow> Val list host"
    using key_run [OF assms] by blast
  have "var_get [I64 offs] cp = hbind (handle_or offs) (\<lambda>handle.
      hbind (memory_str handle) (\<lambda>key cp. case btree_get (vars cp) (str_of key) of
         Some v \<Rightarrow> hbind (memory_new (Inr v)) (\<lambda>mem. hret [I64 (handle_offset mem)]) cp
       | None \<Rightarrow> hret [I64 0] cp)) cp"
    unfolding var_get_def by (rule arg_holds) simp_all
  with run same show ?thesis
    by (auto simp: same_heap_def hret_def split: option.splits)
qed

lemma var_set_key:
  assumes ok: "cp_ok cp h" and pages: "pages (kernel_memory cp) < 65536"
    and key: "holds cp h koffs key" "from_utf8_ok key"
    and room: "vars_size cp \<le> var_limit \<or> voffs = 0"
    and v: "voffs \<noteq> 0 \<Longrightarrow> holds cp h voffs v"
  shows "\<exists>cp'. same_heap cp cp' \<and> var_set [I64 koffs, I64 voffs] cp =
    Some (Done [], cp'\<lparr>vars := (if voffs = 0 then btree_remove (str_of key) (vars cp)
                                else btree_insert (str_of key) v (vars cp))\<rparr>)"
proof -
  obtain cp' where same: "same_heap cp cp'"
    and run: "hbind (handle_or koffs) (\<lambda>hdl. hbind (memory_str hdl) f) cp = f key cp'"
    for f :: "u8 list \<Rightarrow> Val list host"
    using key_run [OF ok pages key] by blast
  have step: "var_set [I64 koffs, I64 voffs] cp = hbind (handle_or koffs) (\<lambda>khandle.
      hbind (memory_str khandle) (\<lambda>key.
        if voffs = 0 then (\<lambda>cp. put_vars (btree_remove (str_of key) (vars cp)) cp)
        else hbind (handle_or voffs) (\<lambda>handle. hbind (memory_bytes handle) (\<lambda>v cp.
               put_vars (btree_insert (str_of key) v (vars cp)) cp)))) cp"
    using room by (auto simp: var_set_def arg_i64_def hbind_def hret_def)
  show ?thesis
  proof (cases "voffs = 0")
    case True
    with step run same show ?thesis by (auto simp: put_vars_def same_heap_def)
  next
    case False
    have "cp_ok cp' h" "pages (kernel_memory cp') < 65536" "holds cp' h voffs v"
      using same_heap_ok [OF same] same_heap_holds [OF same] ok pages v False same
      by (auto simp: same_heap_def)
    then obtain hdl cp2 where "handle_or voffs cp' = Some (Done hdl, cp2)" "same_heap cp' cp2"
      "memory_bytes hdl cp2 = Some (Done v, cp2)"
      using handle_or_holds by blast
    with False step run same show ?thesis
      by (auto simp: hbind_def put_vars_def intro!: exI [of _ cp2]) (auto simp: same_heap_def)
  qed
qed

section \<open>The size of the variable store\<close>

lemma vars_size_insert:
  "sum_list (map (\<lambda>(k, v). length v) (btree_insert key v vs)) \<le>
     sum_list (map (\<lambda>(k, v). length v) vs) + length v"
  by (induction vs) auto

lemma vars_size_remove:
  "sum_list (map (\<lambda>(k, v). length v) (btree_remove key vs)) \<le> sum_list (map (\<lambda>(k, v). length v) vs)"
  by (induction vs) auto

text \<open>A handle a plugin has passed: its bytes can be read, and are fewer than 4 GiB.\<close>

lemma handle_or_Done:
  assumes ok: "cp_ok cp h" and pages: "pages (kernel_memory cp) < 65536"
    and run: "handle_or offs cp = Some (r, cp')"
  shows "same_heap cp cp' \<and> (\<forall>hdl. r = Done hdl \<longrightarrow> (\<exists>d. memory_bytes hdl cp' = Some (Done d, cp') \<and>
    length d < 4294967296)) \<and> r \<noteq> Fault"
proof -
  obtain q cp1 where h: "memory_handle offs cp = Some (Done q, cp1)" "same_heap cp cp1"
    and res: "case q of None \<Rightarrow> offs \<noteq> 0 \<and> (\<forall>n. in_heap h offs n \<longrightarrow> n = 0)
      | Some hdl \<Rightarrow> handle_offset hdl = offs \<and>
         (offs = 0 \<and> handle_length hdl = 0 \<or> in_heap h offs (handle_len hdl) \<and> 0 < handle_len hdl)"
    using memory_handle_run [OF ok pages] by blast
  have ok1: "cp_ok cp1 h" using same_heap_ok [OF h(2)] ok by simp
  show ?thesis
  proof (cases q)
    case None
    with h run show ?thesis by (auto simp: handle_or_def hbind_def herr_def)
  next
    case (Some hdl)
    then have hb: "handle_offset hdl = 0 \<and> handle_length hdl = 0 \<or> in_heap h (handle_offset hdl) (handle_len hdl)"
      using res by auto
    have "handle_len hdl < 4294967296"
      using hb in_heap_bounds(3) [OF cp_okD(1) [OF ok1]] by (auto simp: handle_len_def)
    with block_bytes_ok [OF ok1 hb] h run Some show ?thesis
      by (auto simp: handle_or_def hbind_def hret_def)
  qed
qed

text \<open>
  The variable store holds at most the limit and the value that goes beyond it, whatever the
  arguments.
\<close>

lemma var_set_bound:
  assumes ok: "cp_ok cp h" and pages: "pages (kernel_memory cp) < 65536"
    and run: "var_set [I64 koffs, I64 voffs] cp = Some (r, cp')"
    and bound: "vars_size cp \<le> var_limit + 4294967296"
  shows "vars_size cp' \<le> var_limit + 4294967296"
proof (cases "var_limit < vars_size cp \<and> voffs \<noteq> 0")
  case True
  with run have "cp' = cp" by (auto simp: var_set_def arg_i64_def hbind_def hret_def herr_def)
  with bound show ?thesis by simp
next
  case False
  then have run': "hbind (handle_or koffs) (\<lambda>khandle. hbind (memory_str khandle) (\<lambda>key.
        if voffs = 0 then (\<lambda>cp. put_vars (btree_remove (str_of key) (vars cp)) cp)
        else hbind (handle_or voffs) (\<lambda>handle. hbind (memory_bytes handle) (\<lambda>v cp.
               put_vars (btree_insert (str_of key) v (vars cp)) cp)))) cp = Some (r, cp')"
    using run by (cases "voffs = 0") (simp_all add: var_set_def arg_i64_def hbind_def hret_def)
  then obtain q cp1 where q: "handle_or koffs cp = Some (q, cp1)" by (auto simp: hbind_def split: option.splits)
  note D = handle_or_Done [OF ok pages q]
  have size: "vars_size c = vars_size cp" if "same_heap cp c" for c
    using that by (simp add: same_heap_def vars_size_def)
  have put: "vars_size c' = sum_list (map (\<lambda>(k, v). length v) vs)" if "put_vars vs c = Some (x, c')" for vs c x c'
    using that by (auto simp: put_vars_def vars_size_def)
  show ?thesis
  proof (cases q)
    case (Done hdl)
    then obtain d where d: "memory_bytes hdl cp1 = Some (Done d, cp1)" using D by blast
    show ?thesis
    proof (cases "from_utf8_ok d")
      case False
      then have "cp' = cp1" using run' q Done d by (auto simp: hbind_def memory_str_def herr_def)
      with size [of cp1] D bound show ?thesis by simp
    next
      case True
      then have str: "memory_str hdl cp1 = Some (Done d, cp1)"
        using d by (simp add: memory_str_def hbind_def hret_def)
      show ?thesis
      proof (cases "voffs = 0")
        case True
        then have "put_vars (btree_remove (str_of d) (vars cp1)) cp1 = Some (r, cp')"
          using run' q Done str by (simp add: hbind_def)
        from put [OF this] vars_size_remove [of "str_of d" "vars cp1"] size [of cp1] D bound
        show ?thesis by (simp add: vars_size_def)
      next
        case nz: False
        have room: "vars_size cp \<le> var_limit" using \<open>\<not> (var_limit < vars_size cp \<and> voffs \<noteq> 0)\<close> nz by simp
        have ok1: "cp_ok cp1 h" "pages (kernel_memory cp1) < 65536"
          using same_heap_ok [of cp cp1] D ok pages by (auto simp: same_heap_def)
        from nz run' q Done str obtain q2 cp2 where q2: "handle_or voffs cp1 = Some (q2, cp2)"
          by (auto simp: hbind_def split: option.splits)
        note D2 = handle_or_Done [OF ok1 q2]
        have same2: "same_heap cp cp2" using D D2 same_heap_trans by blast
        show ?thesis
        proof (cases q2)
          case (Done hdl2)
          then obtain v where v: "memory_bytes hdl2 cp2 = Some (Done v, cp2)" "length v < 4294967296"
            using D2 by blast
          have "put_vars (btree_insert (str_of d) v (vars cp2)) cp2 = Some (r, cp')"
            using run' q \<open>q = Done hdl\<close> str nz q2 Done v(1) by (simp add: hbind_def)
          from put [OF this] vars_size_insert [of "str_of d" v "vars cp2"] size [OF same2] room v(2)
          show ?thesis by (simp add: vars_size_def)
        next
          case (Err e)
          then have "cp' = cp2" using run' q \<open>q = Done hdl\<close> str nz q2 by (simp add: hbind_def)
          with size [OF same2] bound show ?thesis by simp
        qed (use D2 in simp)
      qed
    qed
  next
    case (Err e)
    then have "cp' = cp1" using run' q by (simp add: hbind_def)
    with size [of cp1] D bound show ?thesis by simp
  qed (use D in simp)
qed

end
