(* ===== verification/Timer.thy ===== *)
theory Timer
  imports Btree
begin

text \<open>
  The timer thread, \<^verbatim>\<open>runtime/src/timer.rs\<close>: a map from plugin ids to their engine and
  deadline, driven by the messages of the plugins.  An id is a number, a deadline an instant
  in nanoseconds; every message is handled at an instant of its own.  The state also has the
  epoch counters of the engines, which is what interrupts a plugin; the statements that
  would advance them are commented out in the source.
\<close>

datatype 'e TimerAction =
    Start nat 'e "nat option"
  | Stop nat
  | Cancel nat
  | Shutdown

record 'e timer =
  plugins :: "(nat, 'e \<times> nat option) btree"
  epoch :: "'e \<Rightarrow> nat"

definition timer_init :: "('e \<Rightarrow> nat) \<Rightarrow> 'e timer" where
  "timer_init ep = \<lparr>plugins = [], epoch = ep\<rparr>"

text \<open>One message; \<open>None\<close> is the return of the thread.\<close>

fun timer_handle :: "nat \<Rightarrow> 'e TimerAction \<Rightarrow> 'e timer \<Rightarrow> 'e timer option" where
  "timer_handle now (Start i engine duration) t =
     Some (t\<lparr>plugins := btree_insert i (engine, map_option (\<lambda>d. now + d) duration) (plugins t)\<rparr>)"
| "timer_handle now (Stop i) t = Some (t\<lparr>plugins := btree_remove i (plugins t)\<rparr>)"
| "timer_handle now (Cancel i) t = Some (t\<lparr>plugins := btree_remove i (plugins t)\<rparr>)"
| "timer_handle now Shutdown t = None"

fun timer_handle_all :: "(nat \<times> 'e TimerAction) list \<Rightarrow> 'e timer \<Rightarrow> 'e timer option" where
  "timer_handle_all [] t = Some t"
| "timer_handle_all ((now, x) # xs) t =
     (case timer_handle now x t of None \<Rightarrow> None | Some t' \<Rightarrow> timer_handle_all xs t')"

definition timer_expire :: "nat \<Rightarrow> 'e timer \<Rightarrow> 'e timer" where
  "timer_expire now t =
     t\<lparr>plugins := filter (\<lambda>(k, engine, deadline). case deadline of Some d \<Rightarrow> \<not> d \<le> now | None \<Rightarrow> True)
        (plugins t)\<rparr>"

text \<open>
  One round of the loop: with no plugins it waits for a message (\<open>received\<close>, absent when all
  senders are gone), drops what is past its deadline, then handles what has queued up.
\<close>

definition timer_round ::
    "(nat \<times> 'e TimerAction) option \<Rightarrow> nat \<Rightarrow> (nat \<times> 'e TimerAction) list \<Rightarrow> 'e timer \<Rightarrow> 'e timer option" where
  "timer_round received now queued t =
     (let waited = (if plugins t = []
                    then (case received of Some (at, x) \<Rightarrow> timer_handle at x t | None \<Rightarrow> Some t)
                    else Some t)
      in (case waited of
            None \<Rightarrow> None
          | Some t1 \<Rightarrow> timer_handle_all queued (timer_expire now t1)))"

text \<open>The states the thread goes through.\<close>

inductive timer_reach :: "('e \<Rightarrow> nat) \<Rightarrow> 'e timer \<Rightarrow> bool" for ep :: "'e \<Rightarrow> nat" where
  reach_init: "timer_reach ep (timer_init ep)"
| reach_round: "timer_reach ep t \<Longrightarrow> timer_round received now queued t = Some t' \<Longrightarrow> timer_reach ep t'"

section \<open>Lemmas\<close>

definition timer_ok :: "('e \<Rightarrow> nat) \<Rightarrow> 'e timer \<Rightarrow> bool" where
  "timer_ok ep t \<longleftrightarrow> btree_ok (plugins t) \<and> epoch t = ep"

lemma timer_handle_ok: "timer_handle now x t = Some t' \<Longrightarrow> timer_ok ep t \<Longrightarrow> timer_ok ep t'"
  by (cases x) (auto simp: timer_ok_def btree_insert_ok btree_remove_ok)

lemma timer_handle_all_ok: "timer_handle_all xs t = Some t' \<Longrightarrow> timer_ok ep t \<Longrightarrow> timer_ok ep t'"
  by (induction xs t rule: timer_handle_all.induct) (auto dest: timer_handle_ok split: option.splits)

lemma btree_filter_ok: "btree_ok m \<Longrightarrow> btree_ok (filter P m)"
  by (induction m) (auto simp: btree_ok_def)

lemma timer_expire_ok: "timer_ok ep t \<Longrightarrow> timer_ok ep (timer_expire now t)"
  by (simp add: timer_ok_def timer_expire_def btree_filter_ok)

lemma timer_round_ok:
  assumes "timer_round received now queued t = Some t'" "timer_ok ep t"
  shows "timer_ok ep t'"
  using assms timer_expire_ok [of ep _ now]
  by (auto simp: timer_round_def Let_def dest!: timer_handle_all_ok timer_handle_ok
      split: if_splits option.splits)

lemma timer_reach_ok: "timer_reach ep t \<Longrightarrow> timer_ok ep t"
proof (induction rule: timer_reach.induct)
  case reach_init
  then show ?case by (simp add: timer_ok_def timer_init_def btree_ok_def)
next
  case (reach_round t received now queued t')
  then show ?case using timer_round_ok by blast
qed

lemma btree_get_filter:
  "btree_ok m \<Longrightarrow> btree_get (filter P m) k = (case btree_get m k of
     Some v \<Rightarrow> if P (k, v) then Some v else None | None \<Rightarrow> None)"
proof (induction m)
  case Nil
  then show ?case by simp
next
  case (Cons b m)
  obtain a v where b: "b = (a, v)" by (cases b)
  have "a \<notin> fst ` set m" using Cons.prems b by (auto simp: btree_ok_def)
  then have "btree_get m a = None" by (rule btree_get_None)
  then show ?case using Cons b by (auto simp: btree_ok_def)
qed

text \<open>Messages that start no plugin with the id \<open>k\<close>: a stop or a cancellation ends the watch over it.\<close>

lemma timer_handle_all_get:
  assumes "timer_handle_all xs t = Some t'" "btree_ok (plugins t)" "\<forall>at e d. (at, Start k e d) \<notin> set xs"
  shows "btree_get (plugins t') k =
    (if \<exists>at. (at, Stop k) \<in> set xs \<or> (at, Cancel k) \<in> set xs then None else btree_get (plugins t) k)"
  using assms
proof (induction xs t rule: timer_handle_all.induct)
  case (1 t)
  then show ?case by simp
next
  case (2 now x xs t)
  from 2(2) obtain t1 where t1: "timer_handle now x t = Some t1" "timer_handle_all xs t1 = Some t'"
    by (auto split: option.splits)
  have ok: "btree_ok (plugins t1)" using timer_handle_ok [OF t1(1), of "epoch t"] 2(3) by (simp add: timer_ok_def)
  have other: "x = Start i e d \<Longrightarrow> i \<noteq> k" for i e d using 2(4) by auto
  have "btree_get (plugins t1) k =
      (if x = Stop k \<or> x = Cancel k then None else btree_get (plugins t) k)"
    using t1(1) 2(3) other by (cases x) (force simp: btree_get_insert btree_get_remove)+
  moreover have "btree_get (plugins t') k =
      (if \<exists>at. (at, Stop k) \<in> set xs \<or> (at, Cancel k) \<in> set xs then None else btree_get (plugins t1) k)"
    using 2(1) [OF t1(1,2) ok] 2(4) by auto
  ultimately show ?case by auto
qed

section \<open>The thread of the process\<close>

text \<open>
  \<^verbatim>\<open>TIMER\<close> is one slot of the process: the channel of the running thread, if there is one.  Channels are
  numbered in the order they are made; a thread is started with each of them.
\<close>

record timer_process =
  timer_slot :: "nat option"
  timer_threads :: nat

text \<open>\<^verbatim>\<open>Timer::init\<close>, \<^verbatim>\<open>Timer::tx\<close>, and \<^verbatim>\<open>cleanup_timer\<close>, whose drop of the timer tells the thread to end.\<close>

definition timer_start :: "timer_process \<Rightarrow> nat \<times> timer_process" where
  "timer_start s = (timer_threads s, s\<lparr>timer_slot := Some (timer_threads s), timer_threads := Suc (timer_threads s)\<rparr>)"

definition timer_tx :: "timer_process \<Rightarrow> nat \<times> timer_process" where
  "timer_tx s = (case timer_slot s of None \<Rightarrow> timer_start s | Some t \<Rightarrow> (t, s))"

definition timer_drop :: "nat \<Rightarrow> (nat \<times> 'e TimerAction) list" where
  "timer_drop t = [(t, Shutdown)]"

definition cleanup_timer :: "timer_process \<Rightarrow> (nat \<times> 'e TimerAction) list \<times> timer_process" where
  "cleanup_timer s =
     (case timer_slot s of
        None \<Rightarrow> ([], s)
      | Some t \<Rightarrow> (timer_drop t, s\<lparr>timer_slot := None\<rparr>))"

text \<open>All plugins of a process share one thread, and the message of the cleanup ends it.\<close>

lemma timer_tx_shared:
  "timer_tx s = (t, s') \<Longrightarrow> timer_tx s' = (t, s') \<and> timer_threads s' \<le> Suc (timer_threads s)"
  by (auto simp: timer_tx_def timer_start_def split: option.splits)

lemma cleanup_ends_thread:
  assumes "timer_tx s = (t, s')"
  shows "fst (cleanup_timer s') = [(t, Shutdown)] \<and> timer_handle now Shutdown st = None \<and>
    timer_slot (snd (cleanup_timer s')) = None"
  using assms by (auto simp: timer_tx_def timer_start_def cleanup_timer_def timer_drop_def split: option.splits)

end
