(* ===== verification/Plugin.thy ===== *)
theory Plugin
  imports Pdk Timer
begin

text \<open>
  The plugin, \<^verbatim>\<open>runtime/src/plugin.rs\<close>: instantiation, the preparation of the input, the call
  of a guest function with its error handling, and the output.  A guest function is a
  function of its own on the state a guest can reach; it may return, fail or run forever.
  The instantiation by wasmtime and the linking of the modules are fields of a record.
\<close>

section \<open>Errors of a call\<close>

text \<open>
  The errors a call has to tell apart: the exit of a WASI program, the interruption by an
  epoch, everything else by the text of its root cause, and \<^verbatim>\<open>Error::msg(x).context(e)\<close>, whose
  root cause is the message and which can no longer be downcast to what \<open>e\<close> was
  (\<open>Context\<close>), and \<^verbatim>\<open>e.context(label)\<close>, which keeps both (\<open>Labelled\<close>).  The texts of the
  messages are shortened where the code formats a number into them.
\<close>

datatype call_error =
    Wasi_exit int
  | Interrupt
  | Text string
  | Context call_error string
  | Labelled string call_error

fun root_cause :: "call_error \<Rightarrow> string" where
  "root_cause (Wasi_exit c) = ''exit''"
| "root_cause Interrupt = ''wasm trap: interrupt''"
| "root_cause (Text s) = s"
| "root_cause (Context e s) = s"
| "root_cause (Labelled l e) = root_cause e"

fun exit_code :: "call_error \<Rightarrow> int option" where
  "exit_code (Wasi_exit c) = Some c"
| "exit_code (Labelled l e) = exit_code e"
| "exit_code e = None"

fun interrupted :: "call_error \<Rightarrow> bool" where
  "interrupted Interrupt = True"
| "interrupted (Labelled l e) = interrupted e"
| "interrupted e = False"

section \<open>Guests and plugins\<close>

datatype ValType = TI32 | TI64 | TF32 | TF64 | TV128 | TFuncRef | TExternRef

text \<open>What running wasm code leaves: an error or results, and the new state.\<close>

type_synonym guest_code = "Val list \<Rightarrow> CurrentPlugin \<Rightarrow> ((call_error + Val list) \<times> CurrentPlugin) option"

record guest_func =
  f_params :: "ValType list"
  f_results :: "ValType list"
  f_code :: guest_code

datatype GuestRuntime =
    Haskell guest_func "guest_func option"
  | Wasi_runtime guest_func

record Output =
  out_offset :: u64
  out_length :: u64
  error_offset :: u64
  error_length :: u64

definition output_default :: Output where
  "output_default = \<lparr>out_offset = 0, out_length = 0, error_offset = 0, error_length = 0\<rparr>"

text \<open>
  What wasmtime does for a plugin: instantiate the main module (its functions, and the pages
  of its memory if it exports one), and link the other modules into a fresh store (the
  memory of a new kernel instance) and prepare the main module again.  \<open>main_exports\<close> are the types of the exported functions of
  the main module.
\<close>

record runtime_env =
  instantiate_main :: "CurrentPlugin \<Rightarrow>
    ((call_error + (string, guest_func) btree \<times> nat option) \<times> CurrentPlugin) option"
  relink :: "host_error + wasm_mem"
  pre_instantiate :: "host_error option"
  main_exports :: "(string, (ValType list \<times> ValType list) option) btree"
  env_ok :: "string \<times> string \<Rightarrow> bool"
  dir_ok :: "path \<Rightarrow> bool"
  env_output :: bool

record plugin =
  plugin_id :: nat
  current :: CurrentPlugin
  instance_of :: "(string, guest_func) btree option"
  instantiations :: nat
  runtime :: "GuestRuntime option"
  sent :: "unit TimerAction list"
  call_output :: Output
  store_needs_reset :: bool

section \<open>The reset of the store\<close>

definition reset_store :: "runtime_env \<Rightarrow> plugin \<Rightarrow> host_error option \<times> plugin" where
  "reset_store E p =
     (if \<not> store_needs_reset p then (None, p)
      else (let c = current p in
        case current_plugin_new (env_ok E) (dir_ok E) (env_output E) (manifest c) (wasi c \<noteq> None)
               (available_pages c) (kernel_memory c) (linked c) (engine_growth c) of
          Inl e \<Rightarrow> (Some e, p)
        | Inr fresh_plugin \<Rightarrow>
            (case relink E of
               Inl e \<Rightarrow> (Some e, p\<lparr>current := fresh_plugin\<rparr>)
             | Inr mem \<Rightarrow>
                 let p1 = p\<lparr>current := fresh_plugin\<lparr>kernel_memory := mem\<rparr>, instantiations := 0\<rparr>
                 in (case pre_instantiate E of
                       Some e \<Rightarrow> (Some e, p1)
                     | None \<Rightarrow> (None, p1\<lparr>instance_of := None, store_needs_reset := False\<rparr>)))))"

section \<open>Instantiation\<close>

definition get_func :: "plugin \<Rightarrow> string \<Rightarrow> guest_func option" where
  "get_func p n = (case instance_of p of None \<Rightarrow> None | Some fs \<Rightarrow> btree_get fs n)"

definition nullary :: "guest_func \<Rightarrow> bool" where
  "nullary f \<longleftrightarrow> f_params f = [] \<and> f_results f = []"

definition detect_guest_runtime :: "plugin \<Rightarrow> plugin" where
  "detect_guest_runtime p =
     (case get_func p ''hs_init'' of
        Some init \<Rightarrow>
          let reactor_init = (case get_func p ''_initialize'' of
                                Some i \<Rightarrow> if \<not> nullary i then None else Some i
                              | None \<Rightarrow> None)
          in p\<lparr>runtime := Some (Haskell init reactor_init)\<rparr>
      | None \<Rightarrow>
          (case get_func p ''__wasm_call_ctors'' of
             Some init \<Rightarrow>
               if \<not> nullary init then p else p\<lparr>runtime := Some (Wasi_runtime init)\<rparr>
           | None \<Rightarrow>
               (case get_func p ''_initialize'' of
                  Some init \<Rightarrow>
                    if \<not> nullary init then p else p\<lparr>runtime := Some (Wasi_runtime init)\<rparr>
                | None \<Rightarrow> p)))"

text \<open>Running guest code on the state of a plugin; an error is kept, a divergence is \<open>None\<close>.\<close>

definition run_code :: "guest_func \<Rightarrow> Val list \<Rightarrow> plugin \<Rightarrow> ((call_error + Val list) \<times> plugin) option" where
  "run_code f args p =
     (case f_code f args (current p) of
        None \<Rightarrow> None
      | Some (r, c) \<Rightarrow> Some (r, p\<lparr>current := c\<rparr>))"

definition initialize_guest_runtime :: "plugin \<Rightarrow> (call_error option \<times> plugin) option" where
  "initialize_guest_runtime p =
     (case runtime p of
        None \<Rightarrow> Some (None, p)
      | Some (Wasi_runtime init) \<Rightarrow>
          (case run_code init [] p of
             None \<Rightarrow> None
           | Some (Inl e, p') \<Rightarrow> Some (Some e, p')
           | Some (Inr _, p') \<Rightarrow> Some (None, p'))
      | Some (Haskell init reactor_init) \<Rightarrow>
          let start = (\<lambda>p. case run_code init [I32 0, I32 0] p of
                 None \<Rightarrow> None
               | Some (Inl e, p') \<Rightarrow> Some (Some e, p')
               | Some (Inr _, p') \<Rightarrow> Some (None, p'))
          in (case reactor_init of
                None \<Rightarrow> start p
              | Some r \<Rightarrow>
                  (case run_code r [] p of
                     None \<Rightarrow> None
                   | Some (Inl e, p') \<Rightarrow> Some (Some e, p')
                   | Some (Inr _, p') \<Rightarrow> start p')))"

definition limiter_reset_in :: "CurrentPlugin \<Rightarrow> CurrentPlugin" where
  "limiter_reset_in c = c\<lparr>memory_limiter := map_option limiter_reset (memory_limiter c)\<rparr>"

definition instantiate :: "runtime_env \<Rightarrow> plugin \<Rightarrow> (call_error option \<times> plugin) option" where
  "instantiate E p =
     (if instance_of p \<noteq> None then Some (None, p)
      else (case instantiate_main E (current p) of
              None \<Rightarrow> None
            | Some (Inl e, c) \<Rightarrow> Some (Some e, p\<lparr>current := c\<rparr>)
            | Some (Inr (fs, mem), c) \<Rightarrow>
                let c1 = (case mem of
                            Some np \<Rightarrow> c\<lparr>memory_export := Some (pm_new np (engine_growth c))\<rparr>
                          | None \<Rightarrow> c);
                    p1 = p\<lparr>current := limiter_reset_in c1, instance_of := Some fs,
                           instantiations := instantiations p + 1\<rparr>
                in initialize_guest_runtime (detect_guest_runtime p1)))"

definition function_exists :: "runtime_env \<Rightarrow> string \<Rightarrow> bool" where
  "function_exists E n =
     (case btree_get (main_exports E) n of
        None \<Rightarrow> False
      | Some None \<Rightarrow> False
      | Some (Some (params, results)) \<Rightarrow>
          (if params = [] \<and> length results = 1 then hd results = TI32
           else params = [] \<and> results = []))"

section \<open>Input\<close>

text \<open>An operation on the data of the plugin, lifted to the plugin.\<close>

definition on_current :: "'a host \<Rightarrow> plugin \<Rightarrow> ('a hres \<times> plugin) option" where
  "on_current f p =
     (case f (current p) of None \<Rightarrow> None | Some (r, c) \<Rightarrow> Some (r, p\<lparr>current := c\<rparr>))"

definition plugin_clear_error :: "unit host" where
  "plugin_clear_error = kernel_fn ''error_set'' (Kernel_missing ''error_set'') (k_error_set 0)"

text \<open>\<^verbatim>\<open>reset\<close> only logs when the function is missing.\<close>

definition plugin_reset :: "unit host" where
  "plugin_reset cp =
     (if ''reset'' \<notin> set (linked cp) then Some (Done (), cp)
      else kernel_fn ''reset'' (Kernel_missing ''reset'') k_reset cp)"

definition call_input_set :: "MemoryHandle \<Rightarrow> nat \<Rightarrow> unit host" where
  "call_input_set handle l cp =
     (if ''input_set'' \<notin> set (linked cp) then Some (Done (), cp)
      else kernel_fn ''input_set'' (Kernel_missing ''input_set'')
             (k_input_set (handle_offset handle) (word_of_nat l)) cp)"

definition set_input :: "u8 list \<Rightarrow> plugin \<Rightarrow> (unit hres \<times> plugin) option" where
  "set_input input p =
     on_current
       (hbind plugin_clear_error (\<lambda>_.
        hbind plugin_reset (\<lambda>_.
        hbind (memory_new (bytes_to_bytes input)) (\<lambda>handle.
          call_input_set handle (length input)))))
       (p\<lparr>call_output := output_default\<rparr>)"

section \<open>Output\<close>

definition output_memory_position :: "(u64 \<times> u64) host" where
  "output_memory_position =
     hbind (kernel_fn ''output_offset'' (Message ''unable to set output'') k_output_offset) (\<lambda>offs.
     hbind (kernel_fn ''output_length'' (Message ''unable to set output length'') k_output_length) (\<lambda>l.
       hret (offs, l)))"

definition get_output_after_call :: "plugin \<Rightarrow> (unit hres \<times> plugin) option" where
  "get_output_after_call p =
     (case on_current output_memory_position p of
        None \<Rightarrow> None
      | Some (Err e, p') \<Rightarrow> Some (Err e, p')
      | Some (Fault, p') \<Rightarrow> Some (Fault, p')
      | Some (Done (offs, l), p') \<Rightarrow>
          let p1 = p'\<lparr>call_output := (call_output p')\<lparr>out_offset := offs, out_length := l\<rparr>\<rparr>
          in (case on_current get_error_position p1 of
                None \<Rightarrow> None
              | Some (Err e, p2) \<Rightarrow> Some (Err e, p2)
              | Some (Fault, p2) \<Rightarrow> Some (Fault, p2)
              | Some (Done (eo, el), p2) \<Rightarrow>
                  Some (Done (), p2\<lparr>call_output := (call_output p2)\<lparr>error_offset := eo, error_length := el\<rparr>\<rparr>)))"

definition plugin_output :: "(u8 list \<Rightarrow> convert_error + 'a) \<Rightarrow> plugin \<Rightarrow> ('a hres \<times> plugin) option" where
  "plugin_output from_bytes p =
     on_current (memory_get from_bytes
       \<lparr>handle_offset = out_offset (call_output p), handle_length = out_length (call_output p)\<rparr>) p"

section \<open>The call\<close>

text \<open>What a call ends with: a return code, an error with a code, or a fault of the host.\<close>

datatype call_result = Ok int | Failed call_error int | Host_failed host_error int | Host_fault

text \<open>
  The result of the call once the outputs are cached: an error message the plugin has set
  takes precedence, and is put around the error of the call, if there was one.
\<close>

definition plugin_error :: "string \<Rightarrow> plugin \<Rightarrow> call_error option \<Rightarrow> (call_error option \<times> plugin) option" where
  "plugin_error n p res =
     (let out = call_output p in
      if error_offset out \<noteq> 0 \<and> error_length out \<noteq> 0 then
        (case on_current (memory_str \<lparr>handle_offset = error_offset out, handle_length = error_length out\<rparr>) p of
           None \<Rightarrow> None
         | Some (Done s, p') \<Rightarrow>
             Some (Some (case res of Some e \<Rightarrow> Context e (str_of s) | None \<Rightarrow> Text (str_of s)), p')
         | Some (_, p') \<Rightarrow> Some (Some (Text (''Call to Extism plugin function '' @ n @ '' encountered an error'')), p'))
      else Some (res, p))"

definition final_result :: "call_error option \<Rightarrow> int \<Rightarrow> call_result" where
  "final_result res rc =
     (case res of
        None \<Rightarrow> Ok rc
      | Some e \<Rightarrow>
          (case exit_code e of
             Some c \<Rightarrow> if c = 0 then Ok 0 else Failed (Labelled ''WASI exit code'' e) c
           | None \<Rightarrow>
               if interrupted e then Failed (Text ''timeout'') rc
               else if root_cause e = ''oom'' then Failed (Text ''oom'') rc
               else Failed e rc))"

text \<open>The return code: the first result if it is an \<^verbatim>\<open>i32\<close>; after an error the results are null.\<close>

definition return_code :: "bool \<Rightarrow> Val list \<Rightarrow> int" where
  "return_code use_extism results =
     (if use_extism \<and> results \<noteq> []
      then (case val_i32 (hd results) of Some v \<Rightarrow> sint v | None \<Rightarrow> -1) else 0)"

text \<open>The part of \<^verbatim>\<open>raw_call\<close> from the start of the timer to the outputs.\<close>

definition run_guest ::
    "guest_func \<Rightarrow> Val list \<Rightarrow> plugin \<Rightarrow> (call_error option \<times> Val list \<times> plugin) option" where
  "run_guest f params p =
     (let duration = map_option unat (timeout_ms (manifest (current p)));
          p1 = p\<lparr>sent := sent p @ [Start (plugin_id p) () duration]\<rparr>
      in (case run_code f params p1 of
            None \<Rightarrow> None
          | Some (r, p2) \<Rightarrow>
              let results = (case r of Inr vs \<Rightarrow> vs | Inl e \<Rightarrow> replicate (length (f_results f)) FuncRef);
                  res = (case r of Inr vs \<Rightarrow> None | Inl e \<Rightarrow> Some e)
              in Some (res, results, p2\<lparr>sent := sent p2 @ [Stop (plugin_id p2)]\<rparr>)))"

definition raw_call ::
    "runtime_env \<Rightarrow> string \<Rightarrow> u8 list \<Rightarrow> bool \<Rightarrow> Val list \<Rightarrow> plugin \<Rightarrow>
     (call_result \<times> Val list \<times> plugin) option" where
  "raw_call E n input use_extism params p0 =
     (let p1 = (if use_extism then snd (reset_store E p0) else p0) in
      case instantiate E p1 of
        None \<Rightarrow> None
      | Some (Some e, p2) \<Rightarrow> Some (Failed e (-1), [], p2)
      | Some (None, p2) \<Rightarrow>
          (case (if use_extism then set_input input p2 else Some (Done (), p2)) of
             None \<Rightarrow> None
           | Some (Err e, p3) \<Rightarrow> Some (Host_failed e (-1), [], p3)
           | Some (Fault, p3) \<Rightarrow> Some (Host_fault, [], p3)
           | Some (Done u, p3) \<Rightarrow>
               (case get_func p3 n of
                  None \<Rightarrow> Some (Failed (Text (''Function not found: '' @ n)) (-1), [], p3)
                | Some f \<Rightarrow>
                    if use_extism \<and> 1 < length (f_results f)
                    then Some (Failed (Text (''Function '' @ n @ '' has too many results, expected 0 or 1'')) (-1), [], p3)
                    else (case run_guest f (if use_extism then [] else params) p3 of
                            None \<Rightarrow> None
                          | Some (res, results, p4) \<Rightarrow>
                              let raw = (if use_extism then [] else results);
                                  rc = return_code use_extism results
                              in (case (if use_extism then get_output_after_call p4
                                        else Some (Done (), p4)) of
                                    None \<Rightarrow> None
                                  | Some (Err e, p5) \<Rightarrow> Some (Host_failed e (-1), raw, p5)
                                  | Some (Fault, p5) \<Rightarrow> Some (Host_fault, raw, p5)
                                  | Some (Done u, p5) \<Rightarrow>
                                      (case plugin_error n p5 res of
                                         None \<Rightarrow> None
                                       | Some (res', p6) \<Rightarrow> Some (final_result res' rc, raw, p6)))))))"

text \<open>\<^verbatim>\<open>call_get_error_code\<close>, and \<^verbatim>\<open>call\<close>, which forgets the code.\<close>

definition call_get_error_code ::
    "runtime_env \<Rightarrow> ('t \<Rightarrow> convert_error + u8 list) \<Rightarrow> (u8 list \<Rightarrow> convert_error + 'u) \<Rightarrow> string \<Rightarrow> 't \<Rightarrow>
     plugin \<Rightarrow> ((call_result + 'u) \<times> plugin) option" where
  "call_get_error_code E to_bytes from_bytes n input p =
     (case to_bytes input of
        Inl e \<Rightarrow> Some (Inl (Host_failed (Convert_failed e) (-1)), p)
      | Inr data \<Rightarrow>
          (case raw_call E n data True [] p of
             None \<Rightarrow> None
           | Some (Ok rc, _, p') \<Rightarrow>
               (case plugin_output from_bytes p' of
                  None \<Rightarrow> None
                | Some (Done x, p2) \<Rightarrow> Some (Inr x, p2)
                | Some (Err e, p2) \<Rightarrow> Some (Inl (Host_failed e (-1)), p2)
                | Some (Fault, p2) \<Rightarrow> Some (Inl Host_fault, p2))
           | Some (r, _, p') \<Rightarrow> Some (Inl r, p')))"

datatype plain_error = Call_error call_error | Host_side host_error | Memory_fault

definition plugin_call ::
    "runtime_env \<Rightarrow> ('t \<Rightarrow> convert_error + u8 list) \<Rightarrow> (u8 list \<Rightarrow> convert_error + 'u) \<Rightarrow> string \<Rightarrow> 't \<Rightarrow>
     plugin \<Rightarrow> ((plain_error + 'u) \<times> plugin) option" where
  "plugin_call E to_bytes from_bytes n input p =
     (case to_bytes input of
        Inl e \<Rightarrow> Some (Inl (Host_side (Convert_failed e)), p)
      | Inr data \<Rightarrow>
          (case raw_call E n data True [] p of
             None \<Rightarrow> None
           | Some (Ok rc, _, p') \<Rightarrow>
               (case plugin_output from_bytes p' of
                  None \<Rightarrow> None
                | Some (Done x, p2) \<Rightarrow> Some (Inr x, p2)
                | Some (Err e, p2) \<Rightarrow> Some (Inl (Host_side e), p2)
                | Some (Fault, p2) \<Rightarrow> Some (Inl Memory_fault, p2))
           | Some (Failed e rc, _, p') \<Rightarrow> Some (Inl (Call_error e), p')
           | Some (Host_failed e rc, _, p') \<Rightarrow> Some (Inl (Host_side e), p')
           | Some (Host_fault, _, p') \<Rightarrow> Some (Inl Memory_fault, p')))"

text \<open>The macro \<^verbatim>\<open>typed_plugin!\<close>: a wrapper is made when all its functions exist; its methods are \<^verbatim>\<open>call\<close>.\<close>

definition typed_plugin :: "runtime_env \<Rightarrow> string list \<Rightarrow> plugin \<Rightarrow> call_error + plugin" where
  "typed_plugin E functions p =
     (case find (\<lambda>f. \<not> function_exists E f) functions of
        Some f \<Rightarrow> Inl (Text (''Invalid function: '' @ f))
      | None \<Rightarrow> Inr p)"

text \<open>\<^verbatim>\<open>return_error\<close>\<close>

definition return_error :: "u8 list \<Rightarrow> 'x \<Rightarrow> plugin \<Rightarrow> ('x \<times> plugin) option" where
  "return_error e x p =
     (if instance_of p = None then Some (x, p)
      else (case on_current (set_error_msg e) p of
              None \<Rightarrow> None
            | Some (Done (a, b), p') \<Rightarrow>
                Some (x, p'\<lparr>call_output := (call_output p')\<lparr>error_offset := a, error_length := b\<rparr>\<rparr>)
            | Some (_, p') \<Rightarrow> Some (x, p')))"

text \<open>\<^verbatim>\<open>CancelHandle::cancel\<close>\<close>

definition cancel :: "plugin \<Rightarrow> plugin" where
  "cancel p = p\<lparr>sent := sent p @ [Cancel (plugin_id p)]\<rparr>"

end
