(* ===== verification/Plugin_Call.thy ===== *)
theory Plugin_Call
  imports Plugin
begin

text \<open>
  What a call of a plugin does, put together from the lemmas of the kernel and of the host:
  how the input reaches the guest, and how its output, its error and its return code come
  back.
\<close>

section \<open>Kernel calls on a well-formed plugin\<close>

definition same_rest :: "CurrentPlugin \<Rightarrow> CurrentPlugin \<Rightarrow> bool" where
  "same_rest cp cp' \<longleftrightarrow> linked cp' = linked cp \<and> vars cp' = vars cp \<and> manifest cp' = manifest cp \<and>
     http_status cp' = http_status cp"

lemma same_rest_refl [simp]: "same_rest cp cp" by (simp add: same_rest_def)

lemma same_rest_trans: "same_rest a b \<Longrightarrow> same_rest b c \<Longrightarrow> same_rest a c" by (simp add: same_rest_def)

lemma kernel_fn_done:
  assumes ok: "cp_ok cp h" and n: "n \<in> set (linked cp)"
    and run: "f ((kernel_memory cp)\<lparr>growth := growth_verdict cp\<rparr>) = Some (Ret (x, m))"
    and repr: "heap_repr m h'"
  shows "\<exists>cp'. kernel_fn n e f cp = Some (Done x, cp') \<and> cp_ok cp' h' \<and> same_rest cp cp' \<and>
    bytes (kernel_memory cp') = bytes m \<and> pages (kernel_memory cp') = pages m"
  using kernel_fn_Ret [of n cp f x m e, OF n run] ok repr
  by (auto simp: cp_ok_def same_rest_def)

lemma kernel_fn_agrees:
  assumes ok: "cp_ok cp h" and n: "n \<in> set (linked cp)"
    and run: "run_agrees h ((kernel_memory cp)\<lparr>growth := growth_verdict cp\<rparr>)
      (f ((kernel_memory cp)\<lparr>growth := growth_verdict cp\<rparr>)) x h'"
  shows "\<exists>cp'. kernel_fn n e f cp = Some (Done x, cp') \<and> cp_ok cp' h' \<and> same_rest cp cp' \<and>
    keeps_blocks h cp cp'"
proof -
  from run obtain m' where m': "f ((kernel_memory cp)\<lparr>growth := growth_verdict cp\<rparr>) = Some (Ret (x, m'))"
    "heap_repr m' h'" "\<forall>i. in_active 65 (h_blocks h) i \<longrightarrow> bytes m' i = bytes (kernel_memory cp) i"
    by (auto simp: run_agrees_def)
  obtain cp' where cp': "kernel_fn n e f cp = Some (Done x, cp')" "cp_ok cp' h'" "same_rest cp cp'"
    "bytes (kernel_memory cp') = bytes m'"
    using kernel_fn_done [where f = f and e = e, OF ok n m'(1,2)] by blast
  have "keeps_blocks h cp cp'"
    by (rule keeps_blocksI [OF heap_reprD(1) [OF cp_okD(1) [OF ok]]]) (use m'(3) cp'(4) in simp)
  with cp' show ?thesis by blast
qed

text \<open>Reading a register of the kernel.\<close>

lemma kernel_fn_get:
  assumes ok: "cp_ok cp h" and n: "n \<in> set (linked cp)"
    and run: "\<And>m. heap_repr m h \<Longrightarrow> f m = Some (Ret (x, m))"
  shows "\<exists>cp'. kernel_fn n e f cp = Some (Done x, cp') \<and> same_heap cp cp'"
proof -
  let ?m = "(kernel_memory cp)\<lparr>growth := growth_verdict cp\<rparr>"
  have "f ?m = Some (Ret (x, ?m))" using cp_okD(1) [OF ok] by (intro run) simp
  from kernel_fn_Ret [of n cp f x ?m e, OF n this] show ?thesis
    by (auto simp: same_heap_def)
qed

section \<open>Input\<close>

lemma clear_error_run:
  assumes ok: "cp_ok cp h"
  shows "\<exists>cp'. plugin_clear_error cp = Some (Done (), cp') \<and> cp_ok cp' (h\<lparr>h_error := 0\<rparr>) \<and> same_rest cp cp'"
proof -
  have "run_agrees h ((kernel_memory cp)\<lparr>growth := growth_verdict cp\<rparr>)
      (k_error_set 0 ((kernel_memory cp)\<lparr>growth := growth_verdict cp\<rparr>)) () (h\<lparr>h_error := 0\<rparr>)"
    using k_error_set_ok [of "(kernel_memory cp)\<lparr>growth := growth_verdict cp\<rparr>" h 0] cp_okD(1) [OF ok]
    by (simp add: heap_error_set_def)
  from kernel_fn_agrees [where f = "k_error_set 0", OF ok cp_okD(9) [OF ok] this] show ?thesis
    unfolding plugin_clear_error_def by blast
qed

lemma plugin_reset_run:
  assumes ok: "cp_ok cp h"
  shows "\<exists>cp'. plugin_reset cp = Some (Done (), cp') \<and> cp_ok cp' (heap_reset h) \<and> same_rest cp cp'"
proof -
  obtain m where m: "k_reset ((kernel_memory cp)\<lparr>growth := growth_verdict cp\<rparr>) = Some (Ret ((), m))"
    "heap_repr m (heap_reset h)"
    using k_reset_ok [of "(kernel_memory cp)\<lparr>growth := growth_verdict cp\<rparr>" h] cp_okD(1) [OF ok]
    by auto
  from kernel_fn_done [where f = k_reset, OF ok cp_okD(7) [OF ok] m] cp_okD(7) [OF ok] show ?thesis
    unfolding plugin_reset_def by auto
qed

text \<open>The whole of a live block is in bounds for \<^verbatim>\<open>input_set\<close>.\<close>

lemma block_in_bounds:
  assumes repr: "heap_repr m h" and blk: "in_heap h offs n" and n: "0 < n"
  shows "in_bounds h offs \<and> in_bounds h (offs + word_of_nat n - 1)"
proof -
  from blk obtain xs x ys where find: "heap_find h (unat offs) = Some (xs, x, ys)" "bused x = n"
    by (auto simp: in_heap_def)
  note found = heap_find_SomeD [OF find(1)]
  have "bused x \<le> bsize x"
    using heap_reprD(1) [OF repr] found(1) by (auto simp: heap_ok_def blk_ok_def)
  then have le: "unat offs + n \<le> 65 + h_length h"
    using found find(2) heap_okD [OF heap_reprD(1) [OF repr]] by simp
  then have small: "unat offs + n - 1 < 18446744073709551616"
    using heap_okD [OF heap_reprD(1) [OF repr]] by simp
  have w: "offs + word_of_nat n - 1 = word_of_nat (unat offs + n - 1)"
    using n by (simp add: of_nat_diff)
  have "unat (offs + word_of_nat n - 1) = unat offs + n - 1"
    by (simp only: w unat_nat64 [OF small])
  then show ?thesis using le n found(3) by (auto simp: in_bounds_def)
qed

lemma call_input_set_run:
  assumes ok: "cp_ok cp h" and arg: "holds cp h (handle_offset hdl) input" "length input < 4294967296"
    and clean: "h_input_offset h = 0" "h_input_length h = 0"
  shows "\<exists>cp' h'. call_input_set hdl (length input) cp = Some (Done (), cp') \<and>
    h' = h\<lparr>h_input_offset := handle_offset hdl, h_input_length := word_of_nat (length input)\<rparr> \<and>
    cp_ok cp' h' \<and> same_rest cp cp' \<and> holds cp' h' (handle_offset hdl) input"
proof -
  let ?m = "(kernel_memory cp)\<lparr>growth := growth_verdict cp\<rparr>"
  let ?h = "h\<lparr>h_input_offset := handle_offset hdl, h_input_length := word_of_nat (length input)\<rparr>"
  have same_blocks: "heap_live ?h = heap_live h" "in_heap ?h p n = in_heap h p n" for p n
    by (simp_all add: heap_live_def in_heap_def heap_find_def)
  have target: "heap_input_set (handle_offset hdl) (word_of_nat (length input)) h = ?h"
  proof (cases "input = []")
    case True
    with arg have "handle_offset hdl = 0" by (simp add: holds_def)
    then show ?thesis using True clean by (simp add: heap_input_set_def in_bounds_def)
  next
    case False
    then have "in_heap h (handle_offset hdl) (length input)" using arg by (simp add: holds_def)
    from block_in_bounds [OF cp_okD(1) [OF ok] this] False show ?thesis
      by (simp add: heap_input_set_def)
  qed
  have "run_agrees h ?m (k_input_set (handle_offset hdl) (word_of_nat (length input)) ?m) () ?h"
    using k_input_set_ok [of ?m h "handle_offset hdl" "word_of_nat (length input)"] cp_okD(1) [OF ok] target
    by simp
  from kernel_fn_agrees [where f = "k_input_set (handle_offset hdl) (word_of_nat (length input))",
      OF ok cp_okD(8) [OF ok] this] cp_okD(8) [OF ok]
  obtain cp' where run: "call_input_set hdl (length input) cp = Some (Done (), cp')"
    and ok': "cp_ok cp' ?h" "same_rest cp cp'" and keep: "keeps_blocks h cp cp'"
    unfolding call_input_set_def by auto
  have "holds cp' ?h (handle_offset hdl) input"
  proof (cases "input = []")
    case True
    with arg show ?thesis by (simp add: holds_def)
  next
    case False
    then have inh: "in_heap h (handle_offset hdl) (length input)" using arg by (simp add: holds_def)
    then have "(unat (handle_offset hdl), length input) \<in> heap_live h"
      using heap_find_live [OF heap_reprD(1) [OF cp_okD(1) [OF ok]]] by (auto simp: in_heap_def)
    with keep have "read_bytes (bytes (kernel_memory cp')) (unat (handle_offset hdl)) (length input) =
        read_bytes (bytes (kernel_memory cp)) (unat (handle_offset hdl)) (length input)"
      by (auto simp: keeps_blocks_def)
    with arg False same_blocks(2) show ?thesis by (simp add: holds_def)
  qed
  with run ok' show ?thesis by blast
qed

text \<open>The state \<^verbatim>\<open>set_input\<close> establishes.\<close>

definition input_ready :: "plugin \<Rightarrow> plugin \<Rightarrow> heap \<Rightarrow> u8 list \<Rightarrow> bool" where
  "input_ready p p' h' input \<longleftrightarrow> cp_ok (current p') h' \<and> same_rest (current p) (current p') \<and>
     h_error h' = 0 \<and> h_output_offset h' = 0 \<and> h_output_length h' = 0 \<and>
     h_input_length h' = word_of_nat (length input) \<and>
     holds (current p') h' (h_input_offset h') input \<and>
     heap_live h' = (if input = [] then {} else {(unat (h_input_offset h'), length input)}) \<and>
     p' = p\<lparr>call_output := output_default, current := current p'\<rparr>"

lemma heap_reset_fields [simp]:
  "h_error (heap_reset h) = 0" "h_input_offset (heap_reset h) = 0" "h_input_length (heap_reset h) = 0"
  "h_output_offset (heap_reset h) = 0" "h_output_length (heap_reset h) = 0"
  "heap_live (heap_reset h) = {}" "heap_reset (h\<lparr>h_error := e\<rparr>) = heap_reset h"
  by (simp_all add: heap_reset_def heap_live_def)

lemma heap_take_fields:
  assumes "heap_take g n h = Some (p, h')"
  shows "h_error h' = h_error h" "h_input_offset h' = h_input_offset h"
    "h_input_length h' = h_input_length h" "h_output_offset h' = h_output_offset h"
    "h_output_length h' = h_output_length h"
  using assms by (auto elim!: heap_take_cases simp: heap_push_def heap_grow_def)

lemma set_input_run:
  assumes ok: "cp_ok (current p) h" and len: "length input < 4294967296"
  shows "(\<exists>p' h'. set_input input p = Some (Done (), p') \<and> input_ready p p' h' input)
    \<or> (\<exists>e p'. set_input input p = Some (Err e, p') \<and> input \<noteq> [] \<and>
         (\<exists>g. heap_take g (length input) (heap_reset h) = None))"
proof -
  obtain c1 where c1: "plugin_clear_error (current p) = Some (Done (), c1)"
    "cp_ok c1 (h\<lparr>h_error := 0\<rparr>)" "same_rest (current p) c1"
    using clear_error_run [OF ok] by blast
  obtain c2 where c2: "plugin_reset c1 = Some (Done (), c2)" "cp_ok c2 (heap_reset h)" "same_rest c1 c2"
    using plugin_reset_run [OF c1(2)] by auto
  let ?rest = "hbind (memory_new (bytes_to_bytes input)) (\<lambda>handle. call_input_set handle (length input))"
  have step: "set_input input p = (case ?rest c2 of None \<Rightarrow> None
      | Some (r, c) \<Rightarrow> Some (r, p\<lparr>call_output := output_default, current := c\<rparr>))"
    using c1(1) c2(1) by (simp add: set_input_def on_current_def hbind_Done)
  have finish: "\<exists>p' h'. set_input input p = Some (Done (), p') \<and> input_ready p p' h' input"
    if new: "memory_new (bytes_to_bytes input) c2 = Some (Done hdl, c3)" and ok3: "cp_ok c3 h3"
      and rest: "same_rest c2 c3" and arg: "holds c3 h3 (handle_offset hdl) input"
      and clean: "h_error h3 = 0" "h_input_offset h3 = 0" "h_input_length h3 = 0"
        "h_output_offset h3 = 0" "h_output_length h3 = 0"
      and live: "heap_live h3 = (if input = [] then {} else {(unat (handle_offset hdl), length input)})"
    for hdl c3 h3
  proof -
    obtain c4 h4 where c4: "call_input_set hdl (length input) c3 = Some (Done (), c4)"
      "h4 = h3\<lparr>h_input_offset := handle_offset hdl, h_input_length := word_of_nat (length input)\<rparr>"
      "cp_ok c4 h4" "same_rest c3 c4" "holds c4 h4 (handle_offset hdl) input"
      using call_input_set_run [OF ok3 arg len clean(2,3)] by blast
    have "heap_live h4 = heap_live h3" by (simp add: c4(2) heap_live_def)
    then show ?thesis
      using step new c4 clean live same_rest_trans [OF same_rest_trans [OF c1(3) c2(3)]
          same_rest_trans [OF rest c4(4)]]
      by (intro exI [of _ "p\<lparr>call_output := output_default, current := c4\<rparr>"] exI [of _ h4])
        (simp add: hbind_Done input_ready_def)
  qed
  show ?thesis
  proof (cases "input = []")
    case True
    then have "memory_new (bytes_to_bytes input) c2 = Some (Done handle_null, c2)"
      by (simp add: memory_new_def bytes_to_bytes_def hret_def)
    from finish [OF this c2(2)] True show ?thesis by (simp add: holds_def handle_null_def)
  next
    case False
    from memory_new_run [OF c2(2) False len] show ?thesis
    proof (elim disjE exE conjE)
      fix hdl c3 h3
      assume new: "memory_new (Inr input) c2 = Some (Done hdl, c3)"
        and st: "stored c2 (heap_reset h) input hdl c3 h3"
      have take: "heap_take (growth_verdict c2) (length input) (heap_reset h) =
          Some (unat (handle_offset hdl), h3)"
        using st by (simp add: stored_def)
      have "heap_live h3 = {(unat (handle_offset hdl), length input)}"
        using heap_take_live [OF heap_reprD(1) [OF cp_okD(1) [OF c2(2)]] _ take] False by simp
      with finish [of hdl c3 h3] new st False heap_take_fields [OF take] show ?thesis
        by (simp add: bytes_to_bytes_def stored_def same_rest_def holds_def)
    next
      fix e c3
      assume "memory_new (Inr input) c2 = Some (Err e, c3)"
        "heap_take (growth_verdict c2) (length input) (heap_reset h) = None"
      with step False show ?thesis
        by (intro disjI2) (auto simp: hbind_Err bytes_to_bytes_def)
    qed
  qed
qed

text \<open>With nothing to pass in there is always room, and the heap is exactly the reset one.\<close>

lemma set_input_empty:
  assumes ok: "cp_ok (current p) h"
  shows "\<exists>p'. set_input [] p = Some (Done (), p') \<and> input_ready p p' (heap_reset h) []"
proof -
  obtain c1 where c1: "plugin_clear_error (current p) = Some (Done (), c1)"
    "cp_ok c1 (h\<lparr>h_error := 0\<rparr>)" "same_rest (current p) c1"
    using clear_error_run [OF ok] by blast
  obtain c2 where c2: "plugin_reset c1 = Some (Done (), c2)" "cp_ok c2 (heap_reset h)" "same_rest c1 c2"
    using plugin_reset_run [OF c1(2)] by auto
  have "holds c2 (heap_reset h) (handle_offset handle_null) []" by (simp add: holds_def handle_null_def)
  from call_input_set_run [OF c2(2) this] obtain c3
    where c3: "call_input_set handle_null 0 c2 = Some (Done (), c3)"
      "cp_ok c3 ((heap_reset h)\<lparr>h_input_offset := 0, h_input_length := 0\<rparr>)" "same_rest c2 c3"
    by (auto simp: handle_null_def)
  have "(heap_reset h)\<lparr>h_input_offset := 0, h_input_length := 0\<rparr> = heap_reset h"
    by (simp add: heap_reset_def)
  with c3 same_rest_trans [OF same_rest_trans [OF c1(3) c2(3)] c3(3)] c1(1) c2(1) show ?thesis
    by (simp add: set_input_def on_current_def hbind_Done memory_new_def bytes_to_bytes_def hret_def
        input_ready_def holds_def)
qed

text \<open>An error message of the guest or of the host: a block of its own, and the register points to it.\<close>

lemma set_error_msg_run:
  assumes ok: "cp_ok cp h" and s: "s \<noteq> []" "length s < 4294967296"
  shows "(\<exists>cp' h'. set_error_msg s cp = Some (Done (h_error h', word_of_nat (length s)), cp') \<and>
      cp_ok cp' h' \<and> holds cp' h' (h_error h') s \<and> same_rest cp cp' \<and>
      (\<exists>g p h1. heap_take g (length s) h = Some (p, h1) \<and> h' = h1\<lparr>h_error := h_error h'\<rparr>))
    \<or> (\<exists>e cp'. set_error_msg s cp = Some (Err e, cp') \<and> (\<exists>g. heap_take g (length s) h = None))"
  using memory_new_run [OF ok s]
proof (elim disjE exE conjE)
  fix hdl c1 h1
  assume new: "memory_new (Inr s) cp = Some (Done hdl, c1)" and st: "stored cp h s hdl c1 h1"
  let ?h = "h1\<lparr>h_error := handle_offset hdl\<rparr>"
  let ?m = "(kernel_memory c1)\<lparr>growth := growth_verdict c1\<rparr>"
  have ok1: "cp_ok c1 h1" and inh: "in_heap h1 (handle_offset hdl) (length s)" and n: "0 < length s"
    using st by (simp_all add: stored_def)
  have "heap_error_set (handle_offset hdl) h1 = ?h"
    using block_in_bounds [OF cp_okD(1) [OF ok1] inh n] by (simp add: heap_error_set_def)
  then have "run_agrees h1 ?m (k_error_set (handle_offset hdl) ?m) () ?h"
    using k_error_set_ok [of ?m h1 "handle_offset hdl"] cp_okD(1) [OF ok1] by simp
  from kernel_fn_agrees [where f = "k_error_set (handle_offset hdl)", OF ok1 cp_okD(9) [OF ok1] this]
  obtain c2 where c2: "kernel_fn ''error_set'' (Kernel_missing ''error_set'') (k_error_set (handle_offset hdl)) c1 =
      Some (Done (), c2)" "cp_ok c2 ?h" "same_rest c1 c2" "keeps_blocks h1 c1 c2" by blast
  have "(unat (handle_offset hdl), length s) \<in> heap_live h1"
    using inh heap_find_live [OF heap_reprD(1) [OF cp_okD(1) [OF ok1]]] by (auto simp: in_heap_def)
  with c2(4) have "read_bytes (bytes (kernel_memory c2)) (unat (handle_offset hdl)) (length s) =
      read_bytes (bytes (kernel_memory c1)) (unat (handle_offset hdl)) (length s)"
    by (auto simp: keeps_blocks_def)
  with st inh have held: "holds c2 ?h (h_error ?h) s"
    by (simp add: holds_def stored_def in_heap_def heap_find_def)
  have rest: "same_rest cp c2" using c2(3) st by (simp add: same_rest_def stored_def)
  have take: "heap_take (growth_verdict cp) (length s) h = Some (unat (handle_offset hdl), h1)"
    using st by (simp add: stored_def)
  have "set_error_msg s cp = Some (Done (h_error ?h, word_of_nat (length s)), c2)"
    using new c2(1) by (simp add: set_error_msg_def string_to_bytes_def hbind_Done hret_def)
  with c2(2) held rest take show ?thesis
    by (intro disjI1 exI [of _ c2] exI [of _ ?h] conjI) auto
next
  fix e c1
  assume "memory_new (Inr s) cp = Some (Err e, c1)" "heap_take (growth_verdict cp) (length s) h = None"
  then show ?thesis
    by (intro disjI2) (auto simp: set_error_msg_def string_to_bytes_def hbind_Err)
qed

section \<open>Output\<close>

lemma output_position_run:
  assumes ok: "cp_ok cp h"
  shows "\<exists>cp'. output_memory_position cp = Some (Done (h_output_offset h, h_output_length h), cp') \<and>
    same_heap cp cp'"
proof -
  obtain c1 where c1: "kernel_fn ''output_offset'' (Message ''unable to set output'') k_output_offset cp =
      Some (Done (h_output_offset h), c1)" "same_heap cp c1"
    using kernel_fn_get [where f = k_output_offset, OF ok cp_okD(11) [OF ok] k_getters(4)] by blast
  have ok1: "cp_ok c1 h" using same_heap_ok [OF c1(2)] ok by simp
  obtain c2 where c2: "kernel_fn ''output_length'' (Message ''unable to set output length'') k_output_length c1 =
      Some (Done (h_output_length h), c2)" "same_heap c1 c2"
    using kernel_fn_get [where f = k_output_length, OF ok1 cp_okD(12) [OF ok1] k_getters(5)] by blast
  from c1(1) c2(1) same_heap_trans [OF c1(2) c2(2)] show ?thesis
    by (auto simp: output_memory_position_def hbind_Done hret_def)
qed

lemma memory_length_zero:
  assumes "cp_ok cp h"
  shows "\<exists>cp'. memory_length 0 cp = Some (Done 0, cp') \<and> same_heap cp cp'"
  using kernel_fn_get [where f = "k_length 0", OF assms cp_okD(5) [OF assms]]
  by (simp add: memory_length_def k_length_def wret_apply)

lemma no_error_run:
  assumes ok: "cp_ok cp h" and none: "h_error h = 0"
  shows "\<exists>cp'. get_error_position cp = Some (Done (0, 0), cp') \<and> same_heap cp cp'"
proof -
  obtain c1 where c1: "kernel_fn ''error_get'' (Kernel_missing ''error_get'') k_error_get cp =
      Some (Done 0, c1)" "same_heap cp c1"
    using kernel_fn_get [where f = k_error_get and x = 0, OF ok cp_okD(10) [OF ok]] k_getters(1) none by metis
  have "cp_ok c1 h" using same_heap_ok [OF c1(2)] ok by simp
  then obtain c2 where c2: "memory_length 0 c1 = Some (Done 0, c2)" "same_heap c1 c2"
    using memory_length_zero by blast
  from c1 c2 same_heap_trans [OF c1(2) c2(2)] cp_okD(10) [OF ok] show ?thesis
    by (auto simp: get_error_position_def Let_def hbind_def hcatch_def hret_def)
qed

text \<open>Outputs of a guest that has set no error.\<close>

lemma outputs_run:
  assumes ok: "cp_ok (current p) h" and none: "h_error h = 0"
  shows "\<exists>c. get_output_after_call p = Some (Done (), p\<lparr>current := c, call_output :=
      \<lparr>out_offset = h_output_offset h, out_length = h_output_length h, error_offset = 0, error_length = 0\<rparr>\<rparr>) \<and>
    same_heap (current p) c"
proof -
  obtain c1 where c1: "output_memory_position (current p) =
      Some (Done (h_output_offset h, h_output_length h), c1)" "same_heap (current p) c1"
    using output_position_run [OF ok] by blast
  have "cp_ok c1 h" using same_heap_ok [OF c1(2)] ok by simp
  then obtain c2 where c2: "get_error_position c1 = Some (Done (0, 0), c2)" "same_heap c1 c2"
    using no_error_run none by blast
  from c1 c2 same_heap_trans [OF c1(2) c2(2)] show ?thesis
    by (intro exI [of _ c2]) (simp add: get_output_after_call_def on_current_def)
qed

section \<open>The call\<close>

text \<open>The result of running a guest, as \<^verbatim>\<open>raw_call\<close> sees it: an error or not, and the results.\<close>

definition guest_error :: "call_error + Val list \<Rightarrow> call_error option" where
  "guest_error r = (case r of Inl e \<Rightarrow> Some e | Inr vs \<Rightarrow> None)"

definition guest_results :: "guest_func \<Rightarrow> call_error + Val list \<Rightarrow> Val list" where
  "guest_results f r = (case r of Inl e \<Rightarrow> replicate (length (f_results f)) FuncRef | Inr vs \<Rightarrow> vs)"

definition timer_messages :: "plugin \<Rightarrow> unit TimerAction list" where
  "timer_messages p = [Start (plugin_id p) () (map_option unat (timeout_ms (manifest (current p)))),
     Stop (plugin_id p)]"

text \<open>
  The common part of all calls of a function that exists, of a plugin that is instantiated:
  up to the point where the outputs are read.
\<close>

lemma raw_call_to_outputs:
  assumes inst: "instance_of p = Some fs" "btree_get fs n = Some f" and keep: "\<not> store_needs_reset p"
    and res: "length (f_results f) \<le> 1"
    and input: "set_input input p = Some (Done (), p1)" "input_ready p p1 h1 input"
    and guest: "f_code f [] (current p1) = Some (r, c)"
  shows "\<exists>p4. current p4 = c \<and> instance_of p4 = Some fs \<and> sent p4 = sent p @ timer_messages p \<and>
    raw_call E n input True [] p =
      (case get_output_after_call p4 of
         None \<Rightarrow> None
       | Some (Err e, p5) \<Rightarrow> Some (Host_failed e (-1), [], p5)
       | Some (Fault, p5) \<Rightarrow> Some (Host_fault, [], p5)
       | Some (Done u, p5) \<Rightarrow>
           (case plugin_error n p5 (guest_error r) of
              None \<Rightarrow> None
            | Some (res', p6) \<Rightarrow> Some (final_result res' (return_code True (guest_results f r)), [], p6)))"
proof -
  have p1: "p1 = p\<lparr>call_output := output_default, current := current p1\<rparr>"
    and same: "manifest (current p1) = manifest (current p)"
    using input(2) by (auto simp: input_ready_def same_rest_def)
  have fields: "instance_of p1 = Some fs" "plugin_id p1 = plugin_id p" "sent p1 = sent p"
    by (subst p1, simp add: inst)+
  define p4 where "p4 = p1\<lparr>sent := sent p @ timer_messages p, current := c\<rparr>"
  have run: "run_guest f [] p1 = Some (guest_error r, guest_results f r, p4)"
    using guest(1) fields same
    by (simp add: run_guest_def run_code_def Let_def p4_def timer_messages_def guest_error_def
        guest_results_def split: sum.splits)
  have func: "get_func p1 n = Some f" using fields inst by (simp add: get_func_def)
  have "instantiate E p = Some (None, p)" using inst by (simp add: instantiate_def)
  moreover have "snd (reset_store E p) = p" using keep by (simp add: reset_store_def)
  ultimately have "raw_call E n input True [] p =
      (case get_output_after_call p4 of
         None \<Rightarrow> None
       | Some (Err e, p5) \<Rightarrow> Some (Host_failed e (-1), [], p5)
       | Some (Fault, p5) \<Rightarrow> Some (Host_fault, [], p5)
       | Some (Done u, p5) \<Rightarrow>
           (case plugin_error n p5 (guest_error r) of
              None \<Rightarrow> None
            | Some (res', p6) \<Rightarrow> Some (final_result res' (return_code True (guest_results f r)), [], p6)))"
    using input(1) func res run by (simp add: raw_call_def Let_def)
  then show ?thesis using fields by (intro exI [of _ p4]) (simp add: p4_def)
qed

text \<open>A guest that leaves no error message.\<close>

lemma raw_call_no_message:
  assumes inst: "instance_of p = Some fs" "btree_get fs n = Some f" and keep: "\<not> store_needs_reset p"
    and res: "length (f_results f) \<le> 1"
    and input: "set_input input p = Some (Done (), p1)" "input_ready p p1 h1 input"
    and guest: "f_code f [] (current p1) = Some (r, c)" "cp_ok c h" "h_error h = 0"
  shows "\<exists>p2. raw_call E n input True [] p =
      Some (final_result (guest_error r) (return_code True (guest_results f r)), [], p2) \<and>
    out_offset (call_output p2) = h_output_offset h \<and> out_length (call_output p2) = h_output_length h \<and>
    same_heap c (current p2) \<and> instance_of p2 = Some fs \<and> sent p2 = sent p @ timer_messages p \<and>
    error_offset (call_output p2) = 0"
proof -
  obtain p4 where p4: "current p4 = c" "instance_of p4 = Some fs" "sent p4 = sent p @ timer_messages p"
    and call: "raw_call E n input True [] p =
      (case get_output_after_call p4 of
         None \<Rightarrow> None
       | Some (Err e, p5) \<Rightarrow> Some (Host_failed e (-1), [], p5)
       | Some (Fault, p5) \<Rightarrow> Some (Host_fault, [], p5)
       | Some (Done u, p5) \<Rightarrow>
           (case plugin_error n p5 (guest_error r) of
              None \<Rightarrow> None
            | Some (res', p6) \<Rightarrow> Some (final_result res' (return_code True (guest_results f r)), [], p6)))"
    using raw_call_to_outputs [OF inst keep res input guest(1)] by blast
  have "cp_ok (current p4) h" using guest(2) p4(1) by simp
  from outputs_run [OF this guest(3)] call p4 show ?thesis
    by (auto simp: plugin_error_def Let_def)
qed

text \<open>A guest that leaves an error message: the register points to a block with its text.\<close>

lemma error_position_run:
  assumes ok: "cp_ok cp h" and pages: "pages (kernel_memory cp) < 65536"
    and err: "holds cp h (h_error h) s" "s \<noteq> []"
  shows "\<exists>cp'. get_error_position cp = Some (Done (h_error h, word_of_nat (length s)), cp') \<and> same_heap cp cp'"
proof -
  obtain c1 where c1: "kernel_fn ''error_get'' (Kernel_missing ''error_get'') k_error_get cp =
      Some (Done (h_error h), c1)" "same_heap cp c1"
    using kernel_fn_get [where f = k_error_get, OF ok cp_okD(10) [OF ok] k_getters(1)] by blast
  have ok1: "cp_ok c1 h" using same_heap_ok [OF c1(2)] ok by simp
  have "pages (kernel_memory c1) < 65536" using pages c1(2) by (simp add: same_heap_def)
  from memory_length_run [OF ok1 this, of "h_error h"] err
  obtain c2 where c2: "memory_length (h_error h) c1 = Some (Done (word_of_nat (length s)), c2)" "same_heap c1 c2"
    by (auto simp: holds_def in_heap_def)
  from c1 c2 same_heap_trans [OF c1(2) c2(2)] cp_okD(10) [OF ok] show ?thesis
    by (auto simp: get_error_position_def Let_def hbind_def hcatch_def hret_def)
qed

lemma raw_call_message:
  assumes inst: "instance_of p = Some fs" "btree_get fs n = Some f" and keep: "\<not> store_needs_reset p"
    and res: "length (f_results f) \<le> 1"
    and input: "set_input input p = Some (Done (), p1)" "input_ready p p1 h1 input"
    and guest: "f_code f [] (current p1) = Some (r, c)" "cp_ok c h" "pages (kernel_memory c) < 65536"
    and err: "holds c h (h_error h) s" "s \<noteq> []" "from_utf8_ok s"
  shows "\<exists>p2. raw_call E n input True [] p =
      Some (final_result (Some (case guest_error r of None \<Rightarrow> Text (str_of s) | Some e \<Rightarrow> Context e (str_of s)))
        (return_code True (guest_results f r)), [], p2) \<and> sent p2 = sent p @ timer_messages p \<and>
    same_heap c (current p2) \<and> instance_of p2 = Some fs \<and> error_offset (call_output p2) = h_error h"
proof -
  obtain p4 where p4: "current p4 = c" "instance_of p4 = Some fs" "sent p4 = sent p @ timer_messages p"
    and call: "raw_call E n input True [] p =
      (case get_output_after_call p4 of
         None \<Rightarrow> None
       | Some (Err e, p5) \<Rightarrow> Some (Host_failed e (-1), [], p5)
       | Some (Fault, p5) \<Rightarrow> Some (Host_fault, [], p5)
       | Some (Done u, p5) \<Rightarrow>
           (case plugin_error n p5 (guest_error r) of
              None \<Rightarrow> None
            | Some (res', p6) \<Rightarrow> Some (final_result res' (return_code True (guest_results f r)), [], p6)))"
    using raw_call_to_outputs [OF inst keep res input guest(1)] by blast
  obtain c1 where c1: "output_memory_position c = Some (Done (h_output_offset h, h_output_length h), c1)"
    "same_heap c c1" using output_position_run [OF guest(2)] by blast
  have ok1: "cp_ok c1 h" "pages (kernel_memory c1) < 65536" "holds c1 h (h_error h) s"
    using same_heap_ok [OF c1(2)] guest(2,3) same_heap_holds [OF c1(2)] err(1) c1(2)
    by (simp_all add: same_heap_def)
  obtain c2 where c2: "get_error_position c1 = Some (Done (h_error h, word_of_nat (length s)), c2)"
    "same_heap c1 c2" using error_position_run [OF ok1 err(2)] by blast
  have ok2: "cp_ok c2 h" "holds c2 h (h_error h) s"
    using same_heap_ok [OF c2(2)] same_heap_holds [OF c2(2)] ok1 by simp_all
  let ?hdl = "\<lparr>handle_offset = h_error h, handle_length = word_of_nat (length s)\<rparr>"
  have inh: "in_heap h (h_error h) (length s)" and nz: "h_error h \<noteq> 0" using ok2(2) err(2) by (simp_all add: holds_def)
  have small: "length s < 18446744073709551616" using in_heap_bounds(3) [OF cp_okD(1) [OF ok2(1)] inh] by simp
  then have ln: "handle_len ?hdl = length s" "(word_of_nat (length s) :: u64) \<noteq> 0"
    using err(2) nat64_eq [of "length s" 0] by (simp_all add: handle_len_def word_nat)
  have "memory_bytes ?hdl c2 = Some (Done s, c2)"
    using block_bytes_ok [OF ok2(1), of ?hdl] inh ln ok2(2) err(2) by (simp add: holds_def)
  then have "memory_str ?hdl c2 = Some (Done s, c2)"
    using err(3) by (simp add: memory_str_def hbind_Done hret_def)
  with call p4 c1(1) c2(1) nz ln(2) same_heap_trans [OF c1(2) c2(2)] show ?thesis
    by (auto simp: get_output_after_call_def on_current_def plugin_error_def Let_def split: option.splits)
qed

lemma raw_call_returns:
  assumes inst: "instance_of p = Some fs" "btree_get fs n = Some f" and keep: "\<not> store_needs_reset p"
    and res: "length (f_results f) \<le> 1"
    and input: "set_input input p = Some (Done (), p1)" "input_ready p p1 h1 input"
    and guest: "f_code f [] (current p1) = Some (Inr vs, c)" "cp_ok c h" "h_error h = 0"
  shows "\<exists>p2. raw_call E n input True [] p = Some (Ok (return_code True vs), [], p2) \<and>
    out_offset (call_output p2) = h_output_offset h \<and> out_length (call_output p2) = h_output_length h \<and>
    same_heap c (current p2) \<and> error_offset (call_output p2) = 0"
  using raw_call_no_message [OF assms] by (auto simp: guest_error_def guest_results_def final_result_def)

text \<open>\<^verbatim>\<open>call\<close> agrees with \<^verbatim>\<open>call_get_error_code\<close> on the value and on the state.\<close>

lemma plugin_call_agrees:
  "plugin_call E enc dec n x p = Some (Inr y, p') \<longleftrightarrow> call_get_error_code E enc dec n x p = Some (Inr y, p')"
  "plugin_call E enc dec n x p = None \<longleftrightarrow> call_get_error_code E enc dec n x p = None"
  by (auto simp: plugin_call_def call_get_error_code_def split: option.splits sum.splits call_result.splits
      hres.splits)

lemma typed_plugin_exists:
  "typed_plugin E functions p = Inr p' \<longleftrightarrow> p' = p \<and> (\<forall>f \<in> set functions. function_exists E f)"
  by (auto simp: typed_plugin_def find_None_iff find_Some_iff split: option.splits)

section \<open>A guest that returns its input\<close>

text \<open>
  The smallest useful guest: it passes the input registers to \<^verbatim>\<open>output_set\<close> and returns 0.  It
  serves to show that input, call and output fit together.
\<close>

definition echo_kernel :: "unit wasm" where
  "echo_kernel = wbind k_input_offset (\<lambda>o1. wbind k_input_length (\<lambda>l. k_output_set o1 l))"

definition echo_code :: guest_code where
  "echo_code args c =
     (case kernel_fn ''output_set'' (Kernel_missing ''output_set'') echo_kernel
             (c\<lparr>linked := ''output_set'' # linked c\<rparr>) of
        None \<Rightarrow> None
      | Some (Done u, c') \<Rightarrow> Some (Inr [I32 0], c'\<lparr>linked := linked c\<rparr>)
      | Some (r, c') \<Rightarrow> Some (Inl (Text ''trap''), c'\<lparr>linked := linked c\<rparr>))"

definition echo_func :: guest_func where
  "echo_func = \<lparr>f_params = [], f_results = [TI32], f_code = echo_code\<rparr>"

lemma echo_kernel_run:
  assumes "heap_repr m h"
  shows "run_agrees h m (echo_kernel m) () (heap_output_set (h_input_offset h) (h_input_length h) h)"
  using k_output_set_ok [OF assms] k_getters(2,3) [OF assms]
  by (simp add: echo_kernel_def wbind_Ret)

lemma echo_run:
  assumes ok: "cp_ok c h" and arg: "holds c h (h_input_offset h) input"
    and len: "h_input_length h = word_of_nat (length input)" "length input < 4294967296"
    and clean: "h_output_offset h = 0" "h_output_length h = 0"
  shows "\<exists>c' h'. echo_code [] c = Some (Inr [I32 0], c') \<and> cp_ok c' h' \<and> h_error h' = h_error h \<and>
    h_output_offset h' = h_input_offset h \<and> h_output_length h' = h_input_length h \<and>
    holds c' h' (h_input_offset h) input"
proof -
  let ?c = "c\<lparr>linked := ''output_set'' # linked c\<rparr>"
  let ?h = "h\<lparr>h_output_offset := h_input_offset h, h_output_length := h_input_length h\<rparr>"
  have target: "heap_output_set (h_input_offset h) (h_input_length h) h = ?h"
  proof (cases "input = []")
    case True
    with arg len(1) have z: "h_input_offset h = 0" "h_input_length h = 0" by (simp_all add: holds_def)
    have "h = ?h" using z clean by simp
    moreover have "heap_output_set 0 0 h = h" by (simp add: heap_output_set_def in_bounds_def)
    ultimately show ?thesis using z by simp
  next
    case False
    then have "in_heap h (h_input_offset h) (length input)" using arg by (simp add: holds_def)
    from block_in_bounds [OF cp_okD(1) [OF ok] this] False len(1) show ?thesis
      by (simp add: heap_output_set_def)
  qed
  have ok': "cp_ok ?c h" using ok by (auto simp: cp_ok_def)
  have "run_agrees h ((kernel_memory ?c)\<lparr>growth := growth_verdict ?c\<rparr>)
      (echo_kernel ((kernel_memory ?c)\<lparr>growth := growth_verdict ?c\<rparr>)) () ?h"
    using echo_kernel_run [of "(kernel_memory ?c)\<lparr>growth := growth_verdict ?c\<rparr>" h] cp_okD(1) [OF ok'] target
    by simp
  from kernel_fn_agrees [where f = echo_kernel and n = "''output_set''", OF ok' _ this]
  obtain c1 where c1: "kernel_fn ''output_set'' (Kernel_missing ''output_set'') echo_kernel ?c = Some (Done (), c1)"
    "cp_ok c1 ?h" "keeps_blocks h ?c c1" by auto
  let ?c1 = "c1\<lparr>linked := linked c\<rparr>"
  have "cp_ok ?c1 ?h" using c1(2) ok by (auto simp: cp_ok_def)
  moreover have "holds ?c1 ?h (h_input_offset h) input"
  proof (cases "input = []")
    case False
    then have inh: "in_heap h (h_input_offset h) (length input)" using arg by (simp add: holds_def)
    then have "(unat (h_input_offset h), length input) \<in> heap_live h"
      using heap_find_live [OF heap_reprD(1) [OF cp_okD(1) [OF ok]]] by (auto simp: in_heap_def)
    with c1(3) have "read_bytes (bytes (kernel_memory c1)) (unat (h_input_offset h)) (length input) =
        read_bytes (bytes (kernel_memory c)) (unat (h_input_offset h)) (length input)"
      by (auto simp: keeps_blocks_def)
    with arg False show ?thesis by (simp add: holds_def in_heap_def heap_find_def)
  qed (use arg in \<open>simp add: holds_def\<close>)
  ultimately show ?thesis
    using c1(1) by (intro exI [of _ ?c1] exI [of _ ?h]) (simp add: echo_code_def)
qed

text \<open>The whole way: the output registers of the call designate what the caller passed in.\<close>

lemma echo_raw_call:
  assumes inst: "instance_of p = Some fs" "btree_get fs n = Some echo_func" and keep: "\<not> store_needs_reset p"
    and ok: "cp_ok (current p) h" and len: "length input < 4294967296"
    and room: "\<And>g. input \<noteq> [] \<Longrightarrow> heap_take g (length input) (heap_reset h) \<noteq> None"
  shows "\<exists>p' h'. raw_call E n input True [] p = Some (Ok 0, [], p') \<and>
    cp_ok (current p') h' \<and> holds (current p') h' (out_offset (call_output p')) input \<and>
    out_length (call_output p') = word_of_nat (length input) \<and> error_offset (call_output p') = 0"
proof -
  obtain p1 h1 where input: "set_input input p = Some (Done (), p1)" "input_ready p p1 h1 input"
    using set_input_run [OF ok len] room by blast
  then have ready: "cp_ok (current p1) h1" "holds (current p1) h1 (h_input_offset h1) input"
    "h_input_length h1 = word_of_nat (length input)" "h_error h1 = 0"
    "h_output_offset h1 = 0" "h_output_length h1 = 0"
    by (auto simp: input_ready_def)
  obtain c h2 where guest: "echo_code [] (current p1) = Some (Inr [I32 0], c)" "cp_ok c h2"
    "h_error h2 = 0" "h_output_offset h2 = h_input_offset h1" "h_output_length h2 = h_input_length h1"
    "holds c h2 (h_input_offset h1) input"
    using echo_run [OF ready(1-3) len ready(5,6)] ready(4) by auto
  have "f_code echo_func [] (current p1) = Some (Inr [I32 0], c)" "length (f_results echo_func) \<le> 1"
    using guest(1) by (simp_all add: echo_func_def)
  from raw_call_returns [OF inst keep this(2) input this(1) guest(2,3), of E]
  obtain p2 where call: "raw_call E n input True [] p = Some (Ok 0, [], p2)"
    "out_offset (call_output p2) = h_input_offset h1" "out_length (call_output p2) = h_input_length h1"
    "same_heap c (current p2)" "error_offset (call_output p2) = 0"
    using guest(4,5) by (auto simp: return_code_def)
  have "cp_ok (current p2) h2" "holds (current p2) h2 (h_input_offset h1) input"
    using same_heap_ok [OF call(4)] same_heap_holds [OF call(4)] guest(2,6) by simp_all
  with call ready(3) show ?thesis by auto
qed

lemma echo_call:
  assumes "instance_of p = Some fs" "btree_get fs n = Some echo_func" "\<not> store_needs_reset p"
    and "cp_ok (current p) h" and len: "length input < 4294967296"
    and "\<And>g. input \<noteq> [] \<Longrightarrow> heap_take g (length input) (heap_reset h) \<noteq> None"
  shows "\<exists>p'. call_get_error_code E bytes_to_bytes bytes_from_bytes n input p = Some (Inr input, p')"
proof -
  obtain p2 h2 where call: "raw_call E n input True [] p = Some (Ok 0, [], p2)"
    and ok2: "cp_ok (current p2) h2" and held: "holds (current p2) h2 (out_offset (call_output p2)) input"
    and out: "out_length (call_output p2) = word_of_nat (length input)"
    using echo_raw_call [OF assms] by blast
  let ?hdl = "\<lparr>handle_offset = out_offset (call_output p2), handle_length = out_length (call_output p2)\<rparr>"
  have ln: "handle_len ?hdl = length input" using out len by (simp add: handle_len_def word_nat)
  have "memory_bytes ?hdl (current p2) = Some (Done input, current p2)"
    using block_bytes_ok [OF ok2, of ?hdl] held ln out
    by (cases "input = []") (auto simp: holds_def read_bytes_def)
  then have "plugin_output bytes_from_bytes p2 = Some (Done input, p2)"
    by (simp add: plugin_output_def on_current_def memory_get_def hbind_Done decoded_def
        bytes_from_bytes_def hret_def)
  with call show ?thesis by (simp add: call_get_error_code_def bytes_to_bytes_def)
qed

end
