(* ===== verification/Demo.thy ===== *)
theory Demo
  imports Plugin_Call
begin

text \<open>
  Concrete states for the witnesses of the properties: the memory of a new kernel instance
  of 16 pages (the size the shipped kernel starts with), a heap with one block of 10 bytes,
  and a plugin on top of it.
\<close>

section \<open>Memories\<close>

definition demo_mem :: wasm_mem where
  "demo_mem = \<lparr>bytes = (\<lambda>i. 0), pages = 16, growth = (\<lambda>cur n. Grown)\<rparr>"

lemma demo_fresh: "fresh demo_mem"
  by (simp add: demo_mem_def fresh_def)

lemma demo_init: "heap_repr (initialised demo_mem) (heap_init 16)" "growth (initialised demo_mem) = (\<lambda>cur n. Grown)"
  using initialised_fresh [OF demo_fresh] by (simp_all add: demo_mem_def)

definition demo_heap :: heap where
  "demo_heap = heap_push 10 (heap_init 16)"

definition demo_mem1 :: wasm_mem where
  "demo_mem1 = (initialised demo_mem)\<lparr>bytes := push_store (bytes (initialised demo_mem)) 0 10\<rparr>"

lemma demo_heap_blocks: "h_blocks demo_heap = [\<lparr>bstat = Active, bsize = 10, bused = 10\<rparr>]"
  by (simp add: demo_heap_def heap_push_def heap_init_def)

lemma demo_repr1: "heap_repr demo_mem1 demo_heap"
proof -
  have "h_position (heap_init 16) = 0" "h_length (heap_init 16) = 65472" by (simp_all add: heap_init_def)
  with heap_repr_push [OF demo_init(1), of 10] show ?thesis
    by (simp add: demo_mem1_def demo_heap_def)
qed

lemma demo_mem1_simps: "growth demo_mem1 = (\<lambda>cur n. Grown)" "pages demo_mem1 = 16" "mem_size demo_mem1 = 1048576"
  using demo_init(2) heap_reprD(2,3) [OF demo_init(1)]
  by (simp_all add: demo_mem1_def heap_init_def)

lemma demo_find: "heap_find demo_heap 77 = Some ([], \<lparr>bstat = Active, bsize = 10, bused = 10\<rparr>, [])"
  by (simp add: heap_find_def demo_heap_blocks)

section \<open>A plugin\<close>

definition demo_manifest :: Manifest where
  "demo_manifest = manifest_default\<lparr>config := [(''k'', ''v'')], allowed_hosts := Some [''a.org''],
     timeout_ms := Some 1000\<rparr>"

definition demo_cp :: CurrentPlugin where
  "demo_cp = \<lparr>vars = [(''k'', [1, 2])], manifest = demo_manifest, wasi = None, http_status = 0,
     available_pages = None, memory_limiter = None, kernel_memory = initialised demo_mem,
     linked = kernel_exports, engine_growth = (\<lambda>cur n. Grown), memory_export = None\<rparr>"

lemma demo_cp_ok: "cp_ok demo_cp (heap_init 16)" "pages (kernel_memory demo_cp) = 16"
  using demo_init(1) heap_reprD(2) [OF demo_init(1)]
  by (simp_all add: cp_ok_def demo_cp_def heap_init_def)

lemma demo_take: "0 < n \<Longrightarrow> n < 65000 \<Longrightarrow>
    heap_take g n (heap_init 16) = Some (77, heap_push n (heap_init 16))"
  by (simp add: heap_take_def heap_alloc_def heap_init_def Let_def)

text \<open>The key \<^verbatim>\<open>k\<close> in the memory of the plugin: a state and a handle that holds it.\<close>

lemma demo_key:
  obtains hdl cp h where "stored demo_cp (heap_init 16) [107] hdl cp h"
    "cp_ok cp h" "pages (kernel_memory cp) < 65536" "holds cp h (handle_offset hdl) [107]"
    "vars cp = [(''k'', [1, 2])]" "manifest cp = demo_manifest"
proof -
  have "heap_take (growth_verdict demo_cp) (length [107 :: u8]) (heap_init 16) \<noteq> None"
    by (simp add: demo_take)
  with memory_new_run [OF demo_cp_ok(1), of "[107]"] obtain hdl cp h
    where st: "stored demo_cp (heap_init 16) [107] hdl cp h" by auto
  then have "h = heap_push 1 (heap_init 16)" by (simp add: stored_def demo_take)
  then have "h_pages h = 16" by (simp add: heap_push_def heap_init_def)
  moreover have "cp_ok cp h" using st by (simp add: stored_def)
  ultimately have "pages (kernel_memory cp) < 65536"
    using heap_reprD(2) [OF cp_okD(1)] by simp
  moreover have "holds cp h (handle_offset hdl) [107]" using st by (simp add: stored_def holds_def)
  moreover have "vars cp = vars demo_cp" "manifest cp = manifest demo_cp" using st by (simp_all add: stored_def)
  ultimately show ?thesis using that [OF st] \<open>cp_ok cp h\<close> by (simp add: demo_cp_def)
qed

definition demo_plugin :: plugin where
  "demo_plugin = \<lparr>plugin_id = 1, current = demo_cp, instance_of = Some [(''echo'', echo_func)],
     instantiations = 1, runtime = None, sent = [], call_output = output_default,
     store_needs_reset = False\<rparr>"

lemma demo_room: "input \<noteq> [] \<Longrightarrow> length input < 65000 \<Longrightarrow>
    heap_take g (length input) (heap_reset (heap_init 16)) \<noteq> None"
  by (simp add: heap_take_def heap_alloc_def heap_init_def heap_reset_def Let_def)

lemma demo_input:
  obtains p1 where "set_input [] demo_plugin = Some (Done (), p1)"
    "input_ready demo_plugin p1 (heap_reset (heap_init 16)) []"
    "cp_ok (current p1) (heap_reset (heap_init 16))"
proof -
  have "cp_ok (current demo_plugin) (heap_init 16)" using demo_cp_ok(1) by (simp add: demo_plugin_def)
  from set_input_empty [OF this] show ?thesis using that by (auto simp: input_ready_def)
qed

text \<open>A guest that leaves the message \<^verbatim>\<open>bad\<close> and returns 7.\<close>

definition bad_code :: guest_code where
  "bad_code args c =
     (case set_error_msg [98, 97, 100] c of
        None \<Rightarrow> None
      | Some (Done r, c') \<Rightarrow> Some (Inr [I32 7], c')
      | Some (_, c') \<Rightarrow> Some (Inl (Text ''trap''), c'))"

definition bad_func :: guest_func where
  "bad_func = \<lparr>f_params = [], f_results = [TI32], f_code = bad_code\<rparr>"

definition bad_plugin :: plugin where
  "bad_plugin = demo_plugin\<lparr>instance_of := Some [(''bad'', bad_func)]\<rparr>"

lemma bad_input:
  obtains p1 c h where "set_input [] bad_plugin = Some (Done (), p1)"
    "input_ready bad_plugin p1 (heap_reset (heap_init 16)) []"
    "f_code bad_func [] (current p1) = Some (Inr [I32 7], c)" "cp_ok c h"
    "pages (kernel_memory c) < 65536" "holds c h (h_error h) [98, 97, 100]"
    "\<forall>g. heap_take g 3 h \<noteq> None"
proof -
  have "cp_ok (current bad_plugin) (heap_init 16)"
    using demo_cp_ok(1) by (simp add: bad_plugin_def demo_plugin_def)
  from set_input_empty [OF this] obtain p1
    where p1: "set_input [] bad_plugin = Some (Done (), p1)"
      "input_ready bad_plugin p1 (heap_reset (heap_init 16)) []" by blast
  then have ok: "cp_ok (current p1) (heap_reset (heap_init 16))" by (simp add: input_ready_def)
  define s :: "u8 list" where "s = [98, 97, 100]"
  have s: "s \<noteq> []" "length s < 4294967296" "length s = 3" by (simp_all add: s_def)
  let ?h1 = "heap_push 3 (heap_reset (heap_init 16))"
  have take: "heap_take g (length s) (heap_reset (heap_init 16)) = Some (77, ?h1)" for g
    unfolding s(3) by (simp add: heap_take_def heap_alloc_def heap_init_def heap_reset_def Let_def)
  from set_error_msg_run [OF ok s(1,2)] obtain c h
    where c: "set_error_msg s (current p1) = Some (Done (h_error h, word_of_nat (length s)), c)"
      "cp_ok c h" "holds c h (h_error h) s" "h = ?h1\<lparr>h_error := h_error h\<rparr>"
    by (auto simp: take)
  have "h_pages h = 16" by (subst c(4)) (simp add: heap_push_def heap_reset_def heap_init_def)
  then have "pages (kernel_memory c) < 65536" using heap_reprD(2) [OF cp_okD(1) [OF c(2)]] by simp
  moreover have "\<forall>g. heap_take g 3 h \<noteq> None"
    by (subst c(4)) (simp add: heap_take_def heap_alloc_def heap_push_def heap_init_def heap_reset_def Let_def)
  moreover have "f_code bad_func [] (current p1) = Some (Inr [I32 7], c)"
    using c(1) by (simp add: bad_func_def bad_code_def s_def)
  moreover have "holds c h (h_error h) [98, 97, 100]" using c(3) by (simp add: s_def)
  ultimately show ?thesis using that [OF p1 _ c(2)] by simp
qed

definition demo_env :: runtime_env where
  "demo_env = \<lparr>instantiate_main = (\<lambda>c. None), relink = Inr demo_mem, pre_instantiate = None,
     main_exports = [], env_ok = (\<lambda>b. True), dir_ok = (\<lambda>b. True), env_output = False\<rparr>"

section \<open>A loader\<close>

text \<open>A compiler that accepts everything, a hash that is the identity, no parsers, no network.\<close>

definition demo_loader :: "u8 list loader" where
  "demo_loader = \<lparr>compile = Some, runtime_wasm = [0], read_file = (\<lambda>p. None),
     http_call = (\<lambda>m u h. None), sha256 = (\<lambda>d. d), toml_from_str = (\<lambda>d. None),
     json_from_str = (\<lambda>d. None), register_filesystem = True, register_http = False\<rparr>"

definition demo_two :: Manifest where
  "demo_two = manifest_new [with_hash ''02'' (with_name ''x'' (wasm_data [2])), wasm_data [3]]"

lemma demo_load:
  "load demo_loader (Input_manifest demo_two) =
     Inr (demo_two, [(EXTISM_ENV_MODULE, [0]), (MAIN_KEY, [3]), (''x'', [2])])"
  by (simp add: load_def demo_loader_def demo_two_def manifest_new_def with_name_def with_hash_def
      wasm_data_def wasm_metadata_default_def module_new_def modules_def checked_module_def check_hash_def
      hex_def hex_digit_def name_of_module_def contains_key_def Let_def MAIN_KEY_def EXTISM_ENV_MODULE_def
      less_char_def)

end
