(* ===== verification/Host_Function.thy ===== *)
theory Host_Function
  imports Plugin_Call
begin

text \<open>
  Host functions, \<^verbatim>\<open>runtime/src/function.rs\<close>: the types of values, the user data of a function,
  the function itself, and the body the \<^verbatim>\<open>host_fn!\<close> macro writes.  What the embedder supplies is a
  function on arguments and state; \<^verbatim>\<open>ValType\<close> of the model is wasmtime's, \<open>ExtismType\<close> Extism's.
\<close>

section \<open>Types of values\<close>

datatype ExtismType = EI32 | EI64 | EF32 | EF64 | EV128 | EFuncRef | EExternRef

definition PTR :: ExtismType where
  "PTR = EI64"

fun type_from_wasmtime :: "ValType \<Rightarrow> ExtismType" where
  "type_from_wasmtime TI32 = EI32"
| "type_from_wasmtime TI64 = EI64"
| "type_from_wasmtime TF32 = EF32"
| "type_from_wasmtime TF64 = EF64"
| "type_from_wasmtime TV128 = EV128"
| "type_from_wasmtime TFuncRef = EFuncRef"
| "type_from_wasmtime TExternRef = EExternRef"

fun type_to_wasmtime :: "ExtismType \<Rightarrow> ValType" where
  "type_to_wasmtime EI32 = TI32"
| "type_to_wasmtime EI64 = TI64"
| "type_to_wasmtime EF32 = TF32"
| "type_to_wasmtime EF64 = TF64"
| "type_to_wasmtime EV128 = TV128"
| "type_to_wasmtime EFuncRef = TFuncRef"
| "type_to_wasmtime EExternRef = TExternRef"

lemma type_round [simp]: "type_to_wasmtime (type_from_wasmtime t) = t" "type_from_wasmtime (type_to_wasmtime e) = e"
  by (cases t; simp) (cases e; simp)

section \<open>User data\<close>

text \<open>
  A C pointer is a number, 0 is null; \<open>has_free\<close> tells whether a cleanup function was given.  An
  \<^verbatim>\<open>Arc\<close> is its contents; the drop of the last one is \<open>cptr_drop\<close>, which yields the calls of the
  cleanup function.
\<close>

record CPtr =
  c_ptr :: nat
  has_free :: bool

datatype 'a UserData = UD_C CPtr | UD_Rust 'a

datatype UserDataHandle = Handle_C CPtr | Handle_Rust

definition userdata_new_pointer :: "nat \<Rightarrow> bool \<Rightarrow> 'a UserData" where
  "userdata_new_pointer p free = UD_C \<lparr>c_ptr = p, has_free = free\<rparr>"

fun userdata_as_ptr :: "'a UserData \<Rightarrow> nat" where
  "userdata_as_ptr (UD_C p) = c_ptr p"
| "userdata_as_ptr (UD_Rust x) = 0"

definition userdata_new :: "'a \<Rightarrow> 'a UserData" where
  "userdata_new x = UD_Rust x"

text \<open>\<open>d\<close> is the default of the type.\<close>

definition userdata_default :: "'a \<Rightarrow> 'a UserData" where
  "userdata_default d = userdata_new d"

fun userdata_get :: "'a UserData \<Rightarrow> host_error + 'a" where
  "userdata_get (UD_C p) = Inl (Message ''C UserData should not be used from Rust'')"
| "userdata_get (UD_Rust x) = Inr x"

definition cptr_drop :: "CPtr \<Rightarrow> nat list \<times> CPtr" where
  "cptr_drop p =
     (if c_ptr p \<noteq> 0 \<and> has_free p then ([c_ptr p], p\<lparr>c_ptr := 0\<rparr>) else ([], p))"

text \<open>The cleanup function runs at most once.\<close>

lemma cptr_drop_once: "cptr_drop p = (fs, p') \<Longrightarrow> length fs \<le> 1 \<and> (fs = [] \<or> fst (cptr_drop p') = [])"
  by (auto simp: cptr_drop_def split: if_splits)

section \<open>Functions\<close>

text \<open>A body gets the inputs and the array of outputs, and returns that array as it leaves it.\<close>

type_synonym host_body = "Val list \<Rightarrow> Val list \<Rightarrow> Val list host"

record Function =
  fn_name :: string
  fn_namespace :: "string option"
  fn_ty :: "ValType list \<times> ValType list"
  fn_body :: host_body
  fn_user_data :: UserDataHandle

fun userdata_handle :: "'a UserData \<Rightarrow> UserDataHandle" where
  "userdata_handle (UD_C p) = Handle_C p"
| "userdata_handle (UD_Rust x) = Handle_Rust"

definition function_new ::
    "string \<Rightarrow> ExtismType list \<Rightarrow> ExtismType list \<Rightarrow> 'a UserData \<Rightarrow> ('a UserData \<Rightarrow> host_body) \<Rightarrow> Function" where
  "function_new n args returns ud f =
     \<lparr>fn_name = n, fn_namespace = None,
      fn_ty = (map type_to_wasmtime args, map type_to_wasmtime returns),
      fn_body = f ud, fn_user_data = userdata_handle ud\<rparr>"

definition set_namespace :: "string \<Rightarrow> Function \<Rightarrow> Function" where
  "set_namespace ns f = f\<lparr>fn_namespace := Some ns\<rparr>"

definition with_namespace :: "string \<Rightarrow> Function \<Rightarrow> Function" where
  "with_namespace ns f = set_namespace ns f"

section \<open>The macro \<^verbatim>\<open>host_fn!\<close>\<close>

text \<open>
  The arguments are decoded from the inputs in order; indexing past the inputs panics, which the
  model takes for an error, as in \<^verbatim>\<open>pdk.rs\<close>.  The arguments have types of their own; the model
  decodes them to one type.  The body may fail; its result goes to the memory of the plugin, and
  its handle to the first output, if there is one.
\<close>

fun host_args :: "(u8 list \<Rightarrow> convert_error + 'a) list \<Rightarrow> nat \<Rightarrow> Val list \<Rightarrow> 'a list host" where
  "host_args [] index inputs = hret []"
| "host_args (dec # ds) index inputs =
     (if length inputs \<le> index then herr (Message ''index out of bounds'')
      else hbind (memory_get_val dec (inputs ! index)) (\<lambda>x.
           hbind (host_args ds (Suc index) inputs) (\<lambda>xs. hret (x # xs))))"

definition host_fn ::
    "(u8 list \<Rightarrow> convert_error + 'a) list \<Rightarrow> ('a list \<Rightarrow> host_error + 'b) \<Rightarrow>
     ('b \<Rightarrow> convert_error + u8 list) \<Rightarrow> host_body" where
  "host_fn decs body enc inputs outputs =
     hbind (host_args decs 0 inputs) (\<lambda>args.
       case body args of
         Inl e \<Rightarrow> herr e
       | Inr result \<Rightarrow>
           hbind (memory_new (enc result)) (\<lambda>h.
             hret (if outputs = [] then outputs else outputs[0 := memory_to_val h])))"

section \<open>A call of a host function\<close>

text \<open>An input that is the handle of a live block with an encoded value, or 0 for the empty bytes.\<close>

fun args_hold ::
    "CurrentPlugin \<Rightarrow> heap \<Rightarrow> (u8 list \<Rightarrow> convert_error + 'a) list \<Rightarrow> u64 list \<Rightarrow> 'a list \<Rightarrow> bool" where
  "args_hold cp h [] [] [] = True"
| "args_hold cp h (dec # ds) (offs # os) (x # xs) =
     ((\<exists>d. holds cp h offs d \<and> dec d = Inr x) \<and> args_hold cp h ds os xs)"
| "args_hold cp h _ _ _ = False"

lemma same_heap_args: "same_heap cp cp' \<Longrightarrow> args_hold cp' h ds os xs = args_hold cp h ds os xs"
  by (induction cp h ds os xs rule: args_hold.induct) (simp_all add: same_heap_holds)

lemma memory_get_val_handle:
  "memory_get_val dec (I64 offs) cp =
     hbind (handle_or offs) (\<lambda>hdl. hbind (memory_bytes hdl) (\<lambda>d. decoded (dec d))) cp"
  by (auto simp: memory_get_val_def handle_or_def hbind_def hret_def herr_def split: option.splits hres.splits)

lemma memory_get_val_run:
  assumes ok: "cp_ok cp h" "pages (kernel_memory cp) < 65536" and arg: "holds cp h offs d" "dec d = Inr x"
  shows "\<exists>cp'. memory_get_val dec (I64 offs) cp = Some (Done x, cp') \<and> same_heap cp cp'"
proof -
  obtain hdl cp' where "handle_or offs cp = Some (Done hdl, cp')" "same_heap cp cp'"
    "memory_bytes hdl cp' = Some (Done d, cp')"
    using handle_or_holds [OF ok arg(1)] by blast
  then show ?thesis
    using arg(2) by (auto simp: memory_get_val_handle hbind_Done decoded_def hret_def)
qed

lemma host_args_run:
  assumes "cp_ok cp h" "pages (kernel_memory cp) < 65536" "args_hold cp h decs offs xs"
  shows "\<exists>cp'. host_args decs (length pre) (pre @ map I64 offs) cp = Some (Done xs, cp') \<and> same_heap cp cp'"
  using assms
proof (induction decs arbitrary: cp pre offs xs)
  case Nil
  then show ?case by (cases offs; cases xs) (simp_all add: hret_def)
next
  case (Cons dec ds)
  obtain o1 os x ys where eq: "offs = o1 # os" "xs = x # ys"
    using Cons.prems(3) by (cases offs; cases xs) auto
  obtain d where d: "holds cp h o1 d" "dec d = Inr x" using Cons.prems(3) eq by auto
  obtain cp1 where cp1: "memory_get_val dec (I64 o1) cp = Some (Done x, cp1)" "same_heap cp cp1"
    using memory_get_val_run [where dec = dec, OF Cons.prems(1,2) d] by blast
  have ok1: "cp_ok cp1 h" "pages (kernel_memory cp1) < 65536" "args_hold cp1 h ds os ys"
    using Cons.prems eq same_heap_ok [OF cp1(2)] same_heap_args [OF cp1(2), of h ds os ys] cp1(2)
    by (simp_all add: same_heap_def)
  obtain cp2 where cp2: "host_args ds (Suc (length pre)) (pre @ I64 o1 # map I64 os) cp1 = Some (Done ys, cp2)"
    "same_heap cp1 cp2"
    using Cons.IH [OF ok1, of "pre @ [I64 o1]"] by auto
  show ?case
    using cp1(1) cp2(1) same_heap_trans [OF cp1(2) cp2(2)]
    by (intro exI [of _ cp2]) (simp add: eq hbind_Done hret_def)
qed

text \<open>A call of a host function, end to end.\<close>

lemma host_fn_run:
  assumes ok: "cp_ok cp h" "pages (kernel_memory cp) < 65536" and args: "args_hold cp h decs offs xs"
    and body: "body xs = Inr y" "enc y = Inr r" and len: "length r < 4294967296" and out: "outputs \<noteq> []"
  shows "(\<exists>o1 cp' h'. host_fn decs body enc (map I64 offs) outputs cp = Some (Done (outputs[0 := I64 o1]), cp') \<and>
      cp_ok cp' h' \<and> holds cp' h' o1 r \<and> keeps_blocks h cp cp' \<and> vars cp' = vars cp \<and> manifest cp' = manifest cp)
    \<or> (\<exists>e cp' g. host_fn decs body enc (map I64 offs) outputs cp = Some (Err e, cp') \<and> r \<noteq> [] \<and>
      heap_take g (length r) h = None \<and> cp_ok cp' h \<and> keeps_blocks h cp cp')"
proof -
  obtain cp1 where cp1: "host_args decs 0 (map I64 offs) cp = Some (Done xs, cp1)" "same_heap cp cp1"
    using host_args_run [OF ok args, of "[]"] by auto
  have ok1: "cp_ok cp1 h" using same_heap_ok [OF cp1(2)] ok(1) by simp
  have step: "host_fn decs body enc (map I64 offs) outputs cp =
      hbind (memory_new (Inr r)) (\<lambda>h. hret (outputs[0 := memory_to_val h])) cp1"
    using cp1(1) body out by (simp add: host_fn_def hbind_Done)
  have same: "vars cp1 = vars cp" "manifest cp1 = manifest cp" "keeps_blocks h cp1 = keeps_blocks h cp"
    using cp1(2) same_heap_keeps [OF cp1(2)] by (auto simp: same_heap_def)
  from return_value_run [OF ok1 len] show ?thesis
  proof (elim disjE exE conjE)
    fix o1 cp' h'
    assume run: "hbind (memory_new (Inr r)) (\<lambda>mem. hret [I64 (handle_offset mem)]) cp1 = Some (Done [I64 o1], cp')"
      and rest: "cp_ok cp' h'" "holds cp' h' o1 r" "keeps_blocks h cp1 cp'" "vars cp' = vars cp1" "manifest cp' = manifest cp1"
    from run obtain hdl where "memory_new (Inr r) cp1 = Some (Done hdl, cp')" "handle_offset hdl = o1"
      by (auto simp: hret_def elim!: hbind_DoneE)
    then have "host_fn decs body enc (map I64 offs) outputs cp = Some (Done (outputs[0 := I64 o1]), cp')"
      by (simp add: step hbind_Done hret_def memory_to_val_def)
    with rest same show ?thesis by auto
  next
    fix e cp'
    assume run: "hbind (memory_new (Inr r)) (\<lambda>mem. hret [I64 (handle_offset mem)]) cp1 = Some (Err e, cp')"
      and rest: "r \<noteq> []" "heap_take (growth_verdict cp1) (length r) h = None" "cp_ok cp' h" "keeps_blocks h cp1 cp'"
    from run have "memory_new (Inr r) cp1 = Some (Err e, cp')"
      by (auto simp: hbind_def hret_def split: option.splits hres.splits prod.splits)
    then have "host_fn decs body enc (map I64 offs) outputs cp = Some (Err e, cp')"
      by (simp add: step hbind_Err)
    with rest same show ?thesis by auto
  qed
qed

text \<open>An error of the body is the error of the call; nothing is written.\<close>

lemma host_fn_error:
  assumes "cp_ok cp h" "pages (kernel_memory cp) < 65536" "args_hold cp h decs offs xs" "body xs = Inl e"
  shows "\<exists>cp'. host_fn decs body enc (map I64 offs) outputs cp = Some (Err e, cp') \<and> same_heap cp cp'"
proof -
  obtain cp1 where "host_args decs 0 (map I64 offs) cp = Some (Done xs, cp1)" "same_heap cp cp1"
    using host_args_run [OF assms(1-3), of "[]"] by auto
  with assms(4) show ?thesis by (auto simp: host_fn_def hbind_Done herr_def)
qed

end
