(* ===== verification/Build.thy ===== *)
theory Build
  imports Host_Function
begin

text \<open>
  The construction of a plugin: \<^verbatim>\<open>Plugin::build_new\<close> with \<^verbatim>\<open>Plugin::new\<close> and
  \<^verbatim>\<open>new_with_memories\<close> (\<^verbatim>\<open>runtime/src/plugin.rs\<close>), the debug options (\<^verbatim>\<open>plugin_builder.rs\<close>), and the memories
  an Otoroshi host may define (\<^verbatim>\<open>otoroshi/wasm_memory.rs\<close>).  The linker is a map from a module and a
  name to what was last defined there: the code allows shadowing.  What wasmtime decides is a field
  of a record: whether a configuration is valid, whether a module can be instantiated against a
  linker, and which names it exports.
\<close>

section \<open>Options and memories\<close>

datatype ProfilingStrategy = No_profiling | PerfMap | JitDump | VTune

record DebugOptions =
  profiling :: ProfilingStrategy
  coredump :: "string option"
  memdump :: "string option"
  debug_info :: bool

text \<open>\<open>env_var\<close> is the environment of the process.\<close>

definition profiling_strategy :: "(string \<Rightarrow> string option) \<Rightarrow> ProfilingStrategy" where
  "profiling_strategy env_var =
     (case env_var ''EXTISM_PROFILE'' of
        None \<Rightarrow> No_profiling
      | Some v \<Rightarrow>
          if v = ''perf'' then PerfMap else if v = ''jitdump'' then JitDump
          else if v = ''vtune'' then VTune else No_profiling)"

definition debug_options_default :: "(string \<Rightarrow> string option) \<Rightarrow> DebugOptions" where
  "debug_options_default env_var =
     \<lparr>profiling = profiling_strategy env_var,
      coredump = env_var ''EXTISM_COREDUMP'',
      memdump = env_var ''EXTISM_MEMDUMP'',
      debug_info = (env_var ''EXTISM_DEBUG'' \<noteq> None)\<rparr>"

record WasmMemory =
  wm_name :: string
  wm_namespace :: string
  wm_min :: u32
  wm_max :: "u32 option"

definition wasm_memory_new :: "string \<Rightarrow> string \<Rightarrow> u32 \<Rightarrow> u32 \<Rightarrow> WasmMemory" where
  "wasm_memory_new n ns lower upper =
     \<lparr>wm_name = n, wm_namespace = ns, wm_min = lower,
      wm_max = (if lower < upper then Some upper else None)\<rparr>"

section \<open>The linker\<close>

datatype extern =
    Module_export string string
  | Wasi_export string string
  | Pdk_export string
  | Host_export Function
  | Memory_export nat

type_synonym linker = "string \<times> string \<Rightarrow> extern option"

definition EXTISM_USER_MODULE :: string where
  "EXTISM_USER_MODULE = ''extism:host/user''"

text \<open>
  What wasmtime and the process answer.  \<open>cache_load None\<close> loads the default configuration of the
  cache.  \<open>link_exports\<close> instantiates a module against a linker: its exports, or none when that
  fails; \<open>pre_ok\<close> is \<^verbatim>\<open>instantiate_pre\<close>.  \<open>kernel_instance\<close> is the memory of a new instance of the
  kernel and \<open>memory_instance\<close> that of a memory created from a type, if it can be.
\<close>

record 'm engine =
  en_loader :: "'m loader"
  en_var :: "string \<Rightarrow> string option"
  cache_load :: "string option \<Rightarrow> bool"
  engine_ok :: "DebugOptions \<Rightarrow> bool"
  wasi_names :: "(string \<times> string) list option"
  link_exports :: "linker \<Rightarrow> string \<Rightarrow> 'm \<Rightarrow> string list option"
  pre_ok :: "linker \<Rightarrow> 'm \<Rightarrow> bool"
  kernel_instance :: wasm_mem
  memory_instance :: "WasmMemory \<Rightarrow> wasm_mem option"
  en_growth :: "nat \<Rightarrow> nat \<Rightarrow> grow_verdict"
  en_env_ok :: "string \<times> string \<Rightarrow> bool"
  en_dir_ok :: "path \<Rightarrow> bool"
  en_output :: bool

definition define_exports :: "string \<Rightarrow> string list \<Rightarrow> linker \<Rightarrow> linker" where
  "define_exports n xs lk = fold (\<lambda>x l. l((n, x) \<mapsto> Module_export n x)) xs lk"

definition define_wasi :: "(string \<times> string) list \<Rightarrow> linker \<Rightarrow> linker" where
  "define_wasi ws lk = fold (\<lambda>(ns, n) l. l((ns, n) \<mapsto> Wasi_export ns n)) ws lk"

definition pdk_functions :: "string list" where
  "pdk_functions = [''config_get'', ''var_get'', ''var_set'', ''http_request'', ''http_status_code'',
     ''log_warn'', ''log_info'', ''log_debug'', ''log_error'']"

definition define_pdk :: "linker \<Rightarrow> linker" where
  "define_pdk lk = fold (\<lambda>n l. l((EXTISM_ENV_MODULE, n) \<mapsto> Pdk_export n)) pdk_functions lk"

definition function_key :: "Function \<Rightarrow> string \<times> string" where
  "function_key f =
     ((case fn_namespace f of Some ns \<Rightarrow> ns | None \<Rightarrow> EXTISM_USER_MODULE), fn_name f)"

definition define_functions :: "Function list \<Rightarrow> linker \<Rightarrow> linker" where
  "define_functions fs lk = fold (\<lambda>f l. l(function_key f \<mapsto> Host_export f)) fs lk"

datatype build_error =
    Cache_failed
  | Engine_failed
  | Load_failed load_error
  | No_modules
  | No_main
  | Plugin_failed host_error
  | Wasi_failed_link
  | Link_failed string
  | Memory_panic
  | Instantiate_failed

fun link_modules :: "'m engine \<Rightarrow> (string \<times> 'm) list \<Rightarrow> linker \<Rightarrow> build_error + linker" where
  "link_modules E [] lk = Inr lk"
| "link_modules E ((n, m) # ms) lk =
     (if n = MAIN_KEY then link_modules E ms lk
      else (case link_exports E lk n m of
              None \<Rightarrow> Inl (Link_failed n)
            | Some xs \<Rightarrow> link_modules E ms (define_exports n xs lk)))"

text \<open>\<^verbatim>\<open>Memory::new(..).unwrap()\<close> panics when the memory cannot be created; \<open>i\<close> counts the memories.\<close>

fun define_memories ::
    "'m engine \<Rightarrow> nat \<Rightarrow> WasmMemory list \<Rightarrow> linker \<Rightarrow> build_error + (linker \<times> wasm_mem list)" where
  "define_memories E i [] lk = Inr (lk, [])"
| "define_memories E i (w # ws) lk =
     (case memory_instance E w of
        None \<Rightarrow> Inl Memory_panic
      | Some mem \<Rightarrow>
          map_sum id (\<lambda>(l, ms). (l, mem # ms))
            (define_memories E (Suc i) ws (lk((wm_namespace w, wm_name w) \<mapsto> Memory_export i))))"

section \<open>A built plugin\<close>

record 'm built =
  base :: plugin
  links :: linker
  memories :: "wasm_mem list"
  module_map :: "(string, 'm) btree"
  host_functions :: "Function list"
  debugging :: DebugOptions

text \<open>
  The functions of the kernel the host asks the linker for, as long as they are the kernel's: a
  definition of the embedder may shadow one.
\<close>

definition kernel_links :: "linker \<Rightarrow> string list" where
  "kernel_links lk =
     filter (\<lambda>n. case lk (EXTISM_ENV_MODULE, n) of
                Some (Module_export ns x) \<Rightarrow> ns = EXTISM_ENV_MODULE \<and> x = n
              | _ \<Rightarrow> False) kernel_exports"

definition setup_cache :: "'m engine \<Rightarrow> string option option \<Rightarrow> bool" where
  "setup_cache E cache_dir =
     (case cache_dir of
        Some None \<Rightarrow> True
      | Some (Some p) \<Rightarrow> cache_load E (Some p)
      | None \<Rightarrow>
          (case en_var E ''EXTISM_CACHE_CONFIG'' of
             Some v \<Rightarrow> if v \<noteq> [] then cache_load E (Some v) else True
           | None \<Rightarrow> cache_load E None))"

definition build_new ::
    "'m engine \<Rightarrow> nat \<Rightarrow> WasmInput \<Rightarrow> Function list \<Rightarrow> WasmMemory list \<Rightarrow> bool \<Rightarrow> DebugOptions \<Rightarrow>
     string option option \<Rightarrow> build_error + 'm built" where
  "build_new E uuid wasm_input imports mems with_wasi debug_options cache_dir =
     (if \<not> setup_cache E cache_dir then Inl Cache_failed
      else if \<not> engine_ok E debug_options then Inl Engine_failed
      else (case load (en_loader E) wasm_input of
        Inl e \<Rightarrow> Inl (Load_failed e)
      | Inr (m, mods) \<Rightarrow>
          if length mods \<le> 1 then Inl No_modules
          else (case btree_get mods MAIN_KEY of
            None \<Rightarrow> Inl No_main
          | Some main \<Rightarrow>
              let available = max_pages (memory m) in
              (case current_plugin_new (en_env_ok E) (en_dir_ok E) (en_output E) m with_wasi available
                     (kernel_instance E) [] (en_growth E) of
                 Inl e \<Rightarrow> Inl (Plugin_failed e)
               | Inr cp \<Rightarrow>
                   (case (if with_wasi then wasi_names E else Some []) of
                      None \<Rightarrow> Inl Wasi_failed_link
                    | Some ws \<Rightarrow>
                        (case link_modules E mods (define_wasi ws Map.empty) of
                           Inl e \<Rightarrow> Inl e
                         | Inr lk1 \<Rightarrow>
                             (case define_memories E 0 mems (define_functions imports (define_pdk lk1)) of
                                Inl e \<Rightarrow> Inl e
                              | Inr (lk2, ms) \<Rightarrow>
                                  if \<not> pre_ok E lk2 main then Inl Instantiate_failed
                                  else Inr \<lparr>base = \<lparr>plugin_id = uuid,
                                                 current = cp\<lparr>linked := kernel_links lk2\<rparr>,
                                                 instance_of = None, instantiations = 0, runtime = None,
                                                 sent = [], call_output = output_default,
                                                 store_needs_reset = False\<rparr>,
                                            links = lk2, memories = ms, module_map = mods,
                                            host_functions = imports, debugging = debug_options\<rparr>)))))))"

definition plugin_new :: "'m engine \<Rightarrow> nat \<Rightarrow> WasmInput \<Rightarrow> Function list \<Rightarrow> bool \<Rightarrow> build_error + 'm built" where
  "plugin_new E uuid wasm_input imports with_wasi =
     build_new E uuid wasm_input imports [] with_wasi (debug_options_default (en_var E)) None"

definition plugin_new_with_memories ::
    "'m engine \<Rightarrow> nat \<Rightarrow> WasmInput \<Rightarrow> Function list \<Rightarrow> WasmMemory list \<Rightarrow> bool \<Rightarrow> build_error + 'm built" where
  "plugin_new_with_memories E uuid wasm_input imports mems with_wasi =
     build_new E uuid wasm_input imports mems with_wasi (debug_options_default (en_var E)) None"

definition has_wasi :: "'m built \<Rightarrow> bool" where
  "has_wasi b \<longleftrightarrow> wasi (current (base b)) \<noteq> None"

section \<open>What the linker has\<close>

lemma define_exports_get:
  "define_exports n xs lk (ns, x) = (if ns = n \<and> x \<in> set xs then Some (Module_export n x) else lk (ns, x))"
  unfolding define_exports_def by (induction xs arbitrary: lk) auto

lemma define_wasi_get:
  "define_wasi ws lk k = (if k \<in> set ws then Some (Wasi_export (fst k) (snd k)) else lk k)"
  unfolding define_wasi_def by (induction ws arbitrary: lk) auto

lemma define_pdk_get:
  "define_pdk lk (ns, x) =
     (if ns = EXTISM_ENV_MODULE \<and> x \<in> set pdk_functions then Some (Pdk_export x) else lk (ns, x))"
proof -
  have "fold (\<lambda>n l. l((EXTISM_ENV_MODULE, n) \<mapsto> Pdk_export n)) xs lk (ns, x) =
      (if ns = EXTISM_ENV_MODULE \<and> x \<in> set xs then Some (Pdk_export x) else lk (ns, x))" for xs
    by (induction xs arbitrary: lk) auto
  then show ?thesis by (simp add: define_pdk_def)
qed

text \<open>Of several functions with the same module and name the last one is linked.\<close>

lemma define_functions_get:
  "define_functions fs lk k =
     (case find (\<lambda>f. function_key f = k) (rev fs) of Some f \<Rightarrow> Some (Host_export f) | None \<Rightarrow> lk k)"
  unfolding define_functions_def by (induction fs rule: rev_induct) auto

lemma define_functions_last:
  "function_key f \<notin> function_key ` set fs2 \<Longrightarrow>
     define_functions (fs1 @ f # fs2) lk (function_key f) = Some (Host_export f)"
  unfolding define_functions_def by (induction fs2 rule: rev_induct) auto

definition memory_keys :: "WasmMemory list \<Rightarrow> (string \<times> string) set" where
  "memory_keys ws = (\<lambda>w. (wm_namespace w, wm_name w)) ` set ws"

lemma define_memories_get:
  assumes "define_memories E i ws lk = Inr (lk', ms)"
  shows "length ms = length ws \<and>
    (if k \<in> memory_keys ws then \<exists>j < length ws. lk' k = Some (Memory_export (i + j)) \<and>
         (wm_namespace (ws ! j), wm_name (ws ! j)) = k \<and> memory_instance E (ws ! j) = Some (ms ! j)
     else lk' k = lk k)"
  using assms
proof (induction ws arbitrary: i lk ms)
  case Nil
  then show ?case by (simp add: memory_keys_def)
next
  case (Cons w ws)
  obtain mem where mem: "memory_instance E w = Some mem" using Cons.prems by (auto split: option.splits)
  with Cons.prems obtain ms' where rec: "define_memories E (Suc i) ws
      (lk((wm_namespace w, wm_name w) \<mapsto> Memory_export i)) = Inr (lk', ms')" and ms: "ms = mem # ms'"
    by (auto split: sum.splits simp: map_sum_def)
  note IH = Cons.IH [OF rec]
  show ?case
  proof (cases "k \<in> memory_keys ws")
    case True
    with IH obtain j where "j < length ws" "lk' k = Some (Memory_export (Suc i + j))"
      "(wm_namespace (ws ! j), wm_name (ws ! j)) = k" "memory_instance E (ws ! j) = Some (ms' ! j)" by auto
    then show ?thesis using IH True ms
      by (auto simp: memory_keys_def intro!: exI [of _ "Suc j"])
  next
    case False
    then have "lk' k = (lk((wm_namespace w, wm_name w) \<mapsto> Memory_export i)) k" using IH by simp
    then show ?thesis using IH False ms mem
      by (auto simp: memory_keys_def intro!: exI [of _ 0])
  qed
qed

section \<open>The order in which modules are linked\<close>

lemma link_modules_append:
  "link_modules E (xs @ ys) lk =
     (case link_modules E xs lk of Inl e \<Rightarrow> Inl e | Inr l \<Rightarrow> link_modules E ys l)"
  by (induction E xs lk rule: link_modules.induct) (auto split: option.splits sum.splits)

lemma link_modules_dom:
  "link_modules E ms lk = Inr lk' \<Longrightarrow> lk' (ns, x) \<noteq> None \<Longrightarrow>
     lk (ns, x) \<noteq> None \<or> ns \<in> fst ` set ms \<and> ns \<noteq> MAIN_KEY"
proof (induction E ms lk rule: link_modules.induct)
  case (2 E n m ms lk)
  then show ?case
    by (auto simp: define_exports_get split: if_splits option.splits)
qed simp

lemma link_modules_keeps:
  "link_modules E ms lk = Inr lk' \<Longrightarrow> lk (ns, x) = Some (Module_export ns x) \<Longrightarrow>
     lk' (ns, x) = Some (Module_export ns x)"
proof (induction E ms lk rule: link_modules.induct)
  case (2 E n m ms lk)
  then show ?case by (auto simp: define_exports_get split: if_splits option.splits)
qed simp

text \<open>A module is instantiated against what WASI and the modules before it define.\<close>

lemma link_modules_at:
  assumes "link_modules E (pre @ (n, m) # post) lk = Inr lk'" "n \<noteq> MAIN_KEY"
  shows "\<exists>lk0 xs. link_modules E pre lk = Inr lk0 \<and> link_exports E lk0 n m = Some xs \<and>
    (\<forall>x \<in> set xs. lk' (n, x) = Some (Module_export n x))"
proof -
  obtain lk0 where lk0: "link_modules E pre lk = Inr lk0" "link_modules E ((n, m) # post) lk0 = Inr lk'"
    using assms(1) by (auto simp: link_modules_append split: sum.splits)
  then obtain xs where xs: "link_exports E lk0 n m = Some xs"
    "link_modules E post (define_exports n xs lk0) = Inr lk'"
    using assms(2) by (auto split: option.splits)
  have "lk' (n, x) = Some (Module_export n x)" if "x \<in> set xs" for x
    using that link_modules_keeps [OF xs(2)] by (simp add: define_exports_get)
  with lk0(1) xs(1) show ?thesis by blast
qed

section \<open>Plugins that are ready\<close>

text \<open>
  The kernel that is shipped: whenever it can be instantiated, it exports its functions.  It is
  named as a hypothesis of the theorems, since the module is not part of the sources.
\<close>

definition kernel_ships :: "'m engine \<Rightarrow> bool" where
  "kernel_ships E \<longleftrightarrow>
     (\<forall>k lk xs. compile (en_loader E) (runtime_wasm (en_loader E)) = Some k \<longrightarrow>
        link_exports E lk EXTISM_ENV_MODULE k = Some xs \<longrightarrow> set kernel_exports \<subseteq> set xs) \<and>
     fresh (kernel_instance E)"

definition shadows_kernel :: "string \<times> string \<Rightarrow> bool" where
  "shadows_kernel k \<longleftrightarrow> fst k = EXTISM_ENV_MODULE \<and> snd k \<in> set kernel_exports"

definition cp_fresh :: "CurrentPlugin \<Rightarrow> bool" where
  "cp_fresh cp \<longleftrightarrow> fresh (kernel_memory cp) \<and> set kernel_exports \<subseteq> set (linked cp)"

lemma pdk_not_kernel: "x \<in> set kernel_exports \<Longrightarrow> x \<notin> set pdk_functions"
  by (auto simp: kernel_exports_def pdk_functions_def)

lemma env_not_main: "EXTISM_ENV_MODULE \<noteq> MAIN_KEY"
  by (simp add: EXTISM_ENV_MODULE_def MAIN_KEY_def)

text \<open>The steps of a successful construction.\<close>

lemma build_new_InrD:
  assumes "build_new E uuid src fs ws w d c = Inr b"
  obtains m main cp wn lk1 where
    "load (en_loader E) src = Inr (m, module_map b)" "btree_get (module_map b) MAIN_KEY = Some main"
    "current_plugin_new (en_env_ok E) (en_dir_ok E) (en_output E) m w (max_pages (memory m))
       (kernel_instance E) [] (en_growth E) = Inr cp"
    "link_modules E (module_map b) (define_wasi wn Map.empty) = Inr lk1"
    "define_memories E 0 ws (define_functions fs (define_pdk lk1)) = Inr (links b, memories b)"
    "pre_ok E (links b) main"
    "base b = \<lparr>plugin_id = uuid, current = cp\<lparr>linked := kernel_links (links b)\<rparr>, instance_of = None,
       instantiations = 0, runtime = None, sent = [], call_output = output_default, store_needs_reset = False\<rparr>"
    "host_functions b = fs" "w \<longrightarrow> wasi_names E = Some wn" "\<not> w \<longrightarrow> wn = []"
  using assms that
  by (auto simp: build_new_def Let_def split: if_splits sum.splits option.splits prod.splits)

lemma build_new_linked:
  assumes build: "build_new E uuid src fs ws w d c = Inr b" and ships: "kernel_ships E"
    and clear: "\<forall>f \<in> set fs. \<not> shadows_kernel (function_key f)" "\<forall>k \<in> memory_keys ws. \<not> shadows_kernel k"
  shows "cp_fresh (current (base b)) \<and>
    (\<forall>x \<in> set kernel_exports. links b (EXTISM_ENV_MODULE, x) = Some (Module_export EXTISM_ENV_MODULE x))"
proof -
  obtain m main cp wn lk1 where B: "load (en_loader E) src = Inr (m, module_map b)"
    "current_plugin_new (en_env_ok E) (en_dir_ok E) (en_output E) m w (max_pages (memory m))
       (kernel_instance E) [] (en_growth E) = Inr cp"
    "link_modules E (module_map b) (define_wasi wn Map.empty) = Inr lk1"
    "define_memories E 0 ws (define_functions fs (define_pdk lk1)) = Inr (links b, memories b)"
    "base b = \<lparr>plugin_id = uuid, current = cp\<lparr>linked := kernel_links (links b)\<rparr>, instance_of = None,
       instantiations = 0, runtime = None, sent = [], call_output = output_default, store_needs_reset = False\<rparr>"
    using build_new_InrD [OF build] by metis
  obtain k where k: "compile (en_loader E) (runtime_wasm (en_loader E)) = Some k"
    "btree_get (module_map b) EXTISM_ENV_MODULE = Some k"
    using load_ok [OF B(1)] B(1) by (auto simp: load_def module_new_def split: option.splits)
  then have "(EXTISM_ENV_MODULE, k) \<in> set (module_map b)" by (metis btree_get_mem)
  then obtain ms1 ms2 where ms: "module_map b = ms1 @ (EXTISM_ENV_MODULE, k) # ms2" by (meson split_list)
  obtain lk0 xs where xs: "link_exports E lk0 EXTISM_ENV_MODULE k = Some xs"
    "\<forall>x \<in> set xs. lk1 (EXTISM_ENV_MODULE, x) = Some (Module_export EXTISM_ENV_MODULE x)"
    using link_modules_at [OF B(3) [unfolded ms] env_not_main] by blast
  have final: "links b (EXTISM_ENV_MODULE, x) = Some (Module_export EXTISM_ENV_MODULE x)"
    if x: "x \<in> set kernel_exports" for x
  proof -
    have "lk1 (EXTISM_ENV_MODULE, x) = Some (Module_export EXTISM_ENV_MODULE x)"
      using ships k(1) xs x by (auto simp: kernel_ships_def)
    then have "define_pdk lk1 (EXTISM_ENV_MODULE, x) = Some (Module_export EXTISM_ENV_MODULE x)"
      using pdk_not_kernel [OF x] by (simp add: define_pdk_get)
    moreover have "find (\<lambda>f. function_key f = (EXTISM_ENV_MODULE, x)) (rev fs) = None"
      using clear(1) x by (auto simp: find_None_iff shadows_kernel_def)
    moreover have "(EXTISM_ENV_MODULE, x) \<notin> memory_keys ws"
      using clear(2) x by (auto simp: shadows_kernel_def)
    ultimately show ?thesis
      using define_memories_get [OF B(4), of "(EXTISM_ENV_MODULE, x)"] by (simp add: define_functions_get)
  qed
  then have "set kernel_exports \<subseteq> set (kernel_links (links b))" by (auto simp: kernel_links_def)
  moreover have "kernel_memory cp = kernel_instance E"
    using B(2) by (auto simp: current_plugin_new_def Let_def map_sum_def split: if_splits)
  ultimately show ?thesis using final ships B(5) by (simp add: cp_fresh_def kernel_ships_def)
qed

text \<open>The functions of the embedder are linked, unless another function or a memory takes their place.\<close>

lemma build_new_functions:
  assumes "build_new E uuid src fs ws w d c = Inr b" "fs = fs1 @ f # fs2"
    and "function_key f \<notin> function_key ` set fs2" "function_key f \<notin> memory_keys ws"
  shows "links b (function_key f) = Some (Host_export f)"
proof -
  obtain lk1 where "define_memories E 0 ws (define_functions fs (define_pdk lk1)) = Inr (links b, memories b)"
    using build_new_InrD [OF assms(1)] by metis
  from define_memories_get [OF this, of "function_key f"] assms(2-4) show ?thesis
    by (simp add: define_functions_last)
qed

text \<open>\<open>imports\<close> are the imports of a module; wasmtime refuses to instantiate one without a definition.\<close>

definition links_need :: "('m \<Rightarrow> (string \<times> string) set) \<Rightarrow> 'm engine \<Rightarrow> bool" where
  "links_need imports E \<longleftrightarrow>
     (\<forall>lk n m xs k. link_exports E lk n m = Some xs \<longrightarrow> k \<in> imports m \<longrightarrow> lk k \<noteq> None)"

lemma build_new_imports:
  assumes build: "build_new E uuid src fs ws w d c = Inr b" and need: "links_need imports E"
    and mods: "(n, m) \<in> set (module_map b)" "n \<noteq> MAIN_KEY" and imp: "(ns, x) \<in> imports m"
  shows "(w \<and> (\<exists>wn. wasi_names E = Some wn \<and> (ns, x) \<in> set wn)) \<or>
    (ns \<in> fst ` set (module_map b) \<and> ns < n \<and> ns \<noteq> MAIN_KEY)"
proof -
  obtain t wn lk1 where B: "load (en_loader E) src = Inr (t, module_map b)"
    "link_modules E (module_map b) (define_wasi wn Map.empty) = Inr lk1"
    "w \<longrightarrow> wasi_names E = Some wn" "\<not> w \<longrightarrow> wn = []"
    using build_new_InrD [OF build] by metis
  obtain ms1 ms2 where ms: "module_map b = ms1 @ (n, m) # ms2" using mods(1) by (meson split_list)
  obtain lk0 xs where lk0: "link_modules E ms1 (define_wasi wn Map.empty) = Inr lk0" "link_exports E lk0 n m = Some xs"
    using link_modules_at [OF B(2) [unfolded ms] mods(2)] by blast
  have "lk0 (ns, x) \<noteq> None" using need lk0(2) imp unfolding links_need_def by blast
  with link_modules_dom [OF lk0(1), of ns x] have "(ns, x) \<in> set wn \<or> ns \<in> fst ` set ms1 \<and> ns \<noteq> MAIN_KEY"
    by (auto simp: define_wasi_get split: if_splits)
  moreover have "a < n" if "a \<in> fst ` set ms1" for a
    using that load_ok [OF B(1)] by (auto simp: ms btree_ok_def sorted_wrt_append)
  ultimately show ?thesis using B(3,4) by (auto simp: ms)
qed

end
