(* ===== verification/Builder.thy ===== *)
theory Builder
  imports Build
begin

text \<open>
  The builder of plugins, \<^verbatim>\<open>runtime/src/plugin_builder.rs\<close>: its setters, and what a chain of them
  amounts to.
\<close>

record PluginBuilder =
  b_source :: WasmInput
  b_wasi :: bool
  b_functions :: "Function list"
  b_debug :: DebugOptions
  b_cache :: "string option option"

definition builder_new :: "(string \<Rightarrow> string option) \<Rightarrow> WasmInput \<Rightarrow> PluginBuilder" where
  "builder_new env_var src =
     \<lparr>b_source = src, b_wasi = False, b_functions = [], b_debug = debug_options_default env_var, b_cache = None\<rparr>"

definition with_wasi :: "bool \<Rightarrow> PluginBuilder \<Rightarrow> PluginBuilder" where
  "with_wasi w b = b\<lparr>b_wasi := w\<rparr>"

definition with_function ::
    "string \<Rightarrow> ExtismType list \<Rightarrow> ExtismType list \<Rightarrow> 'a UserData \<Rightarrow> ('a UserData \<Rightarrow> host_body) \<Rightarrow>
     PluginBuilder \<Rightarrow> PluginBuilder" where
  "with_function n args returns ud f b = b\<lparr>b_functions := b_functions b @ [function_new n args returns ud f]\<rparr>"

definition with_function_in_namespace ::
    "string \<Rightarrow> string \<Rightarrow> ExtismType list \<Rightarrow> ExtismType list \<Rightarrow> 'a UserData \<Rightarrow> ('a UserData \<Rightarrow> host_body) \<Rightarrow>
     PluginBuilder \<Rightarrow> PluginBuilder" where
  "with_function_in_namespace ns n args returns ud f b =
     b\<lparr>b_functions := b_functions b @ [with_namespace ns (function_new n args returns ud f)]\<rparr>"

definition with_functions :: "Function list \<Rightarrow> PluginBuilder \<Rightarrow> PluginBuilder" where
  "with_functions fs b = b\<lparr>b_functions := b_functions b @ fs\<rparr>"

definition with_profiling_strategy :: "ProfilingStrategy \<Rightarrow> PluginBuilder \<Rightarrow> PluginBuilder" where
  "with_profiling_strategy p b = b\<lparr>b_debug := (b_debug b)\<lparr>profiling := p\<rparr>\<rparr>"

definition with_coredump :: "string \<Rightarrow> PluginBuilder \<Rightarrow> PluginBuilder" where
  "with_coredump p b = b\<lparr>b_debug := (b_debug b)\<lparr>coredump := Some p\<rparr>\<rparr>"

definition with_memdump :: "string \<Rightarrow> PluginBuilder \<Rightarrow> PluginBuilder" where
  "with_memdump p b = b\<lparr>b_debug := (b_debug b)\<lparr>memdump := Some p\<rparr>\<rparr>"

definition with_debug_info :: "PluginBuilder \<Rightarrow> PluginBuilder" where
  "with_debug_info b = b\<lparr>b_debug := (b_debug b)\<lparr>debug_info := True\<rparr>\<rparr>"

definition with_debug_options :: "DebugOptions \<Rightarrow> PluginBuilder \<Rightarrow> PluginBuilder" where
  "with_debug_options d b = b\<lparr>b_debug := d\<rparr>"

definition with_cache_config :: "string \<Rightarrow> PluginBuilder \<Rightarrow> PluginBuilder" where
  "with_cache_config dir b = b\<lparr>b_cache := Some (Some dir)\<rparr>"

definition with_cache_disabled :: "PluginBuilder \<Rightarrow> PluginBuilder" where
  "with_cache_disabled b = b\<lparr>b_cache := Some None\<rparr>"

definition builder_build :: "'m engine \<Rightarrow> nat \<Rightarrow> PluginBuilder \<Rightarrow> build_error + 'm built" where
  "builder_build E uuid b =
     build_new E uuid (b_source b) (b_functions b) [] (b_wasi b) (b_debug b) (b_cache b)"

section \<open>Chains of setters\<close>

text \<open>One call of a setter; the user data of functions has one type here.\<close>

datatype 'a setting =
    Set_wasi bool
  | Add_function string "ExtismType list" "ExtismType list" "'a UserData" "'a UserData \<Rightarrow> host_body"
  | Add_function_in string string "ExtismType list" "ExtismType list" "'a UserData" "'a UserData \<Rightarrow> host_body"
  | Add_functions "Function list"
  | Set_profiling ProfilingStrategy
  | Set_coredump string
  | Set_memdump string
  | Set_debug_info
  | Set_debug_options DebugOptions
  | Set_cache string
  | Disable_cache

fun apply_setting :: "'a setting \<Rightarrow> PluginBuilder \<Rightarrow> PluginBuilder" where
  "apply_setting (Set_wasi w) = with_wasi w"
| "apply_setting (Add_function n a r ud f) = with_function n a r ud f"
| "apply_setting (Add_function_in ns n a r ud f) = with_function_in_namespace ns n a r ud f"
| "apply_setting (Add_functions fs) = with_functions fs"
| "apply_setting (Set_profiling p) = with_profiling_strategy p"
| "apply_setting (Set_coredump p) = with_coredump p"
| "apply_setting (Set_memdump p) = with_memdump p"
| "apply_setting Set_debug_info = with_debug_info"
| "apply_setting (Set_debug_options d) = with_debug_options d"
| "apply_setting (Set_cache d) = with_cache_config d"
| "apply_setting Disable_cache = with_cache_disabled"

text \<open>What the settings say about each of the arguments of \<^verbatim>\<open>build_new\<close>, apart from the others.\<close>

fun setting_functions :: "'a setting \<Rightarrow> Function list" where
  "setting_functions (Add_function n a r ud f) = [function_new n a r ud f]"
| "setting_functions (Add_function_in ns n a r ud f) = [with_namespace ns (function_new n a r ud f)]"
| "setting_functions (Add_functions fs) = fs"
| "setting_functions _ = []"

fun setting_debug :: "'a setting \<Rightarrow> DebugOptions \<Rightarrow> DebugOptions" where
  "setting_debug (Set_profiling p) d = d\<lparr>profiling := p\<rparr>"
| "setting_debug (Set_coredump p) d = d\<lparr>coredump := Some p\<rparr>"
| "setting_debug (Set_memdump p) d = d\<lparr>memdump := Some p\<rparr>"
| "setting_debug Set_debug_info d = d\<lparr>debug_info := True\<rparr>"
| "setting_debug (Set_debug_options d') d = d'"
| "setting_debug _ d = d"

fun last_wasi :: "'a setting list \<Rightarrow> bool" where
  "last_wasi [] = False"
| "last_wasi (s # ss) = (case s of Set_wasi w \<Rightarrow> w | _ \<Rightarrow> last_wasi ss)"

fun last_cache :: "'a setting list \<Rightarrow> string option option" where
  "last_cache [] = None"
| "last_cache (s # ss) =
     (case s of Set_cache d \<Rightarrow> Some (Some d) | Disable_cache \<Rightarrow> Some None | _ \<Rightarrow> last_cache ss)"

lemma apply_settings_fields:
  "fold apply_setting ss (builder_new v src) =
     \<lparr>b_source = src, b_wasi = last_wasi (rev ss), b_functions = concat (map setting_functions ss),
      b_debug = fold setting_debug ss (debug_options_default v), b_cache = last_cache (rev ss)\<rparr>"
proof (induction ss rule: rev_induct)
  case Nil
  then show ?case by (simp add: builder_new_def)
next
  case (snoc s ss)
  then show ?case
    by (cases s) (simp_all add: with_wasi_def with_function_def with_function_in_namespace_def
        with_functions_def with_profiling_strategy_def with_coredump_def with_memdump_def with_debug_info_def
        with_debug_options_def with_cache_config_def with_cache_disabled_def)
qed

end
