(* ===== verification/First_Call.thy ===== *)
theory First_Call
  imports Build
begin

text \<open>
  From the construction of a plugin to its first call: the kernel memory of a new plugin is all
  zeros, and the first kernel function the host calls initialises it.
\<close>

section \<open>Kernel functions on a fresh memory\<close>

definition warmed :: "CurrentPlugin \<Rightarrow> CurrentPlugin" where
  "warmed cp = cp\<lparr>kernel_memory := initialised (kernel_memory cp)\<rparr>"

lemma warmed_ok:
  assumes "cp_fresh cp"
  shows "cp_ok (warmed cp) (heap_init (pages (kernel_memory cp)))" "growth_verdict (warmed cp) = growth_verdict cp"
    "vars (warmed cp) = vars cp" "manifest (warmed cp) = manifest cp"
proof -
  show "growth_verdict (warmed cp) = growth_verdict cp"
    by (intro ext) (simp add: growth_verdict_def warmed_def split: option.splits limiter_answer.splits)
  show "cp_ok (warmed cp) (heap_init (pages (kernel_memory cp)))"
    using assms initialised_fresh(2) by (simp add: cp_fresh_def cp_ok_def warmed_def)
qed (simp_all add: warmed_def)

text \<open>A kernel function that starts with the initialisation does not see the difference.\<close>

lemma kernel_fn_warmed:
  assumes fresh: "cp_fresh cp" and same: "\<And>m. fresh m \<Longrightarrow> f m = f (initialised m)"
    and runs: "kernel_fn n e f (warmed cp) = Some (Done x, cp')"
  shows "kernel_fn n e f cp = Some (Done x, cp')"
proof -
  let ?m = "(kernel_memory cp)\<lparr>growth := growth_verdict cp\<rparr>"
  have fr: "fresh (kernel_memory cp)" using fresh by (simp add: cp_fresh_def)
  have "f ?m = f ((kernel_memory (warmed cp))\<lparr>growth := growth_verdict (warmed cp)\<rparr>)"
    using same [of ?m] fr initialised_growth(1) [OF fr] warmed_ok(2) [OF fresh] by (simp add: warmed_def)
  moreover have "pages (kernel_memory (warmed cp)) = pages (kernel_memory cp)"
    using initialised_growth(2) [OF fr] by (simp add: warmed_def)
  ultimately show ?thesis
    using runs by (auto simp: kernel_fn_def warmed_def split: if_splits option.splits outcome.splits)
qed

text \<open>So the preparation of the first call does what it does on an initialised memory.\<close>

definition plugin_warmed :: "plugin \<Rightarrow> plugin" where
  "plugin_warmed p = p\<lparr>current := warmed (current p)\<rparr>"

lemma set_input_warmed:
  assumes fresh: "cp_fresh (current p)"
  shows "set_input input p = set_input input (plugin_warmed p)"
proof -
  obtain c1 where c1: "plugin_clear_error (warmed (current p)) = Some (Done (), c1)"
    using clear_error_run [OF warmed_ok(1) [OF fresh]] by blast
  then have "plugin_clear_error (current p) = Some (Done (), c1)"
    unfolding plugin_clear_error_def
    by (rule kernel_fn_warmed [OF fresh, rotated]) (simp add: fresh_exports)
  with c1 show ?thesis
    by (simp add: set_input_def on_current_def hbind_Done plugin_warmed_def split: option.splits)
qed

text \<open>The first call of a plugin: what instantiation leaves is what the call works on.\<close>

lemma raw_call_first:
  assumes "\<not> store_needs_reset p" "instantiate E p = Some (None, q)"
    "instance_of q = Some fs" "\<not> store_needs_reset q"
  shows "raw_call E n input True [] p = raw_call E n input True [] q"
proof -
  have "instantiate E q = Some (None, q)" using assms(3) by (simp add: instantiate_def)
  moreover have "snd (reset_store E p) = p" "snd (reset_store E q) = q"
    using assms(1,4) by (simp_all add: reset_store_def)
  ultimately show ?thesis using assms(2) by (simp add: raw_call_def Let_def)
qed

lemma raw_call_warmed:
  assumes "cp_fresh (current p)" "instance_of p = Some fs" "\<not> store_needs_reset p"
  shows "raw_call E n input True [] p = raw_call E n input True [] (plugin_warmed p)"
proof -
  have "instantiate E p = Some (None, p)" "instantiate E (plugin_warmed p) = Some (None, plugin_warmed p)"
    using assms(2) by (simp_all add: instantiate_def plugin_warmed_def)
  moreover have "snd (reset_store E p) = p" "snd (reset_store E (plugin_warmed p)) = plugin_warmed p"
    using assms(3) by (simp_all add: reset_store_def plugin_warmed_def)
  ultimately show ?thesis using set_input_warmed [OF assms(1), of input] by (simp add: raw_call_def)
qed

text \<open>A module without any of the entry points of a guest runtime is instantiated and left alone.\<close>

definition entry_points :: "string list" where
  "entry_points = [''hs_init'', ''__wasm_call_ctors'', ''_initialize'']"

lemma instantiate_plain:
  assumes "instance_of p = None" "runtime p = None"
    and "instantiate_main E (current p) = Some (Inr (fs, None), c)" "\<forall>x \<in> set entry_points. btree_get fs x = None"
  shows "instantiate E p = Some (None, p\<lparr>current := limiter_reset_in c, instance_of := Some fs,
    instantiations := instantiations p + 1\<rparr>)"
  using assms by (simp add: instantiate_def detect_guest_runtime_def get_func_def initialize_guest_runtime_def
      entry_points_def)

lemma limiter_reset_fresh: "cp_fresh (limiter_reset_in c) = cp_fresh c"
  by (simp add: cp_fresh_def limiter_reset_in_def)

text \<open>The initial heap has room for 65395 bytes before the memory has to grow.\<close>

lemma first_room: "n < 65396 \<Longrightarrow> heap_take g n (heap_reset (heap_init k)) \<noteq> None"
  by (simp add: heap_take_def heap_alloc_def heap_init_def heap_reset_def Let_def)

lemma first_echo_call:
  assumes "cp_fresh (current p)" "instance_of p = None" "runtime p = None" "\<not> store_needs_reset p"
    and "instantiate_main E (current p) = Some (Inr (fs, None), c)" "cp_fresh c"
    and "\<forall>x \<in> set entry_points. btree_get fs x = None" "btree_get fs n = Some echo_func"
    and "length input < 65396"
  shows "\<exists>p' h'. raw_call E n input True [] p = Some (Ok 0, [], p') \<and>
    cp_ok (current p') h' \<and> holds (current p') h' (out_offset (call_output p')) input \<and>
    out_length (call_output p') = word_of_nat (length input) \<and> error_offset (call_output p') = 0"
proof -
  define q where "q = p\<lparr>current := limiter_reset_in c, instance_of := Some fs, instantiations := instantiations p + 1\<rparr>"
  have inst: "instantiate E p = Some (None, q)"
    using instantiate_plain [OF assms(2,3,5,7)] by (simp add: q_def)
  have q: "instance_of q = Some fs" "\<not> store_needs_reset q" "cp_fresh (current q)"
    using assms(4,6) by (simp_all add: q_def limiter_reset_fresh)
  have w: "instance_of (plugin_warmed q) = Some fs" "\<not> store_needs_reset (plugin_warmed q)"
    "cp_ok (current (plugin_warmed q)) (heap_init (pages (kernel_memory (current q))))"
    using q warmed_ok(1) [OF q(3)] by (simp_all add: plugin_warmed_def)
  have "raw_call E n input True [] p = raw_call E n input True [] (plugin_warmed q)"
    using raw_call_first [OF assms(4) inst q(1,2)] raw_call_warmed [OF q(3,1,2)] by simp
  with echo_raw_call [OF w(1) assms(8) w(2,3)] first_room assms(9) show ?thesis by simp
qed

end
