(* ===== verification/C_Api.thy ===== *)
theory C_Api
  imports First_Call
begin

text \<open>
  The C interface, \<^verbatim>\<open>runtime/src/sdk.rs\<close>.  A pointer to a plugin is an option, null is \<open>None\<close>; a C
  string is its bytes up to the terminating zero; a pair of a pointer and a length is a list.  A
  pointer into the kernel memory is an offset in it.  An operation returns its result and the new
  state of what its pointers designate, or \<open>None\<close> when it runs forever.  Texts of errors are those
  of \<^verbatim>\<open>Display\<close>, which shows the outermost context; \<open>show_host\<close> are the texts of the host's errors.
\<close>

section \<open>Values\<close>

text \<open>A union of 8 bytes; what a smaller field leaves of them is never read and is zero here.\<close>

record ExtismVal =
  ev_type :: ExtismType
  ev_bits :: u64

fun extism_val_from :: "Val \<Rightarrow> ExtismVal" where
  "extism_val_from (I32 w) = \<lparr>ev_type = EI32, ev_bits = ucast w\<rparr>"
| "extism_val_from (I64 w) = \<lparr>ev_type = EI64, ev_bits = w\<rparr>"
| "extism_val_from (F32 b) = \<lparr>ev_type = EF32, ev_bits = ucast b\<rparr>"
| "extism_val_from (F64 b) = \<lparr>ev_type = EF64, ev_bits = b\<rparr>"
| "extism_val_from v = \<lparr>ev_type = EI32, ev_bits = ucast (-1 :: u32)\<rparr>"

text \<open>
  Rust's \<^verbatim>\<open>x as u32\<close> and \<^verbatim>\<open>x as u64\<close> of a float, from its bits: truncation towards zero, saturating,
  and 0 for a NaN.  \<open>float_trunc\<close> takes the width of the fraction, the bias, the exponent and the
  fraction of a finite number of at least 0.
\<close>

definition float_trunc :: "nat \<Rightarrow> nat \<Rightarrow> nat \<Rightarrow> nat \<Rightarrow> nat" where
  "float_trunc width bias e f =
     (if e < bias then 0
      else if bias + width \<le> e then (2 ^ width + f) * 2 ^ (e - (bias + width))
      else (2 ^ width + f) div 2 ^ (bias + width - e))"

definition f32_as_u32 :: "u32 \<Rightarrow> u32" where
  "f32_as_u32 b =
     (let n = unat b; e = n div 2 ^ 23 mod 256; f = n mod 2 ^ 23
      in if e = 255 \<and> f \<noteq> 0 then 0
         else if 2 ^ 31 \<le> n then 0
         else if e = 255 then -1
         else word_of_nat (min (2 ^ 32 - 1) (float_trunc 23 127 e f)))"

definition f64_as_u64 :: "u64 \<Rightarrow> u64" where
  "f64_as_u64 b =
     (let n = unat b; e = n div 2 ^ 52 mod 2048; f = n mod 2 ^ 52
      in if e = 2047 \<and> f \<noteq> 0 then 0
         else if 2 ^ 63 \<le> n then 0
         else if e = 2047 then -1
         else word_of_nat (min (2 ^ 64 - 1) (float_trunc 52 1023 e f)))"

text \<open>The result of a C callback as a wasm value; the other types are a \<^verbatim>\<open>todo!()\<close>, which panics.\<close>

definition callback_val :: "ExtismVal \<Rightarrow> Val option" where
  "callback_val v =
     (case ev_type v of
        EI32 \<Rightarrow> Some (I32 (ucast (ev_bits v)))
      | EI64 \<Rightarrow> Some (I64 (ev_bits v))
      | EF32 \<Rightarrow> Some (F32 (f32_as_u32 (ucast (ev_bits v))))
      | EF64 \<Rightarrow> Some (F64 (f64_as_u64 (ev_bits v)))
      | _ \<Rightarrow> None)"

section \<open>The memory of the current plugin\<close>

datatype address = Null | In_kernel nat | Wild nat

fun address_add :: "address \<Rightarrow> nat \<Rightarrow> address" where
  "address_add Null n = Wild n"
| "address_add (In_kernel a) n = In_kernel (a + n)"
| "address_add (Wild a) n = Wild (a + n)"

definition memory_ptr :: "CurrentPlugin \<Rightarrow> address" where
  "memory_ptr cp = (if ''memory'' \<in> set (linked cp) then In_kernel 0 else Null)"

definition extism_current_plugin_memory :: "CurrentPlugin option \<Rightarrow> address" where
  "extism_current_plugin_memory plugin = (case plugin of None \<Rightarrow> Null | Some cp \<Rightarrow> memory_ptr cp)"

definition extism_current_plugin_memory_alloc ::
    "CurrentPlugin option \<Rightarrow> u64 \<Rightarrow> (u64 \<times> CurrentPlugin option) option" where
  "extism_current_plugin_memory_alloc plugin n =
     (case plugin of
        None \<Rightarrow> Some (0, None)
      | Some cp \<Rightarrow>
          (case memory_alloc n cp of
             None \<Rightarrow> None
           | Some (Done h, cp') \<Rightarrow> Some (handle_offset h, Some cp')
           | Some (_, cp') \<Rightarrow> Some (0, Some cp')))"

definition extism_current_plugin_memory_length ::
    "CurrentPlugin option \<Rightarrow> u64 \<Rightarrow> (u64 \<times> CurrentPlugin option) option" where
  "extism_current_plugin_memory_length plugin n =
     (case plugin of
        None \<Rightarrow> Some (0, None)
      | Some cp \<Rightarrow>
          (case memory_length n cp of
             None \<Rightarrow> None
           | Some (Done l, cp') \<Rightarrow> Some (l, Some cp')
           | Some (_, cp') \<Rightarrow> Some (0, Some cp')))"

definition extism_current_plugin_memory_free ::
    "CurrentPlugin option \<Rightarrow> u64 \<Rightarrow> CurrentPlugin option option" where
  "extism_current_plugin_memory_free plugin p =
     (case plugin of
        None \<Rightarrow> Some None
      | Some cp \<Rightarrow>
          (case memory_handle p cp of
             None \<Rightarrow> None
           | Some (Done (Some handle), cp') \<Rightarrow> map_option (\<lambda>(_, cp2). Some cp2) (memory_free handle cp')
           | Some (_, cp') \<Rightarrow> Some (Some cp')))"

section \<open>Host functions in C\<close>

text \<open>
  A C callback gets the inputs, the outputs as zeros of their types, and the user data; it leaves
  the outputs and the state of the plugin, or runs forever.
\<close>

type_synonym c_function =
  "ExtismVal list \<Rightarrow> ExtismVal list \<Rightarrow> nat \<Rightarrow> CurrentPlugin \<Rightarrow> (ExtismVal list \<times> CurrentPlugin) option"

definition c_outputs :: "ExtismVal list \<Rightarrow> Val list \<Rightarrow> Val list option" where
  "c_outputs outs outputs =
     (let n = min (length outs) (length outputs)
      in map_option (\<lambda>vs. vs @ drop n outputs) (those (map callback_val (take n outs))))"

definition c_body :: "c_function \<Rightarrow> ExtismType list \<Rightarrow> nat UserData \<Rightarrow> host_body" where
  "c_body func output_types user_data inputs outputs cp =
     (let ins = map extism_val_from inputs;
          output_tmp = map (\<lambda>t. \<lparr>ev_type = t, ev_bits = 0\<rparr>) output_types
      in (case func ins output_tmp (userdata_as_ptr user_data) cp of
            None \<Rightarrow> None
          | Some (outs, cp') \<Rightarrow>
              (case c_outputs outs outputs of
                 None \<Rightarrow> Some (Err (Message ''not yet implemented''), cp')
               | Some vs \<Rightarrow> Some (Done vs, cp'))))"

definition extism_function_new ::
    "u8 list \<Rightarrow> ExtismType list \<Rightarrow> ExtismType list \<Rightarrow> c_function \<Rightarrow> nat \<Rightarrow> bool \<Rightarrow> Function option" where
  "extism_function_new n inputs outputs func user_data has_free_fn =
     (if \<not> from_utf8_ok n then None
      else Some (function_new (str_of n) inputs outputs
             (userdata_new_pointer user_data has_free_fn) (c_body func outputs)))"

text \<open>\<^verbatim>\<open>ExtismFunction\<close> is a cell, empty once the function is registered; \<open>lossy\<close> is \<^verbatim>\<open>to_string_lossy\<close>.\<close>

definition extism_function_set_namespace ::
    "(u8 list \<Rightarrow> string) \<Rightarrow> u8 list \<Rightarrow> Function option \<Rightarrow> Function option" where
  "extism_function_set_namespace lossy ns cell = map_option (set_namespace (lossy ns)) cell"

section \<open>Plugins\<close>

text \<open>
  The array of functions: addresses of cells, or null; an empty cell sets the error message but
  does not stop the loop.
\<close>

type_synonym cells = "nat \<Rightarrow> Function option"

fun take_functions :: "nat option list \<Rightarrow> cells \<Rightarrow> Function list \<times> bool \<times> cells" where
  "take_functions [] c = ([], False, c)"
| "take_functions (None # ps) c = take_functions ps c"
| "take_functions (Some i # ps) c =
     (case c i of
        Some f \<Rightarrow> let (fs, reused, c') = take_functions ps (c(i := None)) in (f # fs, reused, c')
      | None \<Rightarrow> let (fs, reused, c') = take_functions ps c in (fs, True, c'))"

datatype errmsg_text = Reused | Unable build_error

text \<open>
  \<open>has_errmsg\<close> tells whether \<^verbatim>\<open>errmsg\<close> is not null; the message about a function that is registered
  already is written without looking, and \<open>None\<close> stands for that write to null.
\<close>

definition extism_plugin_new ::
    "'m engine \<Rightarrow> nat \<Rightarrow> u8 list \<Rightarrow> nat option list \<Rightarrow> bool \<Rightarrow> bool \<Rightarrow> cells \<Rightarrow>
     ('m built option \<times> errmsg_text option \<times> cells) option" where
  "extism_plugin_new E uuid data functions with_wasi has_errmsg c =
     (let (funcs, reused, c') = take_functions functions c
      in if reused \<and> \<not> has_errmsg then None
         else (case plugin_new E uuid (Input_data data) funcs with_wasi of
                 Inl e \<Rightarrow>
                   Some (None, if has_errmsg then Some (Unable e) else None, c')
               | Inr p \<Rightarrow> Some (Some p, if reused then Some Reused else None, c')))"

definition extism_plugin_id :: "plugin option \<Rightarrow> nat option" where
  "extism_plugin_id p = map_option plugin_id p"

text \<open>A handle carries the id of its plugin; cancelling sends a message, and the timer always listens.\<close>

definition extism_plugin_cancel_handle :: "plugin option \<Rightarrow> nat option" where
  "extism_plugin_cancel_handle p = map_option plugin_id p"

definition extism_plugin_cancel :: "nat \<Rightarrow> bool \<times> unit TimerAction" where
  "extism_plugin_cancel handle = (True, Cancel handle)"

fun display_error :: "call_error \<Rightarrow> string" where
  "display_error (Wasi_exit c) = ''exit''"
| "display_error Interrupt = ''wasm trap: interrupt''"
| "display_error (Text s) = s"
| "display_error (Context e s) = display_error e"
| "display_error (Labelled l e) = l"

definition extism_plugin_function_exists ::
    "runtime_env \<Rightarrow> plugin option \<Rightarrow> u8 list \<Rightarrow> (bool \<times> plugin option) option" where
  "extism_plugin_function_exists E p n =
     (case p of
        None \<Rightarrow> Some (False, None)
      | Some p \<Rightarrow>
          if \<not> from_utf8_ok n
          then map_option (apsnd Some) (return_error (bytes_of ''invalid utf-8'') False p)
          else (case on_current plugin_clear_error p of
                  None \<Rightarrow> None
                | Some (_, p') \<Rightarrow> Some (function_exists E (str_of n), Some p')))"

definition extism_plugin_call ::
    "runtime_env \<Rightarrow> (host_error \<Rightarrow> string) \<Rightarrow> plugin option \<Rightarrow> u8 list \<Rightarrow> u8 list \<Rightarrow> (int \<times> plugin option) option" where
  "extism_plugin_call E show_host p func_name data =
     (case p of
        None \<Rightarrow> Some (-1, None)
      | Some p \<Rightarrow>
          if \<not> from_utf8_ok func_name
          then map_option (apsnd Some) (return_error (bytes_of ''invalid utf-8'') (-1) p)
          else (case raw_call E (str_of func_name) data True [] p of
                  None \<Rightarrow> None
                | Some (Ok x, _, p') \<Rightarrow> Some (x, Some p')
                | Some (Failed e rc, _, p') \<Rightarrow>
                    map_option (apsnd Some) (return_error (bytes_of (display_error e)) rc p')
                | Some (Host_failed e rc, _, p') \<Rightarrow>
                    map_option (apsnd Some) (return_error (bytes_of (show_host e)) rc p')
                | Some (Host_fault, _, p') \<Rightarrow> None))"

definition extism_plugin_error :: "plugin option \<Rightarrow> address" where
  "extism_plugin_error p =
     (case p of
        None \<Rightarrow> Null
      | Some p \<Rightarrow>
          if error_offset (call_output p) = 0 then Null
          else address_add (memory_ptr (current p)) (unat (error_offset (call_output p))))"

definition extism_plugin_output_length :: "plugin option \<Rightarrow> u64" where
  "extism_plugin_output_length p = (case p of None \<Rightarrow> 0 | Some p \<Rightarrow> out_length (call_output p))"

definition extism_plugin_output_data :: "plugin option \<Rightarrow> address" where
  "extism_plugin_output_data p =
     (case p of
        None \<Rightarrow> Null
      | Some p \<Rightarrow> address_add (memory_ptr (current p)) (unat (out_offset (call_output p))))"

text \<open>The plugin pointer of the reset is not checked.\<close>

definition extism_plugin_reset :: "(host_error \<Rightarrow> string) \<Rightarrow> plugin \<Rightarrow> (bool \<times> plugin) option" where
  "extism_plugin_reset show_host p =
     (case on_current plugin_reset p of
        None \<Rightarrow> None
      | Some (Err e, p') \<Rightarrow>
          map_option (\<lambda>(_, p2). (False, p2)) (on_current (set_error_msg (bytes_of (show_host e))) p')
      | Some (_, p') \<Rightarrow> Some (True, p'))"

section \<open>Configuration\<close>

text \<open>
  The new values, \<open>None\<close> for a JSON null: they go to the environment of WASI (where \<open>push_env\<close> may
  refuse one) and to the configuration, from which null removes a key.
\<close>

definition merge_config :: "(string, string option) btree \<Rightarrow> (string, string) btree \<Rightarrow> (string, string) btree" where
  "merge_config json cfg =
     fold (\<lambda>(k, v) c. case v of Some s \<Rightarrow> btree_insert k s c | None \<Rightarrow> btree_remove k c) json cfg"

definition push_envs :: "(string \<times> string \<Rightarrow> bool) \<Rightarrow> (string, string option) btree \<Rightarrow> Wasi \<Rightarrow> Wasi" where
  "push_envs ok json w =
     fold (\<lambda>(k, v) w. let b = (k, case v of Some s \<Rightarrow> s | None \<Rightarrow> [])
                      in if ok b then w\<lparr>wasi_env := wasi_env w @ [b]\<rparr> else w) json w"

definition extism_plugin_config ::
    "(u8 list \<Rightarrow> (string, string option) btree option) \<Rightarrow> (string \<times> string \<Rightarrow> bool) \<Rightarrow> plugin option \<Rightarrow>
     u8 list \<Rightarrow> (bool \<times> plugin option) option" where
  "extism_plugin_config parse push_ok p json =
     (case p of
        None \<Rightarrow> Some (False, None)
      | Some p \<Rightarrow>
          (case parse json of
             None \<Rightarrow> map_option (apsnd Some) (return_error (bytes_of ''json'') False p)
           | Some j \<Rightarrow>
               let c = current p;
                   c1 = c\<lparr>wasi := map_option (push_envs push_ok j) (wasi c),
                          manifest := (manifest c)\<lparr>config := merge_config j (config (manifest c))\<rparr>\<rparr>
               in (case on_current plugin_clear_error (p\<lparr>current := c1\<rparr>) of
                     None \<Rightarrow> None
                   | Some (_, p') \<Rightarrow> Some (True, Some p'))))"

end
