(* ===== verification/C_Laws.thy ===== *)
theory C_Laws
  imports C_Api
begin

text \<open>
  What a C caller may rely on: how the array of functions is consumed, which values of a callback
  survive the conversion, what a call leaves in the memory of the kernel, and what the new
  configuration and the log buffer hold.
\<close>

section \<open>The array of functions\<close>

definition named :: "nat option list \<Rightarrow> nat list" where
  "named ps = List.map_filter id ps"

text \<open>The first occurrences of the elements of a list.\<close>

definition firsts :: "'a list \<Rightarrow> 'a list" where
  "firsts xs = rev (remdups (rev xs))"

lemma named_simps [simp]: "named [] = []" "named (None # ps) = named ps" "named (Some i # ps) = i # named ps"
  by (simp_all add: named_def List.map_filter_simps)

lemma set_named: "i \<in> set (named ps) \<longleftrightarrow> Some i \<in> set ps"
  by (induction ps rule: list.induct) (auto simp: named_def List.map_filter_simps split: option.splits)

lemma firsts_Cons: "firsts (x # xs) = x # filter (\<lambda>y. y \<noteq> x) (firsts xs)"
proof -
  have "remdups (ys @ [x]) = filter (\<lambda>y. y \<noteq> x) (remdups ys) @ [x]" for ys by (induction ys) auto
  then show ?thesis by (simp add: firsts_def rev_filter)
qed

lemma map_filter_upd: "List.map_filter (f(i := None)) xs = List.map_filter f (filter (\<lambda>y. y \<noteq> i) xs)"
  by (induction xs) (auto simp: List.map_filter_simps split: option.split)

text \<open>
  Every cell is read once and left empty, in the order of the first mentions; a cell that is empty
  or mentioned again is reported.
\<close>

lemma take_functions_run:
  "take_functions ps c =
     (List.map_filter c (firsts (named ps)),
      \<not> distinct (named ps) \<or> (\<exists>i \<in> set (named ps). c i = None),
      \<lambda>i. if i \<in> set (named ps) then None else c i)"
proof (induction ps arbitrary: c)
  case Nil
  show ?case by (simp add: firsts_def List.map_filter_simps)
next
  case (Cons p ps)
  show ?case
  proof (cases p)
    case None
    with Cons show ?thesis by simp
  next
    case (Some i)
    have skip: "c i = None \<Longrightarrow> List.map_filter c (filter (\<lambda>y. y \<noteq> i) xs) = List.map_filter c xs" for xs
      using map_filter_upd [of c i xs] fun_upd_triv [of c i] by simp
    have "(\<exists>j \<in> set (named ps). (c(i := None)) j = None) \<longleftrightarrow>
        i \<in> set (named ps) \<or> (\<exists>j \<in> set (named ps). c j = None)" by auto
    moreover have "(\<lambda>j. if j \<in> set (named ps) then None else (c(i := None)) j) =
        (\<lambda>j. if j \<in> set (named (Some i # ps)) then None else c j)" by auto
    ultimately show ?thesis
      using Cons [of c] Cons [of "c(i := None)"] Some skip
      by (cases "c i") (simp_all add: firsts_Cons List.map_filter_simps map_filter_upd Let_def fun_upd_idem
          del: fun_upd_apply)
  qed
qed

section \<open>Values of a callback\<close>

lemma ucast_round: "ucast (ucast w :: u64) = (w :: u32)"
  by (rule bit_word_eqI) (simp add: bit_simps)

lemma callback_integers:
  "callback_val (extism_val_from (I32 w)) = Some (I32 w)"
  "callback_val (extism_val_from (I64 v)) = Some (I64 v)"
  by (simp_all add: callback_val_def ucast_round)

text \<open>
  A 32-bit float from 1.0 up to \<open>2 ^ 23\<close> is converted to an integer below \<open>2 ^ 24\<close>, whose bits are
  those of a tiny float.
\<close>

lemma float_trunc_less:
  assumes "e < bias + width" "f < 2 ^ width"
  shows "float_trunc width bias e f < 2 ^ Suc width"
proof -
  have "(2 ^ width + f) div k \<le> 2 ^ width + f" for k by (rule div_le_dividend)
  with assms(2) have "(2 ^ width + f) div k < 2 ^ Suc width" for k
    by (metis add_less_cancel_left le_less_trans mult_2 power_Suc)
  with assms(1) show ?thesis by (simp add: float_trunc_def)
qed

lemma f32_as_u32_small:
  assumes "b < 0x4B000000"
  shows "unat (f32_as_u32 b) < 16777216"
proof -
  let ?n = "unat b"
  have n: "?n < 1258291200" using assms by (simp add: word_less_nat_alt)
  then have q: "?n div 2 ^ 23 < 150" by (simp add: div_less_iff_less_mult)
  then have e: "?n div 2 ^ 23 mod 256 < 150" by simp
  have "float_trunc 23 127 (?n div 2 ^ 23 mod 256) (?n mod 2 ^ 23) < 2 ^ Suc 23"
    by (rule float_trunc_less) (use e in simp_all)
  then have t: "float_trunc 23 127 (?n div 2 ^ 23 mod 256) (?n mod 2 ^ 23) < 16777216" by simp
  have "f32_as_u32 b = word_of_nat (float_trunc 23 127 (?n div 2 ^ 23 mod 256) (?n mod 2 ^ 23))"
    using n e t by (simp add: f32_as_u32_def Let_def min_def)
  with t show ?thesis by (simp add: unat_of_nat)
qed

lemma callback_float_lost:
  assumes "0x3F800000 \<le> b" "b < 0x4B000000"
  shows "callback_val (extism_val_from (F32 b)) = Some (F32 (f32_as_u32 b))" "f32_as_u32 b \<noteq> b"
    "unat (f32_as_u32 b) < 16777216"
proof -
  show small: "unat (f32_as_u32 b) < 16777216" using f32_as_u32_small [OF assms(2)] .
  moreover have "16777216 \<le> unat b" using assms(1) by (simp add: word_le_nat_alt)
  ultimately show "f32_as_u32 b \<noteq> b" by auto
qed (simp add: callback_val_def ucast_round)

section \<open>Results of a call, through pointers\<close>

text \<open>A pointer that designates bytes within the memory of the kernel.\<close>

definition points_to :: "CurrentPlugin \<Rightarrow> address \<Rightarrow> u8 list \<Rightarrow> bool" where
  "points_to cp a d \<longleftrightarrow>
     (\<exists>i. a = In_kernel i \<and> i + length d \<le> mem_size (kernel_memory cp) \<and>
        read_bytes (bytes (kernel_memory cp)) i (length d) = d)"

lemma holds_points_to:
  assumes "cp_ok cp h" "holds cp h offs d"
  shows "points_to cp (address_add (memory_ptr cp) (unat offs)) d"
proof (cases "d = []")
  case True
  then show ?thesis using assms cp_okD(2) [OF assms(1)]
    by (auto simp: points_to_def memory_ptr_def holds_def read_bytes_def)
next
  case False
  then show ?thesis using assms cp_okD(2) [OF assms(1)] in_heap_bounds(2) [OF cp_okD(1) [OF assms(1)], of offs]
    by (auto simp: points_to_def memory_ptr_def holds_def)
qed

text \<open>The error of a call: the text is a new block of the kernel.\<close>

lemma return_error_run:
  assumes inst: "instance_of p \<noteq> None" and ok: "cp_ok (current p) h"
    and txt0: "t \<noteq> []" "length t < 4294967296" and room: "\<And>g. heap_take g (length t) h \<noteq> None"
  shows "\<exists>q. return_error t x p = Some (x, q) \<and> points_to (current q) (extism_plugin_error (Some q)) t \<and>
    error_length (call_output q) = word_of_nat (length t) \<and> instance_of q = instance_of p"
proof -
  obtain cp' h' where run: "set_error_msg t (current p) = Some (Done (h_error h', word_of_nat (length t)), cp')"
    and ok': "cp_ok cp' h'" "holds cp' h' (h_error h') t"
    using set_error_msg_run [OF ok txt0] room by blast
  let ?q = "p\<lparr>current := cp', call_output := (call_output p)\<lparr>error_offset := h_error h', error_length := word_of_nat (length t)\<rparr>\<rparr>"
  have "return_error t x p = Some (x, ?q)" using inst run by (auto simp: return_error_def on_current_def)
  moreover have "h_error h' \<noteq> 0" using ok'(2) txt0(1) by (simp add: holds_def)
  then have "points_to (current ?q) (extism_plugin_error (Some ?q)) t"
    using holds_points_to [OF ok'] by (simp add: extism_plugin_error_def)
  ultimately show ?thesis by (intro exI [of _ ?q]) simp
qed

text \<open>
  What \<^verbatim>\<open>Display\<close> shows of the error of a call whose guest has left the message \<open>s\<close>: the message, or
  only the error of the guest if there was one.
\<close>

definition shown_message :: "call_error + Val list \<Rightarrow> u8 list \<Rightarrow> u8 list" where
  "shown_message r s = (case r of Inr vs \<Rightarrow> s | Inl e \<Rightarrow> bytes_of (display_error e))"

lemma message_error:
  assumes "str_of s \<noteq> ''oom''"
  shows "\<exists>e. final_result (Some (case guest_error r of None \<Rightarrow> Text (str_of s) | Some e \<Rightarrow> Context e (str_of s))) rc =
    Failed e rc \<and> bytes_of (display_error e) = shown_message r s"
  using assms by (cases r) (simp_all add: guest_error_def final_result_def shown_message_def)

lemma call_message_run:
  assumes inst: "instance_of p = Some fs" "btree_get fs (str_of n) = Some f" and keep: "\<not> store_needs_reset p"
    and res: "length (f_results f) \<le> 1" and name: "from_utf8_ok n"
    and input: "set_input input p = Some (Done (), p1)" "input_ready p p1 h1 input"
    and guest: "f_code f [] (current p1) = Some (r, c)" "cp_ok c h" "pages (kernel_memory c) < 65536"
    and err: "holds c h (h_error h) s" "s \<noteq> []" "from_utf8_ok s" "str_of s \<noteq> ''oom''"
    and txt0: "shown_message r s \<noteq> []" "length (shown_message r s) < 4294967296"
    and room: "\<And>g. heap_take g (length (shown_message r s)) h \<noteq> None"
  shows "\<exists>q. extism_plugin_call E show_host (Some p) n input =
      Some (return_code True (guest_results f r), Some q) \<and>
    points_to (current q) (extism_plugin_error (Some q)) (shown_message r s) \<and>
    error_length (call_output q) = word_of_nat (length (shown_message r s))"
proof -
  obtain e p2 where e: "raw_call E (str_of n) input True [] p = Some (Failed e (return_code True (guest_results f r)), [], p2)"
    "bytes_of (display_error e) = shown_message r s" "same_heap c (current p2)" "instance_of p2 = Some fs"
    using raw_call_message [OF inst keep res input guest err(1-3), of E] message_error [OF err(4), of r] by metis
  have "cp_ok (current p2) h" using same_heap_ok [OF e(3)] guest(2) by simp
  from return_error_run [OF _ this txt0 room] e(4) obtain q
    where "return_error (shown_message r s) (return_code True (guest_results f r)) p2 =
        Some (return_code True (guest_results f r), q)"
      "points_to (current q) (extism_plugin_error (Some q)) (shown_message r s)"
      "error_length (call_output q) = word_of_nat (length (shown_message r s))" by fastforce
  with e(1,2) name show ?thesis by (simp add: extism_plugin_call_def)
qed

section \<open>Configuration\<close>

text \<open>Every key the new configuration mentions gets its value or goes; the others stay.\<close>

lemma merge_config_get:
  assumes "btree_ok cfg" "btree_ok json"
  shows "btree_ok (merge_config json cfg) \<and> btree_get (merge_config json cfg) k =
    (case btree_get json k of Some v \<Rightarrow> v | None \<Rightarrow> btree_get cfg k)"
  using assms
proof (induction json arbitrary: cfg)
  case Nil
  then show ?case by (simp add: merge_config_def)
next
  case (Cons kv json)
  obtain k1 v where kv: "kv = (k1, v)" by force
  define cfg1 where "cfg1 = (case v of Some s \<Rightarrow> btree_insert k1 s cfg | None \<Rightarrow> btree_remove k1 cfg)"
  have step: "merge_config ((k1, v) # json) cfg = merge_config json cfg1" by (simp add: merge_config_def kv cfg1_def)
  have "btree_ok cfg1" using Cons.prems(1) by (simp add: cfg1_def btree_simps split: option.split)
  moreover have "btree_ok json" "k1 \<notin> fst ` set json" using Cons.prems(2) by (auto simp: kv btree_ok_def)
  ultimately have ok: "btree_ok json" "btree_ok cfg1" and out: "btree_get json k1 = None"
    using btree_get_None [of k1 json] by simp_all
  show ?case
    unfolding kv step using Cons.IH [OF ok(2,1)] out Cons.prems(1)
    by (auto simp: cfg1_def btree_get_insert btree_get_remove split: option.splits)
qed

end
