(* ===== verification/Otoroshi_Api.thy ===== *)
theory Otoroshi_Api
  imports C_Api
begin

text \<open>
  The C interface of the Otoroshi fork, \<^verbatim>\<open>runtime/src/otoroshi/sdk.rs\<close>: raw calls with wasm values,
  the memories the linker knows by name, and the allocator of a plugin that exports its own memory.
  The conventions are those of \<^verbatim>\<open>C_Api\<close>.  A panic is \<open>Panic\<close>.
\<close>

datatype 'a ffi = Returned 'a | Panic

section \<open>Raw calls\<close>

definition ptr_as_val :: "ExtismVal list option \<Rightarrow> Val list option" where
  "ptr_as_val params =
     (case params of
        None \<Rightarrow> None
      | Some vs \<Rightarrow>
          if vs = [] then None
          else Some (map (\<lambda>x. case ev_type x of
                 EI32 \<Rightarrow> I32 (ucast (ev_bits x))
               | EI64 \<Rightarrow> I64 (ev_bits x)
               | EF32 \<Rightarrow> F32 (f32_as_u32 (ucast (ev_bits x)))
               | EF64 \<Rightarrow> F64 (f64_as_u64 (ev_bits x))
               | _ \<Rightarrow> I32 (-1)) vs))"

definition val_as_ptr :: "Val list \<Rightarrow> ExtismVal list" where
  "val_as_ptr vals = map extism_val_from vals"

definition wasm_otoroshi_plugin_call_native ::
    "runtime_env \<Rightarrow> (host_error \<Rightarrow> string) \<Rightarrow> plugin option \<Rightarrow> u8 list \<Rightarrow> Val list option \<Rightarrow>
     (Val list option \<times> plugin option) option" where
  "wasm_otoroshi_plugin_call_native E show_host p func_name params =
     (case p of
        None \<Rightarrow> Some (None, None)
      | Some p \<Rightarrow>
          if \<not> from_utf8_ok func_name
          then map_option (apsnd Some) (return_error (bytes_of ''invalid utf-8'') None p)
          else (case raw_call E (str_of func_name) [] False (case params of Some vs \<Rightarrow> vs | None \<Rightarrow> []) p of
                  None \<Rightarrow> None
                | Some (Ok x, results, p') \<Rightarrow> Some (Some results, Some p')
                | Some (Failed e rc, _, p') \<Rightarrow>
                    map_option (apsnd Some) (return_error (bytes_of (display_error e)) None p')
                | Some (Host_failed e rc, _, p') \<Rightarrow>
                    map_option (apsnd Some) (return_error (bytes_of (show_host e)) None p')
                | Some (Host_fault, _, p') \<Rightarrow> None))"

definition wasm_otoroshi_call ::
    "runtime_env \<Rightarrow> (host_error \<Rightarrow> string) \<Rightarrow> plugin option \<Rightarrow> u8 list \<Rightarrow> ExtismVal list option \<Rightarrow>
     (ExtismVal list option \<times> plugin option) option" where
  "wasm_otoroshi_call E show_host p func_name params =
     map_option (apfst (map_option val_as_ptr))
       (wasm_otoroshi_plugin_call_native E show_host p func_name (ptr_as_val params))"

definition wasm_plugin_call_without_params ::
    "runtime_env \<Rightarrow> (host_error \<Rightarrow> string) \<Rightarrow> plugin option \<Rightarrow> u8 list \<Rightarrow>
     (ExtismVal list option \<times> plugin option) option" where
  "wasm_plugin_call_without_params E show_host p func_name =
     map_option (apfst (map_option val_as_ptr))
       (wasm_otoroshi_plugin_call_native E show_host p func_name None)"

definition wasm_plugin_call_without_results ::
    "runtime_env \<Rightarrow> (host_error \<Rightarrow> string) \<Rightarrow> plugin option \<Rightarrow> u8 list \<Rightarrow> ExtismVal list option \<Rightarrow>
     plugin option option" where
  "wasm_plugin_call_without_results E show_host p func_name params =
     map_option snd (wasm_otoroshi_plugin_call_native E show_host p func_name (ptr_as_val params))"

definition wasm_otoroshi_create_wasmtime_memory :: "u8 list \<Rightarrow> u8 list \<Rightarrow> u32 \<Rightarrow> u32 \<Rightarrow> WasmMemory option" where
  "wasm_otoroshi_create_wasmtime_memory n ns lower upper =
     (if \<not> from_utf8_ok n \<or> \<not> from_utf8_ok ns then None
      else Some (wasm_memory_new (str_of n) (str_of ns) lower upper))"

section \<open>Memories of the linker\<close>

text \<open>A memory of the store: that of the kernel, or one that was defined at the construction.\<close>

datatype memory_ref = Kernel_ref | Memory_ref nat

definition linked_memory :: "linker \<Rightarrow> string \<Rightarrow> string \<Rightarrow> memory_ref option" where
  "linked_memory lk ns n =
     (case lk (ns, n) of
        Some (Memory_export i) \<Rightarrow> Some (Memory_ref i)
      | Some (Module_export m x) \<Rightarrow>
          if m = EXTISM_ENV_MODULE \<and> x = ''memory'' then Some Kernel_ref else None
      | _ \<Rightarrow> None)"

fun get_memory :: "'m built \<Rightarrow> memory_ref \<Rightarrow> wasm_mem" where
  "get_memory b Kernel_ref = kernel_memory (current (base b))"
| "get_memory b (Memory_ref i) = memories b ! i"

fun put_memory :: "memory_ref \<Rightarrow> wasm_mem \<Rightarrow> 'm built \<Rightarrow> 'm built" where
  "put_memory Kernel_ref m b = b\<lparr>base := (base b)\<lparr>current := (current (base b))\<lparr>kernel_memory := m\<rparr>\<rparr>\<rparr>"
| "put_memory (Memory_ref i) m b = b\<lparr>memories := (memories b)[i := m]\<rparr>"

definition utf8_or :: "string \<Rightarrow> u8 list \<Rightarrow> string" where
  "utf8_or d s = (if from_utf8_ok s then str_of s else d)"

definition wasm_otoroshi_extism_memory_write_bytes ::
    "u8 list \<Rightarrow> u32 \<Rightarrow> u8 list option \<Rightarrow> u8 list \<Rightarrow> 'm built \<Rightarrow> int \<times> 'm built" where
  "wasm_otoroshi_extism_memory_write_bytes data offset namespace n b =
     (let ns = (case namespace of None \<Rightarrow> [] | Some s \<Rightarrow> utf8_or EXTISM_ENV_MODULE s)
      in (case linked_memory (links b) ns (utf8_or ''memory'' n) of
            None \<Rightarrow> (-1, b)
          | Some r \<Rightarrow>
              let m = get_memory b r
              in if unat offset + length data \<le> mem_size m
                 then (0, put_memory r (m\<lparr>bytes := write_bytes (bytes m) (unat offset) data\<rparr>) b)
                 else (-1, b)))"

definition internal_linear_memory_get :: "linker \<Rightarrow> u8 list \<Rightarrow> u8 list \<Rightarrow> memory_ref option" where
  "internal_linear_memory_get lk namespace n =
     (if \<not> from_utf8_ok n then None
      else linked_memory lk (utf8_or EXTISM_ENV_MODULE namespace) (str_of n))"

definition linear_memory_get :: "'m built \<Rightarrow> u8 list \<Rightarrow> u8 list \<Rightarrow> memory_ref option" where
  "linear_memory_get b namespace n = internal_linear_memory_get (links b) namespace n"

definition linear_memory_get_from_plugin :: "'m built \<Rightarrow> u8 list \<Rightarrow> u8 list \<Rightarrow> memory_ref option" where
  "linear_memory_get_from_plugin b namespace n = internal_linear_memory_get (links b) namespace n"

text \<open>The position of the first zero byte of a memory.\<close>

fun first_zero :: "store \<Rightarrow> nat \<Rightarrow> nat \<Rightarrow> nat option" where
  "first_zero st i 0 = None"
| "first_zero st i (Suc k) = (if st i = 0 then Some i else first_zero st (Suc i) k)"

text \<open>No zero byte is a panic.\<close>

definition linear_memory_size :: "u8 list \<Rightarrow> u8 list \<Rightarrow> 'm built \<Rightarrow> nat ffi" where
  "linear_memory_size namespace n b =
     (case linked_memory (links b) (utf8_or [] namespace) (utf8_or [] n) of
        None \<Rightarrow> Returned 0
      | Some r \<Rightarrow>
          let m = get_memory b r
          in (case first_zero (bytes m) 0 (mem_size m) of None \<Rightarrow> Panic | Some i \<Rightarrow> Returned i))"

definition linear_memory_size_from_plugin :: "u8 list \<Rightarrow> u8 list \<Rightarrow> 'm built \<Rightarrow> nat ffi" where
  "linear_memory_size_from_plugin namespace n b =
     (case linked_memory (links b) (utf8_or [] namespace) (utf8_or [] n) of
        None \<Rightarrow> Returned 0
      | Some r \<Rightarrow>
          let m = get_memory b r
          in (case first_zero (bytes m) 0 (mem_size m) of None \<Rightarrow> Panic | Some i \<Rightarrow> Returned i))"

text \<open>The reset defines a new memory of the same type under the name; \<open>fresh_of\<close> creates it.\<close>

definition linear_memory_reset_from_plugin ::
    "(wasm_mem \<Rightarrow> wasm_mem option) \<Rightarrow> u8 list \<Rightarrow> u8 list \<Rightarrow> 'm built \<Rightarrow> 'm built ffi" where
  "linear_memory_reset_from_plugin fresh_of namespace n b =
     (let ns = utf8_or [] namespace; nm = utf8_or [] n
      in (case linked_memory (links b) ns nm of
            None \<Rightarrow> Returned b
          | Some r \<Rightarrow>
              (case fresh_of (get_memory b r) of
                 None \<Rightarrow> Panic
               | Some m \<Rightarrow>
                   Returned (b\<lparr>links := (links b)((ns, nm) \<mapsto> Memory_export (length (memories b))),
                               memories := memories b @ [m]\<rparr>))))"

section \<open>The memory a plugin exports\<close>

text \<open>A null \<^verbatim>\<open>memory_export\<close> is dereferenced without a check by all but one: \<open>Panic\<close>.\<close>

definition with_export ::
    "(PluginMemory \<Rightarrow> 'a \<times> PluginMemory) \<Rightarrow> CurrentPlugin \<Rightarrow> ('a \<times> CurrentPlugin) ffi" where
  "with_export f cp =
     (case memory_export cp of
        None \<Rightarrow> Panic
      | Some pm \<Rightarrow> let (x, pm') = f pm in Returned (x, cp\<lparr>memory_export := Some pm'\<rparr>))"

definition custom_memory_reset_from_plugin :: "CurrentPlugin option \<Rightarrow> CurrentPlugin option ffi" where
  "custom_memory_reset_from_plugin plugin =
     (case plugin of
        None \<Rightarrow> Returned None
      | Some cp \<Rightarrow>
          (case with_export (\<lambda>pm. ((), pm_reset pm)) cp of
             Panic \<Rightarrow> Panic | Returned (_, cp') \<Rightarrow> Returned (Some cp')))"

definition custom_memory_length :: "CurrentPlugin option \<Rightarrow> u64 \<Rightarrow> u64 ffi" where
  "custom_memory_length plugin n =
     (case plugin of
        None \<Rightarrow> Returned 0
      | Some cp \<Rightarrow>
          (case with_export (\<lambda>pm. (block_length pm (unat n), pm)) cp of
             Panic \<Rightarrow> Panic
           | Returned (Some x, _) \<Rightarrow> Returned (word_of_nat x)
           | Returned (None, _) \<Rightarrow> Returned 0))"

definition custom_memory_free :: "CurrentPlugin option \<Rightarrow> u64 \<Rightarrow> CurrentPlugin option ffi" where
  "custom_memory_free plugin p =
     (case plugin of
        None \<Rightarrow> Returned None
      | Some cp \<Rightarrow>
          (case with_export (\<lambda>pm. ((), pm_free (unat p) pm)) cp of
             Panic \<Rightarrow> Panic | Returned (_, cp') \<Rightarrow> Returned (Some cp')))"

definition custom_memory_alloc :: "CurrentPlugin option \<Rightarrow> u64 \<Rightarrow> (u64 \<times> CurrentPlugin option) ffi" where
  "custom_memory_alloc plugin n =
     (case plugin of
        None \<Rightarrow> Returned (0, None)
      | Some cp \<Rightarrow>
          (case with_export (\<lambda>pm. case pm_alloc (unat n) pm of
                   Inl e \<Rightarrow> (0, pm)
                 | Inr (blk, pm') \<Rightarrow> (word_of_nat (mb_offset blk), pm')) cp of
             Panic \<Rightarrow> Panic | Returned (x, cp') \<Rightarrow> Returned (x, Some cp')))"

text \<open>The address of the exported memory, as an offset in it.\<close>

definition custom_memory_get :: "CurrentPlugin \<Rightarrow> nat ffi" where
  "custom_memory_get cp = (case memory_export cp of None \<Rightarrow> Panic | Some pm \<Rightarrow> Returned 0)"

text \<open>The exported memory has its bytes in the guest; they are an argument here.\<close>

definition custom_memory_size_from_plugin :: "store \<Rightarrow> CurrentPlugin \<Rightarrow> nat" where
  "custom_memory_size_from_plugin guest cp =
     (case memory_export cp of
        None \<Rightarrow> 0
      | Some pm \<Rightarrow> (case first_zero guest 0 (pm_size pm) of None \<Rightarrow> 0 | Some i \<Rightarrow> i))"

section \<open>Construction\<close>

text \<open>\<^verbatim>\<open>n_memories\<close> is an \<^verbatim>\<open>i8\<close>: a negative number passes no memory.\<close>

definition extism_plugin_new_with_memories ::
    "'m engine \<Rightarrow> nat \<Rightarrow> u8 list \<Rightarrow> nat option list \<Rightarrow> WasmMemory option list \<Rightarrow> bool \<Rightarrow> bool \<Rightarrow> cells \<Rightarrow>
     ('m built option \<times> errmsg_text option \<times> cells) option" where
  "extism_plugin_new_with_memories E uuid data functions mems wasi_on has_errmsg c =
     (let (funcs, reused, c') = take_functions functions c;
          ms = List.map_filter id mems
      in if reused \<and> \<not> has_errmsg then None
         else (case plugin_new_with_memories E uuid (Input_data data) funcs ms wasi_on of
                 Inl e \<Rightarrow>
                   Some (None, if has_errmsg then Some (Unable e) else None, c')
               | Inr p \<Rightarrow> Some (Some p, if reused then Some Reused else None, c')))"

section \<open>What is written and measured\<close>

definition memory_there :: "'m built \<Rightarrow> memory_ref \<Rightarrow> bool" where
  "memory_there b r \<longleftrightarrow> (case r of Kernel_ref \<Rightarrow> True | Memory_ref i \<Rightarrow> i < length (memories b))"

lemma get_put_memory:
  "memory_there b r \<Longrightarrow> get_memory (put_memory r m b) r' = (if r' = r then m else get_memory b r')"
  by (cases r; cases r') (auto simp: memory_there_def)

text \<open>A write arrives in the memory the linker has under the name, as a whole or not at all.\<close>

lemma memory_write_bytes:
  assumes "linked_memory (links b) (utf8_or EXTISM_ENV_MODULE ns) (utf8_or ''memory'' n) = Some r" "memory_there b r"
  shows "if unat offset + length data \<le> mem_size (get_memory b r)
    then \<exists>b'. wasm_otoroshi_extism_memory_write_bytes data offset (Some ns) n b = (0, b') \<and>
      read_bytes (bytes (get_memory b' r)) (unat offset) (length data) = data \<and>
      mem_size (get_memory b' r) = mem_size (get_memory b r) \<and> (\<forall>r'. r' \<noteq> r \<longrightarrow> get_memory b' r' = get_memory b r')
    else wasm_otoroshi_extism_memory_write_bytes data offset (Some ns) n b = (-1, b)"
  using assms get_put_memory [OF assms(2)]
  by (simp add: wasm_otoroshi_extism_memory_write_bytes_def Let_def mem_size_def read_write_same)

lemma first_zero_iff:
  "first_zero st i k = Some j \<longleftrightarrow> i \<le> j \<and> j < i + k \<and> st j = 0 \<and> (\<forall>l. i \<le> l \<and> l < j \<longrightarrow> st l \<noteq> 0)"
proof (induction st i k rule: first_zero.induct)
  case (2 st i k)
  show ?case
  proof (cases "st i = 0")
    case True
    then show ?thesis by (auto simp: not_less dest: le_neq_implies_less)
  next
    case False
    have "(\<forall>l. i \<le> l \<and> l < j \<longrightarrow> st l \<noteq> 0) \<longleftrightarrow> (\<forall>l. Suc i \<le> l \<and> l < j \<longrightarrow> st l \<noteq> 0)"
      using False by (metis le_eq_less_or_eq less_eq_Suc_le)
    moreover have "i \<le> j \<and> st j = 0 \<longleftrightarrow> Suc i \<le> j \<and> st j = 0"
      using False by (auto simp: le_less Suc_le_eq)
    ultimately show ?thesis using 2 False by auto
  qed
qed auto

text \<open>The size of a memory is the length of the text it starts with; a memory without a zero byte panics.\<close>

lemma linear_memory_size_run:
  assumes "linked_memory (links b) (utf8_or [] ns) (utf8_or [] n) = Some r"
  shows "linear_memory_size ns n b = Returned k \<longleftrightarrow> k < mem_size (get_memory b r) \<and> bytes (get_memory b r) k = 0 \<and>
      (\<forall>l < k. bytes (get_memory b r) l \<noteq> 0)"
    "linear_memory_size ns n b = Panic \<longleftrightarrow> (\<forall>l < mem_size (get_memory b r). bytes (get_memory b r) l \<noteq> 0)"
proof -
  let ?z = "first_zero (bytes (get_memory b r)) 0 (mem_size (get_memory b r))"
  have eq: "linear_memory_size ns n b = (case ?z of None \<Rightarrow> Panic | Some i \<Rightarrow> Returned i)"
    using assms by (simp add: linear_memory_size_def Let_def)
  show "linear_memory_size ns n b = Returned k \<longleftrightarrow> k < mem_size (get_memory b r) \<and>
      bytes (get_memory b r) k = 0 \<and> (\<forall>l < k. bytes (get_memory b r) l \<noteq> 0)"
    using first_zero_iff [of "bytes (get_memory b r)" 0 "mem_size (get_memory b r)" k]
    by (auto simp: eq split: option.split)
  have "?z = None \<longleftrightarrow> (\<forall>l < mem_size (get_memory b r). bytes (get_memory b r) l \<noteq> 0)"
  proof
    assume none: "?z = None"
    show "\<forall>l < mem_size (get_memory b r). bytes (get_memory b r) l \<noteq> 0"
    proof (intro allI impI)
      fix l
      assume "l < mem_size (get_memory b r)"
      then show "bytes (get_memory b r) l \<noteq> 0"
      proof (induction l rule: less_induct)
        case (less l)
        with none first_zero_iff [of "bytes (get_memory b r)" 0 "mem_size (get_memory b r)" l] show ?case by auto
      qed
    qed
  next
    assume "\<forall>l < mem_size (get_memory b r). bytes (get_memory b r) l \<noteq> 0"
    then show "?z = None"
      using first_zero_iff [of "bytes (get_memory b r)" 0 "mem_size (get_memory b r)"] by (cases ?z) auto
  qed
  then show "linear_memory_size ns n b = Panic \<longleftrightarrow> (\<forall>l < mem_size (get_memory b r). bytes (get_memory b r) l \<noteq> 0)"
    by (auto simp: eq split: option.split)
qed

section \<open>The allocator, from C\<close>

text \<open>
  An allocation through the C interface: 0 when the memory cannot grow, with nothing changed, or the
  offset of a new block within the memory, whose length \<^verbatim>\<open>custom_memory_length\<close> then returns.
\<close>

lemma custom_alloc_length:
  assumes "memory_export cp = Some pm" "pm_ok pm" "n \<noteq> 0"
  shows "(custom_memory_alloc (Some cp) n = Returned (0, Some cp) \<and> (\<exists>e. pm_alloc (unat n) pm = Inl e)) \<or>
    (\<exists>off cp' pm'. custom_memory_alloc (Some cp) n = Returned (off, Some cp') \<and> memory_export cp' = Some pm' \<and>
       pm_ok pm' \<and> 0 < off \<and> unat off + unat n \<le> pm_size pm' \<and> at_offset pm (unat off) = None \<and>
       custom_memory_length (Some cp') off = Returned n)"
proof (cases "pm_alloc (unat n) pm")
  case (Inl e)
  then show ?thesis using assms(1) by (auto simp: custom_memory_alloc_def with_export_def)
next
  case (Inr r)
  obtain b pm' where r: "r = (b, pm')" by force
  have n: "0 < unat n" using assms(3) by (simp add: unat_gt_0)
  note A = plugin_memory_alloc [OF assms(2) n Inr [unfolded r]] and ok = pm_alloc_ok [OF assms(2) n Inr [unfolded r]]
  have "mem_pages pm' \<le> 65536" using ok pm_okD(7) by blast
  then have "mb_offset b < 18446744073709551616" using A n by (simp add: pm_size_def)
  then have off: "unat (word_of_nat (mb_offset b) :: u64) = mb_offset b" by (rule unat_nat64)
  let ?cp = "cp\<lparr>memory_export := Some pm'\<rparr>"
  have "custom_memory_alloc (Some cp) n = Returned (word_of_nat (mb_offset b), Some ?cp)"
    using assms(1) Inr by (simp add: r custom_memory_alloc_def with_export_def)
  moreover have "block_length pm' (mb_offset b) = Some (unat n)" using A by (cases b) (auto simp: at_offset_def)
  then have "custom_memory_length (Some ?cp) (word_of_nat (mb_offset b)) = Returned n"
    by (simp add: custom_memory_length_def with_export_def off)
  moreover have "0 < (word_of_nat (mb_offset b) :: u64)" using A off by (simp add: word_less_nat_alt)
  ultimately show ?thesis using A ok off by (intro disjI2) auto
qed

end
