(* ===== verification/Demo_Build.thy ===== *)
theory Demo_Build
  imports Demo Builder C_Laws Otoroshi_Api
begin

text \<open>
  Concrete engines, plugins and functions for the witnesses of the properties on construction and
  on the C interface.
\<close>

section \<open>An engine\<close>

text \<open>The module \<open>[2]\<close> imports the kernel's \<^verbatim>\<open>alloc\<close>; nothing else has imports.\<close>

definition demo_imports :: "u8 list \<Rightarrow> (string \<times> string) set" where
  "demo_imports m = (if m = [2] then {(EXTISM_ENV_MODULE, ''alloc'')} else {})"

definition demo_engine :: "u8 list engine" where
  "demo_engine = \<lparr>en_loader = demo_loader, en_var = (\<lambda>v. None), cache_load = (\<lambda>d. True),
     engine_ok = (\<lambda>d. True), wasi_names = Some [(''wasi_snapshot_preview1'', ''proc_exit'')],
     link_exports = (\<lambda>lk n m. if m = [2] \<and> lk (EXTISM_ENV_MODULE, ''alloc'') = None then None
       else Some (if m = [0] then kernel_exports else [''f''])),
     pre_ok = (\<lambda>lk m. True), kernel_instance = demo_mem, memory_instance = (\<lambda>w. Some demo_mem),
     en_growth = (\<lambda>_ _. Grown), en_env_ok = (\<lambda>e. True), en_dir_ok = (\<lambda>d. True), en_output = False\<rparr>"

lemma demo_kernel_ships: "kernel_ships demo_engine"
  using demo_fresh by (simp add: kernel_ships_def demo_engine_def demo_loader_def)

lemma demo_links_need: "links_need demo_imports demo_engine"
  by (simp add: links_need_def demo_imports_def demo_engine_def)

lemma demo_build:
  "\<exists>b. build_new demo_engine 1 (Input_manifest demo_two) fs [] True d (Some None) = Inr b \<and>
     module_map b = [(EXTISM_ENV_MODULE, [0]), (MAIN_KEY, [3]), (''x'', [2])]"
proof -
  have "link_modules demo_engine [(EXTISM_ENV_MODULE, [0]), (MAIN_KEY, [3]), (''x'', [2])] lk \<noteq> Inl e" for lk e
    by (simp add: demo_engine_def define_exports_def kernel_exports_def MAIN_KEY_def EXTISM_ENV_MODULE_def)
  then obtain lk where lk: "link_modules demo_engine [(EXTISM_ENV_MODULE, [0]), (MAIN_KEY, [3]), (''x'', [2])]
      (define_wasi [(''wasi_snapshot_preview1'', ''proc_exit'')] Map.empty) = Inr lk"
    by (metis sum.exhaust)
  have cp: "\<exists>cp. current_plugin_new (en_env_ok demo_engine) (en_dir_ok demo_engine) (en_output demo_engine) demo_two True
      (max_pages (memory demo_two)) (kernel_instance demo_engine) [] (en_growth demo_engine) = Inr cp"
    by (simp add: current_plugin_new_def Let_def demo_engine_def demo_two_def manifest_new_def manifest_default_def
        list_all_iff split: option.split)
  then obtain cp where cp: "current_plugin_new (en_env_ok demo_engine) (en_dir_ok demo_engine) (en_output demo_engine)
      demo_two True (max_pages (memory demo_two)) (kernel_instance demo_engine) [] (en_growth demo_engine) = Inr cp" by blast
  have E: "en_loader demo_engine = demo_loader" "wasi_names demo_engine = Some [(''wasi_snapshot_preview1'', ''proc_exit'')]"
    "engine_ok demo_engine d" "pre_ok demo_engine l m" for l m by (simp_all add: demo_engine_def)
  have main: "btree_get [(EXTISM_ENV_MODULE, [0 :: u8]), (MAIN_KEY, [3]), (''x'', [2])] MAIN_KEY = Some [3]"
    by (simp add: MAIN_KEY_def EXTISM_ENV_MODULE_def)
  show ?thesis
    using demo_load lk cp main by (simp add: build_new_def setup_cache_def E Let_def)
qed

section \<open>A plugin that echoes, called from C\<close>

definition demo_wasm :: "u8 list" where
  "demo_wasm = WASM_MAGIC @ [1, 0, 0, 0]"

definition echo_env :: runtime_env where
  "echo_env = demo_env\<lparr>instantiate_main := (\<lambda>c. Some (Inr ([(''echo'', echo_func)], None), c))\<rparr>"

lemma demo_plugin_new:
  "\<exists>b. plugin_new demo_engine 1 (Input_data demo_wasm) fs False = Inr b"
proof -
  have load: "load demo_loader (Input_data demo_wasm) =
      Inr (manifest_default, [(EXTISM_ENV_MODULE, [0]), (MAIN_KEY, demo_wasm)])"
    by (simp add: load_def module_new_def demo_loader_def demo_wasm_def WASM_MAGIC_def is_wat_def Let_def
        MAIN_KEY_def EXTISM_ENV_MODULE_def less_char_def)
  have "link_modules demo_engine [(EXTISM_ENV_MODULE, [0]), (MAIN_KEY, demo_wasm)] lk \<noteq> Inl e" for lk e
    by (simp add: demo_engine_def demo_wasm_def)
  then obtain lk where lk: "link_modules demo_engine [(EXTISM_ENV_MODULE, [0]), (MAIN_KEY, demo_wasm)]
      (define_wasi [] Map.empty) = Inr lk"
    by (metis sum.exhaust)
  have "\<exists>cp. current_plugin_new (en_env_ok demo_engine) (en_dir_ok demo_engine) (en_output demo_engine) manifest_default
      False (max_pages (memory manifest_default)) (kernel_instance demo_engine) [] (en_growth demo_engine) = Inr cp"
    by (simp add: current_plugin_new_def Let_def)
  then obtain cp where cp: "current_plugin_new (en_env_ok demo_engine) (en_dir_ok demo_engine) (en_output demo_engine)
      manifest_default False (max_pages (memory manifest_default)) (kernel_instance demo_engine) []
      (en_growth demo_engine) = Inr cp" by blast
  have E: "en_loader demo_engine = demo_loader" "engine_ok demo_engine d" "pre_ok demo_engine l m"
    "en_var demo_engine v = None" "cache_load demo_engine None" for d l m v by (simp_all add: demo_engine_def)
  have main: "btree_get [(EXTISM_ENV_MODULE, [0 :: u8]), (MAIN_KEY, demo_wasm)] MAIN_KEY = Some demo_wasm"
    by (simp add: MAIN_KEY_def EXTISM_ENV_MODULE_def)
  show ?thesis
    using load lk cp main by (simp add: plugin_new_def build_new_def setup_cache_def E Let_def)
qed

section \<open>A host function\<close>

definition demo_function :: "string \<Rightarrow> Function" where
  "demo_function n = function_new n [EI64] [EI64] (userdata_new ())
     (\<lambda>ud. host_fn [string_from_bytes] (\<lambda>xs. Inr (concat xs)) string_to_bytes)"

lemma demo_function_key: "function_key (demo_function n) = (EXTISM_USER_MODULE, n)"
  by (simp add: function_key_def demo_function_def function_new_def)

lemma demo_not_shadowing: "\<not> shadows_kernel (function_key (demo_function n))"
  by (simp add: demo_function_key shadows_kernel_def EXTISM_USER_MODULE_def EXTISM_ENV_MODULE_def)

end
