(* ===== verification/Host_Keeps.thy ===== *)
theory Host_Keeps
  imports First_Call
begin

text \<open>
  What no operation of the host destroys, on whatever arguments: the heap of the kernel stays
  well-formed, the store of variables ordered and within its limit, the limiter within its budget,
  and the manifest as it was.  \<open>hkeeps f Q\<close> is the triple for one operation: it keeps all of that,
  and a value it returns has the property \<open>Q\<close>.  The rules follow the structure of the operations.
\<close>

section \<open>Kernel functions that only read\<close>

definition reads :: "'a wasm \<Rightarrow> bool" where
  "reads f \<longleftrightarrow> (\<forall>m x m'. f m = Some (Ret (x, m')) \<longrightarrow> m' = m)"

named_theorems reads_intros "kernel code that leaves the memory alone"

lemma reads_wret [reads_intros]: "reads (wret x)"
  by (simp add: reads_def wret_def)

lemma reads_wbind [reads_intros]: "reads f \<Longrightarrow> (\<And>x. reads (g x)) \<Longrightarrow> reads (wbind f g)"
  by (fastforce simp: reads_def wbind_apply split: option.splits outcome.splits)

lemma reads_loads [reads_intros]:
  "reads (i32_load8_u a)" "reads (i32_load a)" "reads (i64_load a)" "reads memory_size"
  by (simp_all add: reads_def wasm_instr_defs)

lemma reads_fields [reads_intros]:
  "reads (get_status b)" "reads (get_size b)" "reads (get_used b)" "reads (next_ptr b)"
  "reads get_position" "reads get_length" "reads get_error" "reads get_input_offset"
  "reads get_input_length" "reads get_output_offset" "reads get_output_length"
  by (simp_all add: block_access_defs root_access_defs next_ptr_def reads_intros)

lemma reads_bounds [reads_intros]: "reads (pointer_in_bounds p)" "reads (pointer_in_bounds_fast p)"
  by (simp_all add: pointer_in_bounds_def pointer_in_bounds_fast_def Let_def reads_intros)

lemma find_block_loop_reads:
  assumes "find_block_loop offs b m = Some r"
  shows "\<forall>x m'. r = Ret (x, m') \<longrightarrow> m' = m"
proof (rule find_block_loop.raw_induct [OF _ assms, where P = "\<lambda>offs b m r. \<forall>x m'. r = Ret (x, m') \<longrightarrow> m' = m"])
  have next_m: "next_ptr b m = Some (Ret (x, m')) \<Longrightarrow> m' = m" for b m x m'
    using reads_fields(4) [of b] by (simp add: reads_def)
  have status_m: "get_status b m = Some (Ret (x, m')) \<Longrightarrow> m' = m" for b m x m'
    using reads_fields(1) [of b] by (simp add: reads_def)
  fix loop offs b m r
  assume IH: "\<And>offs b m r. loop offs b m = Some r \<Longrightarrow> \<forall>x m'. r = Ret (x, m') \<longrightarrow> m' = m"
    and "(if ucast b < word_of_nat blocks_addr + offs
      then wbind (get_status b) (\<lambda>status m.
        if status = status_code Active \<and> ucast (data_ptr b) = offs then wret (Some b) m
        else wbind (next_ptr b) (\<lambda>next m. loop offs next m) m) m
      else wret None m) = Some r"
  then show "\<forall>x m'. r = Ret (x, m') \<longrightarrow> m' = m"
    by (auto simp: wbind_apply wret_apply split: if_splits option.splits outcome.splits
        dest!: next_m status_m dest: IH)
qed

lemma reads_find_block [reads_intros]: "reads (root_find_block offs)"
proof -
  have "reads (find_block_loop offs b)" for b
    using find_block_loop_reads by (fastforce simp: reads_def)
  then show ?thesis by (auto simp: root_find_block_def intro!: reads_intros)
qed

section \<open>Kernel functions that keep the heap\<close>

definition mem_fine :: "wasm_mem \<Rightarrow> bool" where
  "mem_fine m \<longleftrightarrow> fresh m \<or> (\<exists>h. heap_repr m h)"

lemma mem_fine_growth [simp]: "mem_fine (m\<lparr>growth := g\<rparr>) = mem_fine m"
  by (simp add: mem_fine_def)

lemma mem_fine_size: "mem_fine m \<Longrightarrow> mem_size m \<le> 4294967296"
  using heap_okD(2) heap_reprD(1,3) by (auto simp: mem_fine_def fresh_def mem_size_def)

definition kernel_keeps :: "'a wasm \<Rightarrow> bool" where
  "kernel_keeps f \<longleftrightarrow> (\<forall>m x m'. mem_fine m \<longrightarrow> f m = Some (Ret (x, m')) \<longrightarrow> mem_fine m')"

lemma reads_keeps: "reads f \<Longrightarrow> kernel_keeps f"
  by (auto simp: reads_def kernel_keeps_def)

lemma kernel_keepsI:
  assumes "\<And>m. fresh m \<Longrightarrow> f m = f (initialised m)"
    and "\<And>m h x m'. heap_repr m h \<Longrightarrow> f m = Some (Ret (x, m')) \<Longrightarrow> \<exists>h'. heap_repr m' h'"
  shows "kernel_keeps f"
  using assms initialised_fresh(2) by (fastforce simp: kernel_keeps_def mem_fine_def)

text \<open>A function that reads after the initialisation.\<close>

lemma init_reads_keeps:
  assumes "reads f"
  shows "kernel_keeps (wthen root_new f)"
proof (rule kernel_keepsI)
  fix m assume "fresh m"
  then show "wthen root_new f m = wthen root_new f (initialised m)" by (rule fresh_then)
next
  fix m h x m'
  assume repr: "heap_repr m h" and run: "wthen root_new f m = Some (Ret (x, m'))"
  then have "m' = m" using assms by (auto simp: reads_def wasm_simps root_new_ok [OF repr])
  with repr show "\<exists>h'. heap_repr m' h'" by blast
qed

lemma run_agrees_repr: "run_agrees h m (f m) x h' \<Longrightarrow> f m = Some (Ret (y, m')) \<Longrightarrow> \<exists>h'. heap_repr m' h'"
  by (auto simp: run_agrees_def)

named_theorems kernel_intros "kernel functions that keep the heap well-formed"

lemma k_alloc_keeps [kernel_intros]:
  assumes "unat n < 4294967296"
  shows "kernel_keeps (k_alloc n)"
proof (cases "n = 0")
  case True
  then show ?thesis by (simp add: k_alloc_def reads_keeps reads_intros)
next
  case False
  then have n: "0 < unat n" "word_of_nat (unat n) = n" by (simp_all add: unat_gt_0)
  show ?thesis
  proof (rule kernel_keepsI)
    fix m assume "fresh m"
    with fresh_exports(1) [of m "unat n"] n assms show "k_alloc n m = k_alloc n (initialised m)" by simp
  next
    fix m h x m'
    assume "heap_repr m h" "k_alloc n m = Some (Ret (x, m'))"
    with k_alloc_refines_heap [of m h "unat n"] n assms show "\<exists>h'. heap_repr m' h'"
      by (auto simp: alloc_agrees_def split: outcome.splits)
  qed
qed

lemma k_readers_keep [kernel_intros]:
  "kernel_keeps (k_length p)" "kernel_keeps (k_length_unsafe p)" "kernel_keeps (k_load_u8 p)"
  "kernel_keeps (k_load_u64 p)" "kernel_keeps (k_input_load_u8 p)" "kernel_keeps (k_input_load_u64 p)"
  "kernel_keeps k_input_length" "kernel_keeps k_input_offset" "kernel_keeps k_output_length"
  "kernel_keeps k_output_offset" "kernel_keeps k_error_get" "kernel_keeps k_memory_bytes"
proof -
  show "kernel_keeps (k_length p)"
    by (cases "p = 0") (auto simp: k_length_def intro!: init_reads_keeps reads_intros split: option.split
        intro: reads_keeps)
  show "kernel_keeps (k_length_unsafe p)" "kernel_keeps (k_load_u8 p)" "kernel_keeps (k_load_u64 p)"
    by (auto simp: k_length_unsafe_def k_load_u8_def k_load_u64_def Let_def intro!: reads_keeps reads_intros)
qed (auto simp: k_input_load_u8_def k_input_load_u64_def k_input_length_def k_input_offset_def
    k_output_length_def k_output_offset_def k_error_get_def k_memory_bytes_def
    intro!: init_reads_keeps reads_intros)

lemma k_setters_keep [kernel_intros]:
  "kernel_keeps (k_error_set p)" "kernel_keeps (k_input_set p n)" "kernel_keeps (k_output_set p n)"
  "kernel_keeps k_reset"
proof -
  show "kernel_keeps (k_error_set p)"
    by (rule kernel_keepsI, erule fresh_exports(6), drule k_error_set_ok, erule run_agrees_repr)
  show "kernel_keeps (k_input_set p n)"
    by (rule kernel_keepsI, erule fresh_exports(4), drule k_input_set_ok, erule run_agrees_repr)
  show "kernel_keeps (k_output_set p n)"
    by (rule kernel_keepsI, erule fresh_exports(5), drule k_output_set_ok, erule run_agrees_repr)
  show "kernel_keeps k_reset"
    by (rule kernel_keepsI, erule fresh_exports(7)) (drule k_reset_ok, auto)
qed

section \<open>The state of a plugin\<close>

definition small :: "'a list \<Rightarrow> bool" where
  "small xs \<longleftrightarrow> length xs < 4294967296"

lemma small_Nil [simp]: "small []" by (simp add: small_def)

text \<open>
  The largest store of variables: what the check of \<^verbatim>\<open>var_set\<close> admits, and one value that goes
  beyond it.
\<close>

definition vars_fine :: "(string, u8 list) btree \<Rightarrow> bool" where
  "vars_fine vs \<longleftrightarrow> btree_ok vs \<and> (\<forall>(k, v) \<in> set vs. small v) \<and>
     sum_list (map (\<lambda>(k, v). length v) vs) \<le> var_limit + 4294967296"

definition cp_fine :: "CurrentPlugin \<Rightarrow> bool" where
  "cp_fine cp \<longleftrightarrow> set kernel_exports \<subseteq> set (linked cp) \<and> mem_fine (kernel_memory cp) \<and> vars_fine (vars cp) \<and>
     (\<forall>(k, v) \<in> set (config (manifest cp)). small v) \<and>
     pred_option (\<lambda>l. bytes_left l \<le> max_bytes l) (memory_limiter cp)"

text \<open>What a guest has no means to change: what the plugin is allowed to do, and what it is linked to.\<close>

definition sandbox :: "CurrentPlugin \<Rightarrow> Manifest \<times> string list \<times> Wasi option \<times> u32 option \<times> nat option" where
  "sandbox cp = (manifest cp, linked cp, wasi cp, available_pages cp, map_option max_bytes (memory_limiter cp))"

text \<open>
  \<open>hkeeps I f Q\<close>: from a state with \<open>I\<close> the operation \<open>f\<close> leads to a state with \<open>I\<close> and the same sandbox,
  and what it returns has the property \<open>Q\<close>.
\<close>

definition hkeeps :: "(CurrentPlugin \<Rightarrow> bool) \<Rightarrow> 'a host \<Rightarrow> ('a \<Rightarrow> bool) \<Rightarrow> bool" where
  "hkeeps I f Q \<longleftrightarrow> (\<forall>cp r cp'. I cp \<longrightarrow> f cp = Some (r, cp') \<longrightarrow>
     I cp' \<and> sandbox cp' = sandbox cp \<and> (\<forall>x. r = Done x \<longrightarrow> Q x))"

abbreviation keeps :: "(CurrentPlugin \<Rightarrow> bool) \<Rightarrow> 'a host \<Rightarrow> bool" where
  "keeps I f \<equiv> hkeeps I f (\<lambda>x. True)"

lemma hkeepsI:
  assumes "\<And>cp r cp'. I cp \<Longrightarrow> f cp = Some (r, cp') \<Longrightarrow>
    I cp' \<and> sandbox cp' = sandbox cp \<and> (\<forall>x. r = Done x \<longrightarrow> Q x)"
  shows "hkeeps I f Q"
  using assms by (auto simp: hkeeps_def)

lemma hkeepsD:
  assumes "hkeeps I f Q" "I cp" "f cp = Some (r, cp')"
  shows "I cp'" "sandbox cp' = sandbox cp" "r = Done x \<Longrightarrow> Q x"
  using assms by (auto simp: hkeeps_def)

named_theorems keeps_intros "operations of the host that keep the state of a plugin well-formed"

lemma hkeeps_hret: "Q x \<Longrightarrow> hkeeps I (hret x) Q"
  by (simp add: hkeeps_def hret_def)

lemma keeps_hret [keeps_intros]: "keeps I (hret x)"
  by (simp add: hkeeps_hret)

lemma keeps_herr [keeps_intros]: "hkeeps I (herr e) Q"
  by (simp add: hkeeps_def herr_def)

lemma hkeeps_hbind:
  assumes f: "hkeeps I f R" and g: "\<And>x. R x \<Longrightarrow> hkeeps I (g x) Q"
  shows "hkeeps I (hbind f g) Q"
proof (rule hkeepsI)
  fix cp r cp'
  assume cp: "I cp" and run: "hbind f g cp = Some (r, cp')"
  then obtain q cp1 where q: "f cp = Some (q, cp1)"
    and rest: "case q of Done x \<Rightarrow> g x cp1 = Some (r, cp') | Err e \<Rightarrow> r = Err e \<and> cp' = cp1
      | Fault \<Rightarrow> r = Fault \<and> cp' = cp1"
    by (cases "f cp") (auto simp: hbind_def split: hres.splits)
  note F = hkeepsD [OF f cp q]
  show "I cp' \<and> sandbox cp' = sandbox cp \<and> (\<forall>x. r = Done x \<longrightarrow> Q x)"
  proof (cases q)
    case (Done x)
    with rest have run2: "g x cp1 = Some (r, cp')" by simp
    from hkeepsD [OF g [OF F(3) [OF Done]] F(1) run2] F(2) show ?thesis by simp
  qed (use rest F in auto)
qed

lemma keeps_hbind [keeps_intros]: "keeps I f \<Longrightarrow> (\<And>x. hkeeps I (g x) Q) \<Longrightarrow> hkeeps I (hbind f g) Q"
  by (rule hkeeps_hbind)

lemma keeps_hcatch [keeps_intros]: "keeps I f \<Longrightarrow> keeps I (hcatch f d)"
proof (rule hkeepsI)
  fix cp r cp'
  assume f: "keeps I f" and cp: "I cp" and run: "hcatch f d cp = Some (r, cp')"
  then obtain q where "f cp = Some (q, cp')"
    by (cases "f cp") (auto simp: hcatch_def split: hres.splits)
  with hkeepsD [OF f cp] show "I cp' \<and> sandbox cp' = sandbox cp \<and> (\<forall>x. r = Done x \<longrightarrow> True)" by blast
qed

text \<open>An operation after which only a weaker property holds.\<close>

definition hleads :: "(CurrentPlugin \<Rightarrow> bool) \<Rightarrow> (CurrentPlugin \<Rightarrow> bool) \<Rightarrow> 'a host \<Rightarrow> bool" where
  "hleads I J f \<longleftrightarrow> (\<forall>cp r cp'. I cp \<longrightarrow> f cp = Some (r, cp') \<longrightarrow> J cp' \<and> sandbox cp' = sandbox cp)"

lemma hleads_hbind:
  assumes f: "hkeeps I f R" and weak: "\<And>cp. I cp \<Longrightarrow> J cp" and g: "\<And>x. R x \<Longrightarrow> hleads I J (g x)"
  shows "hleads I J (hbind f g)"
  unfolding hleads_def
proof (intro allI impI)
  fix cp r cp'
  assume cp: "I cp" and run: "hbind f g cp = Some (r, cp')"
  then obtain q c where q: "f cp = Some (q, c)" by (cases "f cp") (auto simp: hbind_def)
  note F = hkeepsD [OF f cp q]
  show "J cp' \<and> sandbox cp' = sandbox cp"
  proof (cases q)
    case (Done x)
    with run q have "g x c = Some (r, cp')" by (simp add: hbind_def)
    with g [OF F(3) [OF Done]] F(1,2) show ?thesis unfolding hleads_def by metis
  qed (use run q F weak in \<open>auto simp: hbind_def\<close>)
qed

lemma hleads_herr: "(\<And>cp. I cp \<Longrightarrow> J cp) \<Longrightarrow> hleads I J (herr e)"
  by (simp add: hleads_def herr_def)

text \<open>An operation that looks at the state before it goes on.\<close>

lemma keeps_state: "(\<And>c. I c \<Longrightarrow> hkeeps I (f c) Q) \<Longrightarrow> hkeeps I (\<lambda>cp. f cp cp) Q"
  unfolding hkeeps_def by blast

section \<open>Calls of the kernel\<close>

text \<open>A call of the kernel leaves everything but its memory and the budget for growth.\<close>

lemma charge_fine:
  assumes "pred_option (\<lambda>l. bytes_left l \<le> max_bytes l) lim"
  shows "pred_option (\<lambda>l. bytes_left l \<le> max_bytes l) (charge a b lim)"
    "map_option max_bytes (charge a b lim) = map_option max_bytes lim"
  using assms by (cases lim; auto simp: charge_def memory_growing_def Let_def)+

lemma cp_fine_memory:
  assumes "cp_fine cp" "mem_fine m"
  shows "cp_fine (cp\<lparr>kernel_memory := m, memory_limiter := charge a b (memory_limiter cp)\<rparr>)"
    "sandbox (cp\<lparr>kernel_memory := m, memory_limiter := charge a b (memory_limiter cp)\<rparr>) = sandbox cp"
  using assms charge_fine [of "memory_limiter cp" a b] by (simp_all add: cp_fine_def sandbox_def)

lemma kernel_fn_shape:
  assumes "kernel_fn n e f cp = Some (r, cp')"
  obtains "cp' = cp" "\<forall>x. r \<noteq> Done x"
    | x m where "f ((kernel_memory cp)\<lparr>growth := growth_verdict cp\<rparr>) = Some (Ret (x, m))" "r = Done x"
        "cp' = cp\<lparr>kernel_memory := m, memory_limiter := charge (pages (kernel_memory cp)) (pages m) (memory_limiter cp)\<rparr>"
proof (cases "n \<in> set (linked cp)")
  case False
  with assms that(1) show ?thesis by (auto simp: kernel_fn_def)
next
  case True
  show ?thesis
  proof (cases "f ((kernel_memory cp)\<lparr>growth := growth_verdict cp\<rparr>)")
    case None
    with True assms show ?thesis by (simp add: kernel_fn_def)
  next
    case (Some q)
    show ?thesis
    proof (cases q)
      case (Ret xm)
      with True assms Some that(2) show ?thesis by (cases xm) (auto simp: kernel_fn_def)
    next
      case Trap
      with True assms Some that(1) show ?thesis by (auto simp: kernel_fn_def)
    qed
  qed
qed

text \<open>A handle as the runtime makes it: of an address that is not null, or of no bytes.\<close>

definition handle_ok :: "MemoryHandle \<Rightarrow> bool" where
  "handle_ok h \<longleftrightarrow> handle_offset h = 0 \<longrightarrow> handle_length h = 0"

text \<open>
  A new block and its contents.  On a fresh memory the allocation initialises the heap, and the rest
  is as on an initialised one.
\<close>

lemma memory_new_shape:
  assumes "memory_new (Inr data) cp = Some (r, cp')" "data \<noteq> []"
  obtains "cp' = cp" "\<forall>x. r \<noteq> Done x"
    | offs m m' where "kernel_fn ''alloc'' (Kernel_missing ''alloc'') (k_alloc (word_of_nat (length data))) cp =
        Some (Done offs, cp\<lparr>kernel_memory := m, memory_limiter := charge (pages (kernel_memory cp)) (pages m) (memory_limiter cp)\<rparr>)"
        "cp' = cp\<lparr>kernel_memory := m', memory_limiter := charge (pages (kernel_memory cp)) (pages m) (memory_limiter cp)\<rparr>"
proof (cases "(word_of_nat (length data) :: u64) = 0")
  case True
  show ?thesis
  proof (cases "memory_bytes_mut_copy \<lparr>handle_offset = 0, handle_length = 0\<rparr> data cp")
    case None
    with assms True show ?thesis by (simp add: memory_new_def memory_alloc_def hbind_def hret_def)
  next
    case (Some q)
    with assms True have "cp' = cp \<and> (\<forall>x. r \<noteq> Done x)"
      by (auto simp: memory_new_def memory_alloc_def hbind_def hret_def memory_bytes_mut_copy_def handle_len_def
          split: if_splits)
    with that(1) show ?thesis by blast
  qed
next
  case False
  let ?f = "kernel_fn ''alloc'' (Kernel_missing ''alloc'') (k_alloc (word_of_nat (length data)))"
  obtain q c1 where q: "?f cp = Some (q, c1)"
    using assms False by (cases "?f cp") (auto simp: memory_new_def memory_alloc_def hbind_def)
  from q show ?thesis
  proof (cases rule: kernel_fn_shape)
    case 1
    with assms False q that(1) show ?thesis
      by (cases q) (auto simp: memory_new_def memory_alloc_def hbind_def)
  next
    case (2 x m)
    obtain m' where m': "cp' = c1\<lparr>kernel_memory := m'\<rparr>"
      using assms False q 2(2) by (auto simp: memory_new_def memory_alloc_def hbind_def hret_def herr_def
          memory_bytes_mut_copy_def split: if_splits intro: that [of "kernel_memory c1"])
    have "cp' = cp\<lparr>kernel_memory := m', memory_limiter := charge (pages (kernel_memory cp)) (pages m) (memory_limiter cp)\<rparr>"
      unfolding m' 2(3) by (rule CurrentPlugin.equality) simp_all
    with q that(2) show ?thesis unfolding 2(2,3) by blast
  qed
qed

lemma memory_new_repr:
  assumes ok: "cp_ok cp h" and data: "data \<noteq> []" "small data" and run: "memory_new (Inr data) cp = Some (r, cp')"
  shows "mem_fine (kernel_memory cp')"
  using memory_new_run [OF ok data(1)] data(2) run
  by (auto simp: small_def stored_def cp_ok_def mem_fine_def)

section \<open>Invariants and the operations that keep them\<close>

text \<open>
  An invariant of a plugin's state that implies the well-formed one and does not depend on the contents
  of the kernel's memory: every operation below keeps it.
\<close>

locale host_invariant =
  fixes I :: "CurrentPlugin \<Rightarrow> bool"
  assumes fine: "I cp \<Longrightarrow> cp_fine cp"
    and memory: "I cp \<Longrightarrow> mem_fine m \<Longrightarrow>
      I (cp\<lparr>kernel_memory := m, memory_limiter := charge a b (memory_limiter cp)\<rparr>)"
begin

lemma kernel_fn_keeps:
  assumes "kernel_keeps f"
  shows "keeps I (kernel_fn n e f)"
proof (rule hkeepsI)
  fix cp r cp'
  assume cp: "I cp" and run: "kernel_fn n e f cp = Some (r, cp')"
  have fm: "mem_fine ((kernel_memory cp)\<lparr>growth := growth_verdict cp\<rparr>)" using fine [OF cp] by (simp add: cp_fine_def)
  from run show "I cp' \<and> sandbox cp' = sandbox cp \<and> (\<forall>x. r = Done x \<longrightarrow> True)"
  proof (cases rule: kernel_fn_shape)
    case 1
    with cp show ?thesis by simp
  next
    case (2 x m)
    have "mem_fine m" using assms fm 2(1) unfolding kernel_keeps_def by blast
    from memory [OF cp this] cp_fine_memory(2) [OF fine [OF cp] this] show ?thesis unfolding 2(3) by blast
  qed
qed

lemma kernel_calls_keep [keeps_intros]:
  "keeps I (memory_length offs)" "keeps I (memory_length_unsafe offs)" "keeps I plugin_clear_error"
  by (auto simp: memory_length_def memory_length_unsafe_def plugin_clear_error_def
      intro!: kernel_fn_keeps kernel_intros)

lemma plugin_reset_keeps [keeps_intros]: "keeps I plugin_reset"
proof (rule hkeepsI)
  fix cp r cp'
  assume cp: "I cp" and run: "plugin_reset cp = Some (r, cp')"
  have "keeps I (kernel_fn ''reset'' (Kernel_missing ''reset'') k_reset)"
    by (intro kernel_fn_keeps kernel_intros)
  with cp run show "I cp' \<and> sandbox cp' = sandbox cp \<and> (\<forall>x. r = Done x \<longrightarrow> True)"
    by (auto simp: plugin_reset_def hkeeps_def split: if_splits)
qed

lemma call_input_set_keeps [keeps_intros]: "keeps I (call_input_set h n)"
proof (rule hkeepsI)
  fix cp r cp'
  assume cp: "I cp" and run: "call_input_set h n cp = Some (r, cp')"
  have "keeps I (kernel_fn ''input_set'' (Kernel_missing ''input_set'')
      (k_input_set (handle_offset h) (word_of_nat n)))"
    by (intro kernel_fn_keeps kernel_intros)
  with cp run show "I cp' \<and> sandbox cp' = sandbox cp \<and> (\<forall>x. r = Done x \<longrightarrow> True)"
    by (auto simp: call_input_set_def hkeeps_def split: if_splits)
qed

lemma output_memory_position_keeps [keeps_intros]: "keeps I output_memory_position"
  unfolding output_memory_position_def by (intro keeps_intros kernel_fn_keeps kernel_intros)

text \<open>What is read lies within the memory, so it is shorter than 4 GiB unless it starts at 0.\<close>

lemma memory_bytes_keeps: "handle_ok hdl \<Longrightarrow> hkeeps I (memory_bytes hdl) small"
proof (rule hkeepsI)
  fix cp r cp'
  assume ok: "handle_ok hdl" and cp: "I cp" and run: "memory_bytes hdl cp = Some (r, cp')"
  have "mem_size (kernel_memory cp) \<le> 4294967296" using fine [OF cp] mem_fine_size by (simp add: cp_fine_def)
  moreover have "handle_offset hdl \<noteq> 0 \<Longrightarrow> 0 < unat (handle_offset hdl)" by (simp add: unat_gt_0)
  ultimately have "handle_in_memory hdl cp \<Longrightarrow> handle_len hdl < 4294967296"
    using ok by (cases "handle_offset hdl = 0") (auto simp: handle_in_memory_def handle_ok_def handle_len_def)
  with cp run show "I cp' \<and> sandbox cp' = sandbox cp \<and> (\<forall>x. r = Done x \<longrightarrow> small x)"
    by (auto simp: memory_bytes_def small_def split: if_splits)
qed

lemma memory_str_keeps: "handle_ok hdl \<Longrightarrow> hkeeps I (memory_str hdl) small"
  unfolding memory_str_def
  by (rule hkeeps_hbind [OF memory_bytes_keeps]) (auto intro: hkeeps_hret keeps_herr)

lemma handle_or_keeps: "hkeeps I (handle_or offs) (\<lambda>h. handle_ok h \<and> handle_offset h = offs)"
proof -
  let ?Q = "\<lambda>r. case r of None \<Rightarrow> True | Some h \<Rightarrow> handle_ok h \<and> handle_offset h = offs"
  have "hkeeps I (memory_handle offs) ?Q"
    unfolding memory_handle_def
    by (auto simp: handle_ok_def handle_null_def intro!: hkeeps_hret keeps_hbind keeps_hcatch kernel_calls_keep)
  then show ?thesis
    unfolding handle_or_def by (rule hkeeps_hbind) (auto intro: hkeeps_hret keeps_herr split: option.splits)
qed

lemma memory_handle_keeps: "hkeeps I (memory_handle offs) (\<lambda>r. \<forall>h. r = Some h \<longrightarrow> handle_ok h)"
  unfolding memory_handle_def
  by (auto simp: handle_ok_def handle_null_def intro!: hkeeps_hret keeps_hbind keeps_hcatch kernel_calls_keep)

lemma memory_new_keeps [keeps_intros]:
  assumes data: "small data"
  shows "keeps I (memory_new (Inr data))"
proof (rule hkeepsI)
  fix cp r cp'
  assume cp: "I cp" and run: "memory_new (Inr data) cp = Some (r, cp')"
  show "I cp' \<and> sandbox cp' = sandbox cp \<and> (\<forall>x. r = Done x \<longrightarrow> True)"
  proof (cases "data = []")
    case True
    with cp run show ?thesis by (simp add: memory_new_def hret_def)
  next
    case False
    from run False show ?thesis
    proof (cases rule: memory_new_shape)
      case 1
      with cp show ?thesis by simp
    next
      case (2 offs m m')
      have "mem_fine (kernel_memory cp')"
      proof (cases "fresh (kernel_memory cp)")
        case True
        with fine [OF cp] have fresh: "cp_fresh cp" by (simp add: cp_fine_def cp_fresh_def)
        let ?f = "k_alloc (word_of_nat (length data)) :: u64 wasm"
        let ?m = "(kernel_memory cp)\<lparr>growth := growth_verdict cp\<rparr>"
        have "?f ?m = ?f (initialised ?m)"
          using fresh_exports(1) [of ?m "length data"] True False data by (simp add: small_def)
        moreover have "initialised ?m = (kernel_memory (warmed cp))\<lparr>growth := growth_verdict (warmed cp)\<rparr>"
          using initialised_growth(1) [OF True] warmed_ok(2) [OF fresh] by (simp add: warmed_def)
        moreover have "pages (kernel_memory (warmed cp)) = pages (kernel_memory cp)" "linked (warmed cp) = linked cp"
          "memory_limiter (warmed cp) = memory_limiter cp"
          using initialised_growth(2) [OF True] by (simp_all add: warmed_def)
        ultimately have "kernel_fn ''alloc'' (Kernel_missing ''alloc'') ?f (warmed cp) =
            kernel_fn ''alloc'' (Kernel_missing ''alloc'') ?f cp"
          using 2(1) by (auto simp: kernel_fn_def warmed_def split: if_splits option.splits outcome.splits)
        moreover have "(word_of_nat (length data) :: u64) \<noteq> 0"
          using False data nat64_eq [of "length data" 0] by (simp add: small_def)
        ultimately have "memory_new (Inr data) (warmed cp) = memory_new (Inr data) cp"
          using 2(1) False by (auto simp: memory_new_def memory_alloc_def hbind_def hret_def)
        with memory_new_repr [OF warmed_ok(1) [OF fresh] False data] run show ?thesis by simp
      next
        case False
        with fine [OF cp] obtain h where "cp_ok cp h" by (auto simp: cp_fine_def mem_fine_def cp_ok_def)
        from memory_new_repr [OF this \<open>data \<noteq> []\<close> data run] show ?thesis .
      qed
      then have "mem_fine m'" by (simp add: 2(2))
      from memory [OF cp this] cp_fine_memory(2) [OF fine [OF cp] this] show ?thesis unfolding 2(2) by blast
    qed
  qed
qed

lemma set_error_msg_keeps [keeps_intros]: "small s \<Longrightarrow> keeps I (set_error_msg s)"
  unfolding set_error_msg_def string_to_bytes_def
  by (intro keeps_intros kernel_fn_keeps kernel_intros)

lemma get_error_position_keeps [keeps_intros]: "keeps I get_error_position"
proof (rule hkeepsI)
  fix cp r cp'
  assume cp: "I cp" and run: "get_error_position cp = Some (r, cp')"
  let ?g = "kernel_fn ''error_get'' (Kernel_missing ''error_get'') k_error_get"
  let ?len = "\<lambda>offs :: u64. hbind (hcatch (memory_length offs) 0) (\<lambda>l. hret (offs, l))"
  have g: "keeps I ?g" by (intro kernel_fn_keeps kernel_intros)
  have len: "keeps I (?len offs)" for offs by (intro keeps_intros)
  show "I cp' \<and> sandbox cp' = sandbox cp \<and> (\<forall>x. r = Done x \<longrightarrow> True)"
  proof (cases "?g cp")
    case None
    with run cp len [of 0] show ?thesis by (auto simp: get_error_position_def hkeeps_def split: if_splits)
  next
    case (Some q)
    obtain x c where q: "q = (x, c)" by force
    from run consider "?len 0 cp = Some (r, cp')" | offs where "x = Done offs" "?len offs c = Some (r, cp')" | "cp' = c"
      using Some q by (auto simp: get_error_position_def split: if_splits hres.splits)
    then show ?thesis
    proof cases
      case 1
      from hkeepsD [OF len cp 1] show ?thesis by blast
    next
      case (2 offs)
      have G: "I c" "sandbox c = sandbox cp" using hkeepsD(1,2) [OF g cp] Some q by blast+
      from hkeepsD(1,2) [OF len G(1) 2(2)] G(2) show ?thesis by simp
    next
      case 3
      with hkeepsD(1,2) [OF g cp] Some q show ?thesis by blast
    qed
  qed
qed

lemma keeps_arg [keeps_intros]: "keeps I (arg_i64 input i)"
  by (auto simp: arg_i64_def intro!: keeps_intros split: option.splits)

text \<open>Reading the string or the bytes behind an argument.\<close>

lemma keeps_key:
  assumes "\<And>key. small key \<Longrightarrow> hkeeps I (f key) Q"
  shows "hkeeps I (hbind (handle_or offs) (\<lambda>h. hbind (memory_str h) f)) Q"
  by (rule hkeeps_hbind [OF handle_or_keeps], rule hkeeps_hbind [OF memory_str_keeps]) (use assms in auto)

lemma keeps_bytes:
  assumes "\<And>d. small d \<Longrightarrow> hkeeps I (f d) Q"
  shows "hkeeps I (hbind (handle_or offs) (\<lambda>h. hbind (memory_bytes h) f)) Q"
  by (rule hkeeps_hbind [OF handle_or_keeps], rule hkeeps_hbind [OF memory_bytes_keeps]) (use assms in auto)

lemma leads_key:
  assumes "\<And>cp. I cp \<Longrightarrow> J cp" "\<And>key. small key \<Longrightarrow> hleads I J (f key)"
  shows "hleads I J (hbind (handle_or offs) (\<lambda>h. hbind (memory_str h) f))"
  by (rule hleads_hbind [OF handle_or_keeps assms(1)], assumption,
      rule hleads_hbind [OF memory_str_keeps assms(1)]) (use assms(2) in auto)

lemma leads_bytes:
  assumes "\<And>cp. I cp \<Longrightarrow> J cp" "\<And>d. small d \<Longrightarrow> hleads I J (f d)"
  shows "hleads I J (hbind (handle_or offs) (\<lambda>h. hbind (memory_bytes h) f))"
  by (rule hleads_hbind [OF handle_or_keeps assms(1)], assumption,
      rule hleads_hbind [OF memory_bytes_keeps assms(1)]) (use assms(2) in auto)

text \<open>A value of the host, returned through the memory.\<close>

lemma keeps_lookup:
  assumes "\<And>c v. cp_fine c \<Longrightarrow> get c = Some v \<Longrightarrow> small (enc v)"
  shows "keeps I (\<lambda>cp. case get cp of Some v \<Rightarrow> hbind (memory_new (Inr (enc v))) (\<lambda>mem. hret [I64 (handle_offset mem)]) cp
    | None \<Rightarrow> hret [I64 0] cp)"
proof (rule hkeepsI)
  fix cp r cp'
  assume cp: "I cp" and run: "(case get cp of Some v \<Rightarrow> hbind (memory_new (Inr (enc v))) (\<lambda>mem. hret [I64 (handle_offset mem)]) cp
    | None \<Rightarrow> hret [I64 0] cp) = Some (r, cp')"
  show "I cp' \<and> sandbox cp' = sandbox cp \<and> (\<forall>x. r = Done x \<longrightarrow> True)"
  proof (cases "get cp")
    case None
    with cp run show ?thesis by (simp add: hret_def)
  next
    case (Some v)
    have k: "keeps I (hbind (memory_new (Inr (enc v))) (\<lambda>mem. hret [I64 (handle_offset mem)]))"
      using assms [OF fine [OF cp] Some] by (intro keeps_intros)
    from run Some have "hbind (memory_new (Inr (enc v))) (\<lambda>mem. hret [I64 (handle_offset mem)]) cp = Some (r, cp')" by simp
    from hkeepsD [OF k cp this] show ?thesis by blast
  qed
qed

end

interpretation wf: host_invariant cp_fine
  by unfold_locales (simp_all add: cp_fine_memory)

interpretation vars_kept: host_invariant "\<lambda>cp. cp_fine cp \<and> vars cp = vs" for vs
  by unfold_locales (simp_all add: cp_fine_memory)

section \<open>The functions a guest may import\<close>

lemma small_bytes_of [simp]: "small (bytes_of s) = small s"
  by (simp add: small_def bytes_of_def)

lemma config_small: "cp_fine c \<Longrightarrow> btree_get (config (manifest c)) k = Some v \<Longrightarrow> small (bytes_of v)"
  using btree_get_mem [of "config (manifest c)" k v] by (auto simp: cp_fine_def)

lemma vars_small: "cp_fine c \<Longrightarrow> btree_get (vars c) k = Some v \<Longrightarrow> small v"
  using btree_get_mem [of "vars c" k v] by (auto simp: cp_fine_def vars_fine_def)

lemma config_get_keeps: "keeps cp_fine (config_get input)"
  unfolding config_get_def
  by (intro keeps_hbind wf.keeps_arg wf.keeps_key wf.keeps_lookup) (rule config_small)

lemma var_get_keeps: "keeps cp_fine (var_get input)"
  unfolding var_get_def
  by (intro keeps_hbind wf.keeps_arg wf.keeps_key wf.keeps_lookup [where enc = "\<lambda>v. v"]) (rule vars_small)

lemma set_btree_insert_le: "set (btree_insert k v m) \<subseteq> insert (k, v) (set m)"
  by (induction m) (auto split: if_splits)

lemma set_btree_remove_le: "set (btree_remove k m) \<subseteq> set m"
  by (induction m) (auto split: if_splits)

lemma vars_fine_remove: "vars_fine vs \<Longrightarrow> vars_fine (btree_remove k vs)"
  using vars_size_remove [of k vs] set_btree_remove_le [of k vs]
  by (fastforce simp: vars_fine_def btree_remove_ok)

lemma vars_fine_insert:
  "vars_fine vs \<Longrightarrow> small v \<Longrightarrow> sum_list (map (\<lambda>(k, v). length v) vs) \<le> var_limit \<Longrightarrow> vars_fine (btree_insert k v vs)"
  using vars_size_insert [of k v vs] set_btree_insert_le [of k v vs]
  by (fastforce simp: vars_fine_def btree_insert_ok small_def)

lemma put_vars_leads:
  assumes "\<And>c. I c \<Longrightarrow> cp_fine c \<and> vars_fine (f (vars c))"
  shows "hleads I cp_fine (\<lambda>c. put_vars (f (vars c)) c)"
  using assms by (auto simp: hleads_def put_vars_def cp_fine_def sandbox_def)

text \<open>The check of the size looks at the store before the call, and nothing before the insertion changes it.\<close>

lemma var_set_keeps: "keeps cp_fine (var_set input)"
proof (rule hkeepsI)
  fix cp r cp'
  assume cp: "cp_fine cp" and run: "var_set input cp = Some (r, cp')"
  let ?I = "\<lambda>c. cp_fine c \<and> vars c = vars cp"
  have vf: "vars_fine (vars cp)" using cp by (simp add: cp_fine_def)
  have put: "hleads ?I cp_fine (\<lambda>c. put_vars (btree_insert (str_of key) v (vars c)) c)"
    if "small v" "vars_size cp \<le> var_limit" for key v
    using vars_fine_insert [OF vf that(1)] that(2) by (intro put_vars_leads) (simp add: vars_size_def)
  have rm: "hleads ?I cp_fine (\<lambda>c. put_vars (btree_remove (str_of key) (vars c)) c)" for key
    using vars_fine_remove [OF vf] by (intro put_vars_leads) simp
  have set_key: "hleads ?I cp_fine (hbind (handle_or koffs) (\<lambda>khandle. hbind (memory_str khandle) (\<lambda>key.
      if voffset = 0 then (\<lambda>cp. put_vars (btree_remove (str_of key) (vars cp)) cp)
      else hbind (handle_or voffset) (\<lambda>handle. hbind (memory_bytes handle) (\<lambda>v cp.
             put_vars (btree_insert (str_of key) v (vars cp)) cp)))))"
    if "voffset = 0 \<or> vars_size cp \<le> var_limit" for koffs voffset
  proof (rule vars_kept.leads_key)
    fix key :: "u8 list"
    show "hleads ?I cp_fine (if voffset = 0 then (\<lambda>cp. put_vars (btree_remove (str_of key) (vars cp)) cp)
      else hbind (handle_or voffset) (\<lambda>handle. hbind (memory_bytes handle) (\<lambda>v cp.
             put_vars (btree_insert (str_of key) v (vars cp)) cp)))"
    proof (cases "voffset = 0")
      case True
      with rm show ?thesis by simp
    next
      case False
      then have "vars_size cp \<le> var_limit" using that by simp
      with put have "hleads ?I cp_fine (hbind (handle_or voffset) (\<lambda>handle. hbind (memory_bytes handle) (\<lambda>v cp.
             put_vars (btree_insert (str_of key) v (vars cp)) cp)))"
        by (intro vars_kept.leads_bytes) simp_all
      with False show ?thesis by simp
    qed
  qed simp
  have "hleads ?I cp_fine (\<lambda>c. hbind (arg_i64 input 1) (\<lambda>voffset.
      if var_limit < vars_size cp \<and> voffset \<noteq> 0 then herr (Message ''Variable store is full'')
      else hbind (arg_i64 input 0) (\<lambda>key_offs. hbind (handle_or key_offs) (\<lambda>khandle. hbind (memory_str khandle) (\<lambda>key.
        if voffset = 0 then (\<lambda>cp. put_vars (btree_remove (str_of key) (vars cp)) cp)
        else hbind (handle_or voffset) (\<lambda>handle. hbind (memory_bytes handle) (\<lambda>v cp.
               put_vars (btree_insert (str_of key) v (vars cp)) cp)))))) c)"
    (is "hleads ?I cp_fine (\<lambda>c. hbind (arg_i64 input 1) ?f c)")
  proof (rule hleads_hbind [OF vars_kept.keeps_arg])
    fix voffset
    show "hleads ?I cp_fine (?f voffset)"
    proof (cases "var_limit < vars_size cp \<and> voffset \<noteq> 0")
      case True
      then show ?thesis by (auto intro: hleads_herr)
    next
      case False
      then have "voffset = 0 \<or> vars_size cp \<le> var_limit" by auto
      then show ?thesis
        unfolding if_not_P [OF False] by (intro hleads_hbind [OF vars_kept.keeps_arg] set_key) simp_all
    qed
  qed simp
  with cp run show "cp_fine cp' \<and> sandbox cp' = sandbox cp \<and> (\<forall>x. r = Done x \<longrightarrow> True)"
    unfolding hleads_def var_set_def Let_def by blast
qed

lemma set_status_code_keeps: "keeps cp_fine (set_status_code st)"
  by (auto simp: hkeeps_def set_status_code_def cp_fine_def sandbox_def)

lemma small_body: "small (take max_body b)"
  by (simp add: small_def max_body_def)

lemma finish_request_keeps: "keeps cp_fine (finish_request res)"
  by (cases res) (auto simp: finish_request_def return_body_def small_body
      intro!: keeps_intros set_status_code_keeps split: option.split)

lemma keeps_if: "hkeeps I f Q \<Longrightarrow> hkeeps I g Q \<Longrightarrow> hkeeps I (if b then f else g) Q"
  by simp

lemma keeps_if_state: "hkeeps I f Q \<Longrightarrow> hkeeps I g Q \<Longrightarrow> hkeeps I (\<lambda>cp. if b cp then f cp else g cp) Q"
  by (rule hkeepsI) (auto dest: hkeepsD split: if_splits)

text \<open>The body of a request is sent from the bytes of the plugin, the answer comes back through its memory.\<close>

lemma http_send_keeps:
  "keeps cp_fine (\<lambda>cp. if \<not> host_matches E (allowed_hosts (manifest cp)) host
     then herr (Message ''HTTP request is not allowed'') cp
     else if 0 < (body_offset :: u64)
     then hbind (handle_or body_offset) (\<lambda>bh. hbind (memory_bytes bh) (\<lambda>buf. finish_request (send (Some buf)))) cp
     else finish_request (send None) cp)"
proof -
  have a: "keeps cp_fine (hbind (handle_or body_offset) (\<lambda>bh. hbind (memory_bytes bh) (\<lambda>buf. finish_request (send (Some buf)))))"
    by (intro wf.keeps_bytes finish_request_keeps)
  show ?thesis by (intro keeps_if_state a keeps_herr finish_request_keeps)
qed

lemma http_request_keeps: "keeps cp_fine (http_request E input)"
  unfolding http_request_def parse_request_def Let_def
  by (intro keeps_hbind wf.keeps_arg wf.keeps_bytes keeps_if keeps_herr)
    (auto intro!: keeps_intros http_send_keeps split: option.split)

lemma http_status_code_keeps: "keeps cp_fine http_status_code"
  by (simp add: hkeeps_def http_status_code_def)

lemma log_message_keeps: "keeps cp_fine (log_message level input)"
  unfolding log_message_def
  by (rule keeps_hbind [OF wf.keeps_arg], rule hkeeps_hbind [OF wf.handle_or_keeps], rule keeps_hcatch,
      rule hkeeps_hbind [OF wf.memory_str_keeps]) (auto intro: keeps_hret)

lemmas pdk_keeps = config_get_keeps var_get_keeps var_set_keeps http_request_keeps http_status_code_keeps
  log_message_keeps

section \<open>The functions of the embedder\<close>

lemma memory_get_val_keeps: "keeps cp_fine (memory_get_val dec v)"
proof -
  have *: "keeps cp_fine (hbind (memory_bytes h) (\<lambda>d. decoded (dec d)))" if "handle_ok h" for h
    by (rule hkeeps_hbind [OF wf.memory_bytes_keeps [OF that]])
      (auto simp: decoded_def intro!: keeps_intros split: sum.split)
  show ?thesis
    unfolding memory_get_val_def Let_def
    by (rule hkeeps_hbind [OF wf.memory_handle_keeps]) (auto intro!: * keeps_herr split: option.split)
qed

lemma host_args_keeps: "keeps cp_fine (host_args decs i inputs)"
  by (induction decs i inputs rule: host_args.induct) (auto intro!: keeps_intros memory_get_val_keeps)

lemma memory_new_encoded:
  "(\<And>d. encoded = Inr d \<Longrightarrow> small d) \<Longrightarrow> keeps cp_fine (memory_new encoded)"
  by (cases encoded) (auto simp: memory_new_def [of "Inl e" for e] intro!: keeps_intros)

lemma host_fn_keeps:
  assumes "\<And>y d. enc y = Inr d \<Longrightarrow> small d"
  shows "keeps cp_fine (host_fn decs body enc inputs outputs)"
  unfolding host_fn_def
  by (intro keeps_hbind host_args_keeps)
    (auto intro!: keeps_intros memory_new_encoded dest: assms split: sum.split)

lemma memory_alloc_keeps: "unat n < 4294967296 \<Longrightarrow> keeps cp_fine (memory_alloc n)"
  by (auto simp: memory_alloc_def intro!: keeps_intros wf.kernel_fn_keeps kernel_intros)

text \<open>
  Freeing a handle the runtime has looked up.  It needs a memory of less than 65536 pages: beyond,
  the search may take something else for a block.
\<close>

lemma memory_free_keeps:
  assumes "cp_fine cp" "pages (kernel_memory cp) < 65536" "memory_free hdl cp = Some (r, cp')"
  shows "cp_fine cp' \<and> sandbox cp' = sandbox cp"
proof -
  have free: "mem_fine m'" if m: "mem_fine m" "pages m < 65536" "k_free p m = Some (Ret (x, m'))" for m p x m'
  proof -
    have repr: "\<exists>h'. heap_repr m' h'" if "heap_repr m h" "pages m < 65536" "k_free p m = Some (Ret (x, m'))" for m h
      using k_free_total [OF that(1,2), of "unat p"] that(3) unat_u64_less [of p]
      by (auto simp: run_agrees_def)
    show ?thesis
    proof (cases "fresh m")
      case True
      show ?thesis
      proof (cases "p = 0")
        case True
        with m show ?thesis by (simp add: k_free_def wasm_simps)
      next
        case False
        with m True fresh_exports(2) [of m p] initialised_fresh(2) [of m] initialised_growth(2) [of m]
          repr [of "initialised m" "heap_init (pages m)"] show ?thesis by (auto simp: mem_fine_def)
      qed
    next
      case False
      with m repr show ?thesis by (auto simp: mem_fine_def)
    qed
  qed
  from assms(3) [unfolded memory_free_def] show ?thesis
  proof (cases rule: kernel_fn_shape)
    case 1
    with assms(1) show ?thesis by simp
  next
    case (2 x m)
    have "mem_fine ((kernel_memory cp)\<lparr>growth := growth_verdict cp\<rparr>)" using assms(1) by (simp add: cp_fine_def)
    with free [of "(kernel_memory cp)\<lparr>growth := growth_verdict cp\<rparr>"] 2(1) assms(2) have "mem_fine m" by simp
    from cp_fine_memory [OF assms(1) this] show ?thesis unfolding 2(3) by blast
  qed
qed

end
