(* ===== verification/Lifecycle.thy ===== *)
theory Lifecycle
  imports Host_Keeps Otoroshi_Api
begin

text \<open>
  The life of a plugin, from its construction on: the operations of the Rust and the C interface as
  one transition relation, and what no sequence of them destroys.  A guest is arbitrary code that
  reaches the state of the plugin only through its imports, which is what the sandbox of wasm
  guarantees; it frees and writes to blocks it has been given.
\<close>

section \<open>What a guest does\<close>

text \<open>The exports of the kernel that return something and change nothing.\<close>

datatype kread =
    Load_u8 u64
  | Load_u64 u64
  | Input_load_u8 u64
  | Input_load_u64 u64
  | Length_unsafe u64
  | Input_length
  | Input_offset
  | Output_length
  | Output_offset
  | Error_get
  | Memory_bytes

fun kernel_read :: "kread \<Rightarrow> u64 wasm" where
  "kernel_read (Load_u8 p) = wbind (k_load_u8 p) (\<lambda>x. wret (ucast x))"
| "kernel_read (Load_u64 p) = k_load_u64 p"
| "kernel_read (Input_load_u8 p) = wbind (k_input_load_u8 p) (\<lambda>x. wret (ucast x))"
| "kernel_read (Input_load_u64 p) = k_input_load_u64 p"
| "kernel_read (Length_unsafe p) = k_length_unsafe p"
| "kernel_read Input_length = k_input_length"
| "kernel_read Input_offset = k_input_offset"
| "kernel_read Output_length = k_output_length"
| "kernel_read Output_offset = k_output_offset"
| "kernel_read Error_get = k_error_get"
| "kernel_read Memory_bytes = k_memory_bytes"

text \<open>The heap of a kernel memory, initialised or not.\<close>

definition heap_of :: "wasm_mem \<Rightarrow> heap \<Rightarrow> bool" where
  "heap_of m h \<longleftrightarrow> heap_repr m h \<or> fresh m \<and> h = heap_init (pages m)"

text \<open>A function of the embedder that works on the plugin through its operations.\<close>

definition host_contract :: "host_body \<Rightarrow> bool" where
  "host_contract body \<longleftrightarrow> (\<forall>inputs outputs. keeps cp_fine (body inputs outputs))"

text \<open>
  One step of a guest: a call of the kernel, of one of the functions of \<^verbatim>\<open>pdk.rs\<close>, of a function of
  the embedder, or a growth of its own memory, which the limiter of the plugin counts too.
\<close>

inductive guest_step :: "http_env \<Rightarrow> CurrentPlugin \<Rightarrow> CurrentPlugin \<Rightarrow> bool" for H :: http_env where
  guest_kernel: "heap_of (kernel_memory cp) h \<Longrightarrow> call_ok (kernel_memory cp) h c \<Longrightarrow>
    kernel_fn n e (kernel_call c) cp = Some (r, cp') \<Longrightarrow> guest_step H cp cp'"
| guest_read: "kernel_fn n e (kernel_read c) cp = Some (r, cp') \<Longrightarrow> guest_step H cp cp'"
| guest_config_get: "config_get args cp = Some (r, cp') \<Longrightarrow> guest_step H cp cp'"
| guest_var_get: "var_get args cp = Some (r, cp') \<Longrightarrow> guest_step H cp cp'"
| guest_var_set: "var_set args cp = Some (r, cp') \<Longrightarrow> guest_step H cp cp'"
| guest_http: "http_request H args cp = Some (r, cp') \<Longrightarrow> guest_step H cp cp'"
| guest_status: "http_status_code cp = Some (r, cp') \<Longrightarrow> guest_step H cp cp'"
| guest_log: "log_message level args cp = Some (l, cp') \<Longrightarrow> guest_step H cp cp'"
| guest_host: "host_contract body \<Longrightarrow> body args outs cp = Some (r, cp') \<Longrightarrow> guest_step H cp cp'"
| guest_grow: "guest_step H cp (cp\<lparr>memory_limiter := charge before after (memory_limiter cp)\<rparr>)"

text \<open>A call of the kernel within its bounds keeps the heap, on a fresh memory too.\<close>

lemma kernel_call_fresh:
  assumes "fresh m" "call_ok m (heap_init (pages m)) c"
  shows "kernel_call c m = kernel_call c (initialised m) \<or> kernel_call c m = Some (Ret (0, m))"
proof (cases c)
  case (Store_u64 p v)
  with assms(2) have "in_active 65 (h_blocks (heap_init (pages m))) p" by (simp add: list_all_iff)
  then show ?thesis by (simp add: heap_init_def)
qed (use assms(2) fresh_exports [OF assms(1)] in \<open>auto simp: wthen_apply wbind_apply k_free_def wret_apply
    heap_init_def k_length_def intro!: disjI1\<close>)

lemma kernel_call_keeps:
  assumes h: "heap_of m h" and ok: "call_ok m h c" and run: "kernel_call c m = Some (Ret (x, m'))"
  shows "mem_fine m'"
proof -
  have repr: "mem_fine m'" if "heap_repr m h" "call_ok m h c" "kernel_call c m = Some (Ret (x, m'))" for m h
    using kernel_call_refines [OF that(1,2)] that(3)
    by (auto simp: call_agrees_def mem_fine_def split: outcome.splits)
  show ?thesis
  proof (cases "heap_repr m h")
    case True
    from repr [OF this ok run] show ?thesis .
  next
    case False
    with h have fr: "fresh m" "h = heap_init (pages m)" by (auto simp: heap_of_def)
    have "call_ok (initialised m) h c"
      using ok initialised_growth(2) [OF fr(1)] by (cases c) (simp_all add: findable_def mem_size_def)
    then have "kernel_call c (initialised m) = Some (Ret (x, m')) \<Longrightarrow> mem_fine m'"
      using repr [of "initialised m" h] initialised_fresh(2) [OF fr(1)] fr(2) by simp
    moreover have "mem_fine m" using fr(1) by (simp add: mem_fine_def)
    ultimately show ?thesis
      using kernel_call_fresh [OF fr(1)] ok run fr(2) by (metis Pair_inject option.inject outcome.inject)
  qed
qed

lemma kernel_read_keeps: "kernel_keeps (kernel_read c)"
proof -
  have ret: "kernel_keeps (wbind f (\<lambda>x. wret (g x)))" if "kernel_keeps f" for f :: "'b wasm" and g :: "'b \<Rightarrow> u64"
    using that by (auto simp: kernel_keeps_def wbind_apply wret_apply split: option.splits outcome.splits)
  show ?thesis by (cases c) (auto intro!: kernel_intros ret)
qed

text \<open>No step of a guest destroys the state of its plugin, or changes what the plugin is allowed to do.\<close>

lemma guest_step_fine:
  assumes "guest_step H cp cp'" "cp_fine cp"
  shows "cp_fine cp' \<and> sandbox cp' = sandbox cp"
  using assms(1)
proof cases
  case (guest_kernel h c n e r)
  from guest_kernel(3) show ?thesis
  proof (cases rule: kernel_fn_shape)
    case 1
    with assms(2) show ?thesis by simp
  next
    case (2 x m)
    have "heap_of ((kernel_memory cp)\<lparr>growth := growth_verdict cp\<rparr>) h"
      "call_ok ((kernel_memory cp)\<lparr>growth := growth_verdict cp\<rparr>) h c"
      using guest_kernel(1,2) by (simp add: heap_of_def, cases c) (simp_all add: findable_def mem_size_def)
    from kernel_call_keeps [OF this 2(1)] have "mem_fine m" .
    from cp_fine_memory [OF assms(2) this] show ?thesis unfolding 2(3) by blast
  qed
next
  case (guest_read n e c r)
  from hkeepsD(1,2) [OF wf.kernel_fn_keeps [OF kernel_read_keeps] assms(2) this] show ?thesis by blast
next
  case (guest_host body args outs r)
  then have "keeps cp_fine (body args outs)" by (simp add: host_contract_def)
  from hkeepsD(1,2) [OF this assms(2) guest_host(2)] show ?thesis by blast
next
  case (guest_grow before after)
  have "mem_fine (kernel_memory cp)" using assms(2) by (simp add: cp_fine_def)
  from cp_fine_memory [OF assms(2) this, of before after] guest_grow show ?thesis by simp
next
  case (guest_config_get args r)
  from hkeepsD(1,2) [OF config_get_keeps assms(2) this] show ?thesis by blast
next
  case (guest_var_get args r)
  from hkeepsD(1,2) [OF var_get_keeps assms(2) this] show ?thesis by blast
next
  case (guest_var_set args r)
  from hkeepsD(1,2) [OF var_set_keeps assms(2) this] show ?thesis by blast
next
  case (guest_http args r)
  from hkeepsD(1,2) [OF http_request_keeps assms(2) this] show ?thesis by blast
next
  case (guest_status r)
  from hkeepsD(1,2) [OF http_status_code_keeps assms(2) this] show ?thesis by blast
next
  case (guest_log level args l)
  from hkeepsD(1,2) [OF log_message_keeps assms(2) this] show ?thesis by blast
qed

text \<open>The body that \<^verbatim>\<open>host_fn!\<close> writes has the contract, if its results are shorter than 4 GiB.\<close>

lemma host_fn_contract: "(\<And>y d. enc y = Inr d \<Longrightarrow> small d) \<Longrightarrow> host_contract (host_fn decs body enc)"
  using host_fn_keeps unfolding host_contract_def by blast

section \<open>Guest code\<close>

abbreviation guest_run :: "http_env \<Rightarrow> CurrentPlugin \<Rightarrow> CurrentPlugin \<Rightarrow> bool" where
  "guest_run H \<equiv> (guest_step H)\<^sup>*\<^sup>*"

lemma guest_run_fine: "guest_run H cp cp' \<Longrightarrow> cp_fine cp \<Longrightarrow> cp_fine cp' \<and> sandbox cp' = sandbox cp"
  by (induction rule: rtranclp_induct) (auto dest: guest_step_fine)

text \<open>
  Guest code that runs in the sandbox, from a well-formed state.  The texts of its errors are shorter than 4 GiB, so that the C
  interface can store them.
\<close>

definition code_ok :: "http_env \<Rightarrow> guest_func \<Rightarrow> bool" where
  "code_ok H f \<longleftrightarrow> (\<forall>args cp r cp'. f_code f args cp = Some (r, cp') \<longrightarrow>
     (cp_fine cp \<longrightarrow> guest_run H cp cp') \<and> (\<forall>e. r = Inl e \<longrightarrow> small (display_error e)))"

text \<open>wasmtime runs the start function of a module in the sandbox and yields sandboxed functions.\<close>

definition sandboxed :: "http_env \<Rightarrow> runtime_env \<Rightarrow> bool" where
  "sandboxed H E \<longleftrightarrow> (\<forall>cp r cp'. instantiate_main E cp = Some (r, cp') \<longrightarrow>
     (cp_fine cp \<longrightarrow> guest_run H cp cp') \<and>
     (\<forall>e. r = Inl e \<longrightarrow> small (display_error e)) \<and>
     (\<forall>fs mem. r = Inr (fs, mem) \<longrightarrow> (\<forall>(n, f) \<in> set fs. code_ok H f)))"

section \<open>Operations on a plugin\<close>

fun runtime_ok :: "http_env \<Rightarrow> GuestRuntime \<Rightarrow> bool" where
  "runtime_ok H (Haskell init reactor) = (code_ok H init \<and> pred_option (code_ok H) reactor)"
| "runtime_ok H (Wasi_runtime init) = code_ok H init"

text \<open>
  A plugin between two calls: its state is well-formed, its functions run in the sandbox, its store
  needs no reset, and it has been instantiated at most once.
\<close>

definition plugin_fine :: "http_env \<Rightarrow> plugin \<Rightarrow> bool" where
  "plugin_fine H p \<longleftrightarrow> cp_fine (current p) \<and>
     (\<forall>fs. instance_of p = Some fs \<longrightarrow> (\<forall>(n, f) \<in> set fs. code_ok H f)) \<and>
     pred_option (runtime_ok H) (runtime p) \<and> \<not> store_needs_reset p \<and>
     instantiations p = (if instance_of p = None then 0 else 1)"

definition evolves :: "plugin \<Rightarrow> plugin \<Rightarrow> bool" where
  "evolves p p' \<longleftrightarrow> sandbox (current p') = sandbox (current p) \<and> plugin_id p' = plugin_id p \<and> sent p' = sent p"

lemma evolves_refl [simp]: "evolves p p" by (simp add: evolves_def)

lemma evolves_trans: "evolves p q \<Longrightarrow> evolves q r \<Longrightarrow> evolves p r" by (simp add: evolves_def)

definition pkeeps :: "http_env \<Rightarrow> (plugin \<Rightarrow> ('a \<times> plugin) option) \<Rightarrow> bool" where
  "pkeeps H f \<longleftrightarrow> (\<forall>p r p'. plugin_fine H p \<longrightarrow> f p = Some (r, p') \<longrightarrow> plugin_fine H p' \<and> evolves p p')"

lemma pkeepsD:
  assumes "pkeeps H f" "plugin_fine H p" "f p = Some (r, p')"
  shows "plugin_fine H p'" "evolves p p'"
  using assms by (auto simp: pkeeps_def)

lemma plugin_fine_current:
  assumes "plugin_fine H p" "cp_fine c" "sandbox c = sandbox (current p)"
  shows "plugin_fine H (p\<lparr>current := c\<rparr>)" "evolves p (p\<lparr>current := c\<rparr>)"
  using assms by (simp_all add: plugin_fine_def evolves_def)

lemma plugin_fine_output [simp]:
  "plugin_fine H (p\<lparr>call_output := x\<rparr>) = plugin_fine H p" "evolves q (p\<lparr>call_output := x\<rparr>) = evolves q p"
  "evolves (p\<lparr>call_output := x\<rparr>) q = evolves p q"
  by (simp_all add: plugin_fine_def evolves_def)

lemma on_current_keeps: "hkeeps cp_fine f Q \<Longrightarrow> pkeeps H (on_current f)"
  unfolding pkeeps_def
proof (intro allI impI)
  fix p r p'
  assume f: "hkeeps cp_fine f Q" and p: "plugin_fine H p" and run: "on_current f p = Some (r, p')"
  then obtain c where c: "f (current p) = Some (r, c)" "p' = p\<lparr>current := c\<rparr>"
    by (auto simp: on_current_def split: option.splits)
  have "cp_fine (current p)" using p by (simp add: plugin_fine_def)
  from hkeepsD(1,2) [OF f this c(1)] plugin_fine_current [OF p, of c] c(2)
  show "plugin_fine H p' \<and> evolves p p'" by simp
qed

lemma run_code_keeps:
  assumes "code_ok H f"
  shows "pkeeps H (run_code f args)"
  unfolding pkeeps_def
proof (intro allI impI)
  fix p r p'
  assume p: "plugin_fine H p" and run: "run_code f args p = Some (r, p')"
  then obtain c where c: "f_code f args (current p) = Some (r, c)" "p' = p\<lparr>current := c\<rparr>"
    by (auto simp: run_code_def split: option.splits)
  have "cp_fine (current p)" "guest_run H (current p) c"
    using p assms c(1) by (auto simp: plugin_fine_def code_ok_def)
  with guest_run_fine plugin_fine_current [OF p, of c] c(2) show "plugin_fine H p' \<and> evolves p p'" by blast
qed

lemma get_func_ok: "plugin_fine H p \<Longrightarrow> get_func p n = Some f \<Longrightarrow> code_ok H f"
  using btree_get_mem by (fastforce simp: plugin_fine_def get_func_def split: option.splits)

lemma detect_guest_runtime_fine:
  assumes "plugin_fine H p"
  shows "plugin_fine H (detect_guest_runtime p)" "evolves p (detect_guest_runtime p)"
proof -
  have rt: "plugin_fine H (p\<lparr>runtime := Some r\<rparr>)" if "runtime_ok H r" for r
    using assms that by (simp add: plugin_fine_def)
  show "plugin_fine H (detect_guest_runtime p)"
    using assms get_func_ok [OF assms]
    by (auto simp: detect_guest_runtime_def Let_def intro!: rt split: option.splits)
  show "evolves p (detect_guest_runtime p)"
    by (simp add: detect_guest_runtime_def Let_def evolves_def split: option.splits)
qed

lemma initialize_guest_runtime_keeps: "pkeeps H initialize_guest_runtime"
  unfolding pkeeps_def
proof (intro allI impI)
  fix p r p'
  assume p: "plugin_fine H p" and run: "initialize_guest_runtime p = Some (r, p')"
  have start: "plugin_fine H q' \<and> evolves q q'"
    if "code_ok H f" "plugin_fine H q" "run_code f args q = Some (x, q')" for f args q x q'
    using pkeepsD [OF run_code_keeps [OF that(1)] that(2,3)] by blast
  show "plugin_fine H p' \<and> evolves p p'"
  proof (cases "runtime p")
    case None
    with run p show ?thesis by (simp add: initialize_guest_runtime_def)
  next
    case (Some rt)
    then have ok: "runtime_ok H rt" using p by (simp add: plugin_fine_def)
    show ?thesis
    proof (cases rt)
      case (Wasi_runtime init)
      with run Some ok start [of init p] p show ?thesis
        by (auto simp: initialize_guest_runtime_def split: option.splits sum.splits)
    next
      case (Haskell init reactor)
      show ?thesis
      proof (cases reactor)
        case None
        with run Some Haskell ok start [of init p] p show ?thesis
          by (auto simp: initialize_guest_runtime_def Let_def split: option.splits sum.splits)
      next
        case (Some rf)
        with run \<open>runtime p = Some rt\<close> Haskell obtain x q where q: "run_code rf [] p = Some (x, q)"
          and rest: "q = p' \<or> (\<exists>y. run_code init [I32 0, I32 0] q = Some (y, p'))"
          by (auto simp: initialize_guest_runtime_def Let_def split: option.splits sum.splits)
        have okf: "code_ok H rf" "code_ok H init" using ok Haskell Some by simp_all
        note Q = start [OF okf(1) p q]
        from rest show ?thesis
          using Q start [OF okf(2)] evolves_trans by blast
      qed
    qed
  qed
qed

lemma limiter_reset_fine:
  assumes "cp_fine c"
  shows "cp_fine (limiter_reset_in c)" "sandbox (limiter_reset_in c) = sandbox c"
  using assms by (cases "memory_limiter c"; simp add: cp_fine_def sandbox_def limiter_reset_in_def limiter_reset_def)+

text \<open>A first instantiation, up to the initialisation of the guest's runtime.\<close>

lemma instantiate_step:
  assumes E: "sandboxed H E" and p: "plugin_fine H p" and none: "instance_of p = None"
    and main: "instantiate_main E (current p) = Some (Inr (fs, mem), c)"
  obtains p1 where "plugin_fine H p1" "evolves p p1"
    "instantiate E p = initialize_guest_runtime (detect_guest_runtime p1)"
proof
  define c1 where "c1 = (case mem of Some np \<Rightarrow> c\<lparr>memory_export := Some (pm_new np (engine_growth c))\<rparr> | None \<Rightarrow> c)"
  define p1 where "p1 = p\<lparr>current := limiter_reset_in c1, instance_of := Some fs, instantiations := instantiations p + 1\<rparr>"
  have "cp_fine (current p)" using p by (simp add: plugin_fine_def)
  moreover from this have "guest_run H (current p) c" using E main by (auto simp: sandboxed_def)
  ultimately have c: "cp_fine c" "sandbox c = sandbox (current p)" using guest_run_fine by blast+
  have c1: "cp_fine c1" "sandbox c1 = sandbox (current p)"
    using c by (auto simp: c1_def cp_fine_def sandbox_def split: option.split)
  have "\<forall>(n, f) \<in> set fs. code_ok H f" using E main by (auto simp: sandboxed_def)
  then show "plugin_fine H p1" "evolves p p1"
    using p none limiter_reset_fine [OF c1(1)] c1(2) by (simp_all add: p1_def plugin_fine_def evolves_def)
  show "instantiate E p = initialize_guest_runtime (detect_guest_runtime p1)"
    using none main by (simp add: instantiate_def c1_def p1_def)
qed

lemma instantiate_keeps:
  assumes E: "sandboxed H E"
  shows "pkeeps H (instantiate E)"
  unfolding pkeeps_def
proof (intro allI impI)
  fix p r p'
  assume p: "plugin_fine H p" and run: "instantiate E p = Some (r, p')"
  show "plugin_fine H p' \<and> evolves p p'"
  proof (cases "instance_of p")
    case (Some fs)
    with run p show ?thesis by (simp add: instantiate_def)
  next
    case None
    then obtain q c where q: "instantiate_main E (current p) = Some (q, c)"
      using run by (auto simp: instantiate_def split: option.splits)
    have "cp_fine (current p)" using p by (simp add: plugin_fine_def)
    moreover from this have "guest_run H (current p) c" using E q by (auto simp: sandboxed_def)
    ultimately have c: "cp_fine c" "sandbox c = sandbox (current p)" using guest_run_fine by blast+
    show ?thesis
    proof (cases q)
      case (Inl e)
      with run None q plugin_fine_current [OF p c] show ?thesis by (auto simp: instantiate_def)
    next
      case (Inr fm)
      obtain fs mem where fm: "fm = (fs, mem)" by force
      obtain p1 where p1: "plugin_fine H p1" "evolves p p1"
        "instantiate E p = initialize_guest_runtime (detect_guest_runtime p1)"
        using instantiate_step [OF E p None q [unfolded Inr fm]] by metis
      then have "initialize_guest_runtime (detect_guest_runtime p1) = Some (r, p')" using run by simp
      from pkeepsD [OF initialize_guest_runtime_keeps detect_guest_runtime_fine(1) [OF p1(1)] this]
        evolves_trans [OF evolves_trans [OF p1(2) detect_guest_runtime_fine(2) [OF p1(1)]]]
      show ?thesis by blast
    qed
  qed
qed

lemma set_input_keeps:
  assumes "small input"
  shows "pkeeps H (set_input input)"
proof -
  have "keeps cp_fine (hbind plugin_clear_error (\<lambda>_. hbind plugin_reset (\<lambda>_.
        hbind (memory_new (bytes_to_bytes input)) (\<lambda>handle. call_input_set handle (length input)))))"
    unfolding bytes_to_bytes_def using assms by (intro keeps_intros)
  from on_current_keeps [OF this] show ?thesis
    unfolding pkeeps_def set_input_def by (metis plugin_fine_output(1,3))
qed

lemma get_output_keeps: "pkeeps H get_output_after_call"
  unfolding pkeeps_def
proof (intro allI impI)
  fix p r p'
  assume p: "plugin_fine H p" and run: "get_output_after_call p = Some (r, p')"
  note pos = pkeepsD [OF on_current_keeps [OF wf.output_memory_position_keeps] p]
  from run obtain q p1 where q: "on_current output_memory_position p = Some (q, p1)"
    by (auto simp: get_output_after_call_def split: option.splits)
  note P = pos [OF q]
  show "plugin_fine H p' \<and> evolves p p'"
  proof (cases q)
    case (Done x)
    obtain offs l where x: "x = (offs, l)" by force
    let ?p1 = "p1\<lparr>call_output := (call_output p1)\<lparr>out_offset := offs, out_length := l\<rparr>\<rparr>"
    from run q Done x obtain e p2 where e: "on_current get_error_position ?p1 = Some (e, p2)"
      and p': "p' = p2 \<or> (\<exists>y. p' = p2\<lparr>call_output := y\<rparr>)"
      by (auto simp: get_output_after_call_def Let_def split: option.splits hres.splits prod.splits)
    have "plugin_fine H ?p1" "evolves p ?p1" using P by simp_all
    from pkeepsD [OF on_current_keeps [OF wf.get_error_position_keeps] this(1) e] evolves_trans [OF this(2)] p'
    show ?thesis by auto
  qed (use run q P in \<open>auto simp: get_output_after_call_def\<close>)
qed

text \<open>An error whose text the C interface can store.\<close>

definition err_small :: "call_error option \<Rightarrow> bool" where
  "err_small r \<longleftrightarrow> pred_option (small \<circ> display_error) r"

lemma small_str_of [simp]: "small (str_of s) = small s"
  by (simp add: small_def str_of_def)

lemma plugin_error_keeps:
  assumes p: "plugin_fine H p" and res: "err_small res" "length n < 2147483648"
    and run: "plugin_error n p res = Some (r, p')"
  shows "plugin_fine H p' \<and> evolves p p' \<and> err_small r"
proof (cases "error_offset (call_output p) \<noteq> 0 \<and> error_length (call_output p) \<noteq> 0")
  case False
  with run p res show ?thesis by (auto simp: plugin_error_def Let_def)
next
  case True
  let ?h = "\<lparr>handle_offset = error_offset (call_output p), handle_length = error_length (call_output p)\<rparr>"
  have "handle_ok ?h" using True by (simp add: handle_ok_def)
  note str = wf.memory_str_keeps [OF this]
  from run True obtain q p1 where q: "on_current (memory_str ?h) p = Some (q, p1)"
    by (auto simp: plugin_error_def Let_def split: option.splits)
  note P = pkeepsD [OF on_current_keeps [OF str] p q]
  have short: "small (''Call to Extism plugin function '' @ n @ '' encountered an error'')"
    using res(2) by (simp add: small_def)
  show ?thesis
  proof (cases q)
    case (Done s)
    have "cp_fine (current p)" using p by (simp add: plugin_fine_def)
    with q Done have "small s" using hkeepsD(3) [OF str] by (fastforce simp: on_current_def split: option.splits)
    with run True q Done P res show ?thesis
      by (auto simp: plugin_error_def Let_def err_small_def split: option.splits)
  qed (use run True q P short in \<open>auto simp: plugin_error_def Let_def err_small_def\<close>)
qed

lemma final_result_small:
  "err_small res \<Longrightarrow> final_result res rc = Failed e c \<Longrightarrow> small (display_error e)"
  by (auto simp: final_result_def err_small_def small_def split: option.splits if_splits)

lemma return_error_keeps:
  assumes "small e"
  shows "pkeeps H (return_error e x)"
  unfolding pkeeps_def
proof (intro allI impI)
  fix p r p'
  assume p: "plugin_fine H p" and run: "return_error e x p = Some (r, p')"
  show "plugin_fine H p' \<and> evolves p p'"
  proof (cases "instance_of p = None")
    case True
    with run p show ?thesis by (simp add: return_error_def)
  next
    case False
    with run obtain q p1 where q: "on_current (set_error_msg e) p = Some (q, p1)"
      and p': "p' = p1 \<or> (\<exists>y. p' = p1\<lparr>call_output := y\<rparr>)"
      by (auto simp: return_error_def split: option.splits hres.splits prod.splits)
    from pkeepsD [OF on_current_keeps [OF wf.set_error_msg_keeps [OF assms]] p q] p' show ?thesis by auto
  qed
qed

section \<open>Messages to the timer\<close>

text \<open>Whether a plugin is being watched after some messages; \<open>concerns\<close> selects those about it.\<close>

fun watched :: "nat \<Rightarrow> bool \<Rightarrow> 'e TimerAction list \<Rightarrow> bool" where
  "watched i w [] = w"
| "watched i w (Start j e d # xs) = watched i (j = i \<or> w) xs"
| "watched i w (Stop j # xs) = watched i (j \<noteq> i \<and> w) xs"
| "watched i w (Cancel j # xs) = watched i (j \<noteq> i \<and> w) xs"
| "watched i w (Shutdown # xs) = watched i w xs"

fun concerns :: "nat \<Rightarrow> 'e TimerAction \<Rightarrow> bool" where
  "concerns i (Start j e d) = (j = i)"
| "concerns i (Stop j) = (j = i)"
| "concerns i (Cancel j) = (j = i)"
| "concerns i Shutdown = False"

lemma watched_append: "watched i w (xs @ ys) = watched i (watched i w xs) ys"
  by (induction i w xs rule: watched.induct) simp_all

lemma watched_concerns: "watched i w (filter (concerns i) xs) = watched i w xs"
  by (induction i w xs rule: watched.induct) auto

text \<open>The timer has an entry for a plugin exactly when it is watched.\<close>

lemma timer_watched:
  assumes "timer_handle_all xs t = Some t'" "btree_ok (plugins t)"
  shows "btree_get (plugins t') i \<noteq> None \<longleftrightarrow> watched i (btree_get (plugins t) i \<noteq> None) (map snd xs)"
  using assms
proof (induction xs t rule: timer_handle_all.induct)
  case (2 now x xs t)
  from 2(2) obtain t1 where t1: "timer_handle now x t = Some t1" "timer_handle_all xs t1 = Some t'"
    by (auto split: option.splits)
  have ok: "btree_ok (plugins t1)" using timer_handle_ok [OF t1(1), of "epoch t"] 2(3) by (simp add: timer_ok_def)
  have "btree_get (plugins t1) i \<noteq> None \<longleftrightarrow> watched i (btree_get (plugins t) i \<noteq> None) [x]"
    using t1(1) 2(3) by (cases x) (auto simp: btree_get_insert btree_get_remove split: if_splits)
  then have "watched i (btree_get (plugins t1) i \<noteq> None) ys = watched i (btree_get (plugins t) i \<noteq> None) (x # ys)" for ys
    using watched_append [of i "btree_get (plugins t) i \<noteq> None" "[x]" ys] by simp
  with 2(1) [OF t1(1,2) ok] show ?case by simp
qed simp

section \<open>A call\<close>

text \<open>The messages of a call: a start and, when it returns, a stop.\<close>

lemma run_guest_fine:
  assumes f: "code_ok H f" and p: "plugin_fine H p" and run: "run_guest f params p = Some (res, results, p')"
  shows "plugin_fine H p' \<and> sandbox (current p') = sandbox (current p) \<and> plugin_id p' = plugin_id p \<and>
    (\<exists>d. sent p' = sent p @ [Start (plugin_id p) () d, Stop (plugin_id p)]) \<and> err_small res"
proof -
  define p1 where "p1 = p\<lparr>sent := sent p @ [Start (plugin_id p) () (map_option unat (timeout_ms (manifest (current p))))]\<rparr>"
  have p1: "plugin_fine H p1" using p by (simp add: p1_def plugin_fine_def)
  from run obtain r p2 where r: "run_code f params p1 = Some (r, p2)"
    and out: "p' = p2\<lparr>sent := sent p2 @ [Stop (plugin_id p2)]\<rparr>" "res = (case r of Inr vs \<Rightarrow> None | Inl e \<Rightarrow> Some e)"
    by (auto simp: run_guest_def Let_def p1_def split: option.splits)
  note P = pkeepsD [OF run_code_keeps [OF f] p1 r]
  have "plugin_fine H p'" using P(1) by (simp add: out(1) plugin_fine_def)
  moreover have "\<forall>e. r = Inl e \<longrightarrow> small (display_error e)"
    using f r by (auto simp: code_ok_def run_code_def split: option.splits)
  ultimately show ?thesis using P(2) out by (auto simp: evolves_def p1_def err_small_def split: sum.split)
qed

definition call_messages :: "plugin \<Rightarrow> plugin \<Rightarrow> bool" where
  "call_messages p p' \<longleftrightarrow> sent p' = sent p \<or>
     (\<exists>d. sent p' = sent p @ [Start (plugin_id p) () d, Stop (plugin_id p)])"

text \<open>The errors of an instantiation come from guest code.\<close>

lemma instantiate_error_small:
  assumes E: "sandboxed H E" and p: "plugin_fine H p" and run: "instantiate E p = Some (Some e, p')"
  shows "small (display_error e)"
proof -
  have code: "small (display_error e)" if "code_ok H f" "run_code f args q = Some (Inl e, q')" for f args q q'
    using that by (fastforce simp: code_ok_def run_code_def split: option.splits)
  have init: "small (display_error e)" if "plugin_fine H q" "initialize_guest_runtime q = Some (Some e, q')" for q q'
  proof (cases "runtime q")
    case None
    with that show ?thesis by (simp add: initialize_guest_runtime_def)
  next
    case (Some rt)
    then have "runtime_ok H rt" using that(1) by (simp add: plugin_fine_def)
    with that(2) Some show ?thesis
      by (cases rt) (auto simp: initialize_guest_runtime_def Let_def split: option.splits sum.splits,
          (erule code [rotated], assumption)+)
  qed
  show ?thesis
  proof (cases "instance_of p")
    case (Some fs)
    with run show ?thesis by (simp add: instantiate_def)
  next
    case None
    then obtain q c where q: "instantiate_main E (current p) = Some (q, c)"
      using run by (auto simp: instantiate_def split: option.splits)
    show ?thesis
    proof (cases q)
      case (Inl e')
      with run None q E show ?thesis by (auto simp: instantiate_def sandboxed_def)
    next
      case (Inr fm)
      obtain fs mem where fm: "fm = (fs, mem)" by force
      obtain p1 where "plugin_fine H p1" "initialize_guest_runtime (detect_guest_runtime p1) = Some (Some e, p')"
        using instantiate_step [OF E p None q [unfolded Inr fm]] run by metis
      with init detect_guest_runtime_fine(1) show ?thesis by blast
    qed
  qed
qed

text \<open>From the start of the timer to the end of the call.\<close>

lemma raw_call_rest:
  assumes E: "sandboxed H E" and p: "plugin_fine H p" and f: "code_ok H f" and n: "length n < 2147483648"
    and run: "(case run_guest f params' p of None \<Rightarrow> None
      | Some (res, results, p4) \<Rightarrow>
          let raw = (if use_extism then [] else results); rc = return_code use_extism results
          in (case (if use_extism then get_output_after_call p4 else Some (Done (), p4)) of
                None \<Rightarrow> None
              | Some (Err e, p5) \<Rightarrow> Some (Host_failed e (-1), raw, p5)
              | Some (Fault, p5) \<Rightarrow> Some (Host_fault, raw, p5)
              | Some (Done u, p5) \<Rightarrow>
                  (case plugin_error n p5 res of None \<Rightarrow> None
                   | Some (res', p6) \<Rightarrow> Some (final_result res' rc, raw, p6)))) = Some (r, vs, p')"
  shows "plugin_fine H p' \<and> sandbox (current p') = sandbox (current p) \<and> plugin_id p' = plugin_id p \<and>
    call_messages p p' \<and> (\<forall>e c. r = Failed e c \<longrightarrow> small (display_error e))"
proof -
  obtain res results p4 where g: "run_guest f params' p = Some (res, results, p4)"
    using run by (auto split: option.splits)
  note P4 = run_guest_fine [OF f p g]
  obtain y p5 where out: "(if use_extism then get_output_after_call p4 else Some (Done (), p4)) = Some (y, p5)"
    using run g by (auto simp: Let_def split: option.splits)
  have P5: "plugin_fine H p5" "evolves p4 p5"
    using out P4 pkeepsD [OF get_output_keeps, of H p4 y p5] by (auto split: if_splits)
  have lives: "sandbox (current q) = sandbox (current p) \<and> plugin_id q = plugin_id p \<and> call_messages p q"
    if "evolves p4 q" for q
    using that P4 by (auto simp: evolves_def call_messages_def)
  show ?thesis
  proof (cases y)
    case (Done u)
    obtain res' p6 where e: "plugin_error n p5 res = Some (res', p6)"
      and r: "r = final_result res' (return_code use_extism results)" "p' = p6"
      using run g out Done by (auto simp: Let_def split: option.splits)
    have "err_small res" using P4 by blast
    from plugin_error_keeps [OF P5(1) this n e]
    have P6: "plugin_fine H p6" "evolves p5 p6" "err_small res'" by blast+
    with lives [OF evolves_trans [OF P5(2) P6(2)]] r final_result_small [OF P6(3)] show ?thesis by auto
  qed (use run g out P5 lives [OF P5(2)] in \<open>auto simp: Let_def\<close>)
qed

lemma raw_call_fine:
  assumes E: "sandboxed H E" and p: "plugin_fine H p" and args: "small input" "length n < 2147483648"
    and run: "raw_call E n input use_extism params p = Some (r, vs, p')"
  shows "plugin_fine H p' \<and> sandbox (current p') = sandbox (current p) \<and> plugin_id p' = plugin_id p \<and>
    call_messages p p' \<and> (\<forall>e c. r = Failed e c \<longrightarrow> small (display_error e))"
proof -
  have reset: "(if use_extism then snd (reset_store E p) else p) = p"
    using p by (simp add: reset_store_def plugin_fine_def)
  obtain x p2 where inst: "instantiate E p = Some (x, p2)"
    using run reset by (cases "instantiate E p") (auto simp: raw_call_def Let_def)
  note P2 = pkeepsD [OF instantiate_keeps [OF E] p inst]
  have done2: ?thesis if "p' = q" "plugin_fine H q" "evolves p q"
    "\<And>e c. r = Failed e c \<Longrightarrow> small (display_error e)" for q
    using that by (auto simp: evolves_def call_messages_def)
  show ?thesis
  proof (cases x)
    case (Some e)
    with run reset inst have out: "p' = p2" "r = Failed e (-1)" by (simp_all add: raw_call_def)
    have "small (display_error e)" using instantiate_error_small [OF E p inst [unfolded Some]] .
    with out P2 show ?thesis by (intro done2 [of p2]) auto
  next
    case None
    let ?in = "if use_extism then set_input input p2 else Some (Done (), p2)"
    obtain y p3 where inp: "?in = Some (y, p3)"
      using run reset inst None by (cases ?in) (auto simp: raw_call_def)
    have P3: "plugin_fine H p3" "evolves p p3"
      using inp P2 pkeepsD [OF set_input_keeps [OF args(1)] P2(1), of y p3] evolves_trans
      by (auto split: if_splits)
    show ?thesis
    proof (cases "\<exists>u f. y = Done u \<and> get_func p3 n = Some f \<and> \<not> (use_extism \<and> 1 < length (f_results f))")
      case False
      then have "p' = p3 \<and> (\<forall>e c. r = Failed e c \<longrightarrow> small (display_error e))"
        using run reset inst None inp args(2)
        by (cases y) (auto simp: raw_call_def Let_def small_def split: option.splits if_splits)
      with P3 show ?thesis by (intro done2 [of p3]) auto
    next
      case True
      then obtain u f where f: "y = Done u" "get_func p3 n = Some f" "\<not> (use_extism \<and> 1 < length (f_results f))" by blast
      note rest = raw_call_rest [where use_extism = use_extism and vs = vs and
        params' = "if use_extism then [] else params", OF E P3(1) get_func_ok [OF P3(1) f(2)] args(2)]
      have R: "plugin_fine H p' \<and> sandbox (current p') = sandbox (current p3) \<and> plugin_id p' = plugin_id p3 \<and>
        call_messages p3 p' \<and> (\<forall>e c. r = Failed e c \<longrightarrow> small (display_error e))"
        using run reset inst None inp f by (intro rest, cases use_extism) (simp_all add: raw_call_def cong: option.case_cong prod.case_cong)
      with P3(2) show ?thesis by (auto simp: evolves_def call_messages_def)
    qed
  qed
qed

section \<open>The life of a plugin\<close>

text \<open>
  An operation of the interfaces: a call with or without the conventions of Extism, from Rust or from
  C, a new configuration, the check for a function, the reset of the memory, a cancellation.  Inputs,
  texts and values of a configuration are shorter than 4 GiB, names than 2 GiB.
\<close>

inductive plugin_step ::
    "runtime_env \<Rightarrow> (host_error \<Rightarrow> string) \<Rightarrow> (u8 list \<Rightarrow> (string, string option) btree option) \<Rightarrow>
     (string \<times> string \<Rightarrow> bool) \<Rightarrow> plugin \<Rightarrow> plugin \<Rightarrow> bool"
  for E :: runtime_env and show_host :: "host_error \<Rightarrow> string"
    and parse :: "u8 list \<Rightarrow> (string, string option) btree option" and push_ok :: "string \<times> string \<Rightarrow> bool" where
  step_call: "small input \<Longrightarrow> length n < 2147483648 \<Longrightarrow>
    raw_call E n input use_extism params p = Some (r, vs, p') \<Longrightarrow> plugin_step E show_host parse push_ok p p'"
| step_c_call: "small data \<Longrightarrow> length n < 2147483648 \<Longrightarrow>
    extism_plugin_call E show_host (Some p) n data = Some (rc, Some p') \<Longrightarrow> plugin_step E show_host parse push_ok p p'"
| step_native_call: "length n < 2147483648 \<Longrightarrow>
    wasm_otoroshi_plugin_call_native E show_host (Some p) n params = Some (results, Some p') \<Longrightarrow>
    plugin_step E show_host parse push_ok p p'"
| step_config: "(\<And>j k v. parse json = Some j \<Longrightarrow> (k, Some v) \<in> set j \<Longrightarrow> small v) \<Longrightarrow>
    extism_plugin_config parse push_ok (Some p) json = Some (b, Some p') \<Longrightarrow> plugin_step E show_host parse push_ok p p'"
| step_exists: "extism_plugin_function_exists E (Some p) n = Some (b, Some p') \<Longrightarrow>
    plugin_step E show_host parse push_ok p p'"
| step_reset: "extism_plugin_reset show_host p = Some (b, p') \<Longrightarrow> plugin_step E show_host parse push_ok p p'"
| step_cancel: "plugin_step E show_host parse push_ok p (cancel p)"

text \<open>What a plugin may do: everything in its sandbox but the values of its configuration.\<close>

definition rights :: "CurrentPlugin \<Rightarrow>
    Manifest \<times> string list \<times> (path \<times> path) list option \<times> u32 option \<times> nat option" where
  "rights cp = ((manifest cp)\<lparr>config := []\<rparr>, linked cp, map_option wasi_preopens (wasi cp), available_pages cp,
     map_option max_bytes (memory_limiter cp))"

lemma sandbox_rights: "sandbox cp' = sandbox cp \<Longrightarrow> rights cp' = rights cp"
  by (simp add: sandbox_def rights_def)

text \<open>One step of life, with the messages it sends.\<close>

definition lives :: "plugin \<Rightarrow> plugin \<Rightarrow> bool" where
  "lives p p' \<longleftrightarrow> rights (current p') = rights (current p) \<and> plugin_id p' = plugin_id p \<and>
     (call_messages p p' \<or> sent p' = sent p @ [Cancel (plugin_id p)])"

lemma evolves_lives: "evolves p p' \<Longrightarrow> lives p p'"
  using sandbox_rights [of "current p'" "current p"] by (simp add: evolves_def lives_def call_messages_def)

lemma lives_evolves: "lives p q \<Longrightarrow> evolves q r \<Longrightarrow> lives p r"
  using sandbox_rights [of "current r" "current q"] by (auto simp: evolves_def lives_def call_messages_def)

lemma raw_call_lives:
  assumes "sandboxed H E" "plugin_fine H p" "small input" "length n < 2147483648"
    and "raw_call E n input use_extism params p = Some (r, vs, p')"
  shows "plugin_fine H p'" "lives p p'" "r = Failed e c \<Longrightarrow> small (bytes_of (display_error e))"
  using raw_call_fine [OF assms] sandbox_rights [of "current p'" "current p"] by (auto simp: lives_def)

lemma c_call_lives:
  assumes E: "sandboxed H E" "\<forall>e. small (show_host e)" and p: "plugin_fine H p"
    and args: "small data" "length n < 2147483648"
    and run: "extism_plugin_call E show_host (Some p) n data = Some (rc, Some p')"
  shows "plugin_fine H p' \<and> lives p p'"
proof (cases "from_utf8_ok n")
  case False
  with run have "return_error (bytes_of ''invalid utf-8'') (-1) p = Some (rc, p')" by (simp add: extism_plugin_call_def)
  from pkeepsD [OF return_error_keeps p this] evolves_lives show ?thesis by (simp add: small_def bytes_of_def)
next
  case True
  then obtain r vs p1 where r: "raw_call E (str_of n) data True [] p = Some (r, vs, p1)"
    using run by (auto simp: extism_plugin_call_def split: option.splits)
  note P1 = raw_call_lives [OF E(1) p args(1) _ r]
  have P: "plugin_fine H p1" "lives p p1" using P1(1,2) args(2) by (simp_all add: str_of_def)
  have err: "plugin_fine H p' \<and> lives p p'" if "return_error t rc p1 = Some (x, p')" "small t" for t x
    using pkeepsD [OF return_error_keeps [OF that(2)] P(1) that(1)] lives_evolves [OF P(2)] by blast
  show ?thesis
  proof (cases r)
    case (Ok x)
    with run True r P show ?thesis by (simp add: extism_plugin_call_def)
  next
    case (Failed e c)
    have "small (bytes_of (display_error e))" using P1(3) [of e c] Failed args(2) by (simp add: str_of_def)
    with run True r Failed pkeepsD [OF return_error_keeps P(1)] lives_evolves [OF P(2)] show ?thesis
      by (fastforce simp: extism_plugin_call_def)
  next
    case (Host_failed e c)
    with run True r E(2) pkeepsD [OF return_error_keeps P(1), of "bytes_of (show_host e)"] lives_evolves [OF P(2)]
    show ?thesis by (fastforce simp: extism_plugin_call_def)
  qed (use run True r in \<open>simp add: extism_plugin_call_def\<close>)
qed

lemma native_call_lives:
  assumes E: "sandboxed H E" "\<forall>e. small (show_host e)" and p: "plugin_fine H p"
    and n: "length n < 2147483648"
    and run: "wasm_otoroshi_plugin_call_native E show_host (Some p) n params = Some (results, Some p')"
  shows "plugin_fine H p' \<and> lives p p'"
proof (cases "from_utf8_ok n")
  case False
  with run have "return_error (bytes_of ''invalid utf-8'') None p = Some (results, p')"
    by (simp add: wasm_otoroshi_plugin_call_native_def)
  from pkeepsD [OF return_error_keeps p this] evolves_lives show ?thesis by (simp add: small_def bytes_of_def)
next
  case True
  let ?args = "case params of Some vs \<Rightarrow> vs | None \<Rightarrow> []"
  obtain r vs p1 where r: "raw_call E (str_of n) [] False ?args p = Some (r, vs, p1)"
    using run True by (auto simp: wasm_otoroshi_plugin_call_native_def split: option.splits)
  note P1 = raw_call_lives [OF E(1) p small_Nil _ r]
  have P: "plugin_fine H p1" "lives p p1" using P1(1,2) n by (simp_all add: str_of_def)
  show ?thesis
  proof (cases r)
    case (Ok x)
    with run True r P show ?thesis by (simp add: wasm_otoroshi_plugin_call_native_def)
  next
    case (Failed e c)
    have "small (bytes_of (display_error e))" using P1(3) [of e c] Failed n by (simp add: str_of_def)
    with run True r Failed pkeepsD [OF return_error_keeps P(1)] lives_evolves [OF P(2)] show ?thesis
      by (fastforce simp: wasm_otoroshi_plugin_call_native_def)
  next
    case (Host_failed e c)
    with run True r E(2) pkeepsD [OF return_error_keeps P(1), of "bytes_of (show_host e)"] lives_evolves [OF P(2)]
    show ?thesis by (fastforce simp: wasm_otoroshi_plugin_call_native_def)
  qed (use run True r in \<open>simp add: wasm_otoroshi_plugin_call_native_def\<close>)
qed

text \<open>A new configuration changes the configuration and the environment of WASI, and nothing else.\<close>

lemma set_merge_config:
  "set (merge_config json cfg) \<subseteq> {(k, v). (k, Some v) \<in> set json} \<union> set cfg"
proof (induction json arbitrary: cfg)
  case (Cons b json)
  obtain k v where b: "b = (k, v)" by force
  have "set (case v of Some s \<Rightarrow> btree_insert k s cfg | None \<Rightarrow> btree_remove k cfg) \<subseteq>
      {(k', v'). (k', Some v') = (k, v)} \<union> set cfg"
    using set_btree_insert_le [of k _ cfg] set_btree_remove_le [of k cfg] by (auto split: option.split)
  with Cons [of "case v of Some s \<Rightarrow> btree_insert k s cfg | None \<Rightarrow> btree_remove k cfg"] show ?case
    by (fastforce simp: merge_config_def b)
qed (simp add: merge_config_def)

lemma push_envs_preopens: "wasi_preopens (push_envs ok json w) = wasi_preopens w"
proof (induction json arbitrary: w)
  case (Cons b json)
  show ?case
    using Cons by (cases b) (simp add: push_envs_def Let_def)
qed (simp add: push_envs_def)

lemma config_lives:
  assumes p: "plugin_fine H p" and json: "\<And>j k v. parse json = Some j \<Longrightarrow> (k, Some v) \<in> set j \<Longrightarrow> small v"
    and run: "extism_plugin_config parse push_ok (Some p) json = Some (b, Some p')"
  shows "plugin_fine H p' \<and> lives p p'"
proof (cases "parse json")
  case None
  with run have "return_error (bytes_of ''json'') False p = Some (b, p')" by (simp add: extism_plugin_config_def)
  from pkeepsD [OF return_error_keeps p this] evolves_lives show ?thesis by (simp add: small_def bytes_of_def)
next
  case (Some j)
  define c1 where "c1 = (current p)\<lparr>wasi := map_option (push_envs push_ok j) (wasi (current p)),
    manifest := (manifest (current p))\<lparr>config := merge_config j (config (manifest (current p)))\<rparr>\<rparr>"
  let ?q = "p\<lparr>current := c1\<rparr>"
  have "cp_fine (current p)" using p by (simp add: plugin_fine_def)
  then have "cp_fine c1"
    using set_merge_config [of j "config (manifest (current p))"] json [OF Some]
    by (fastforce simp: cp_fine_def c1_def)
  then have q: "plugin_fine H ?q" using p by (simp add: plugin_fine_def)
  have "rights c1 = rights (current p)"
    by (simp add: rights_def c1_def option.map_comp o_def push_envs_preopens)
  then have "lives p ?q" by (simp add: lives_def call_messages_def)
  moreover obtain r where "on_current plugin_clear_error ?q = Some (r, p')"
    using run Some by (auto simp: extism_plugin_config_def Let_def c1_def split: option.splits)
  ultimately show ?thesis
    using pkeepsD [OF on_current_keeps [OF wf.kernel_calls_keep(3)] q] lives_evolves by blast
qed

lemma exists_lives:
  assumes p: "plugin_fine H p" and run: "extism_plugin_function_exists E (Some p) n = Some (b, Some p')"
  shows "plugin_fine H p' \<and> lives p p'"
proof (cases "from_utf8_ok n")
  case False
  with run have "return_error (bytes_of ''invalid utf-8'') False p = Some (b, p')"
    by (simp add: extism_plugin_function_exists_def)
  from pkeepsD [OF return_error_keeps p this] evolves_lives show ?thesis by (simp add: small_def bytes_of_def)
next
  case True
  with run obtain r where "on_current plugin_clear_error p = Some (r, p')"
    by (auto simp: extism_plugin_function_exists_def split: option.splits)
  with pkeepsD [OF on_current_keeps [OF wf.kernel_calls_keep(3)] p] evolves_lives show ?thesis by blast
qed

lemma reset_lives:
  assumes p: "plugin_fine H p" and texts: "\<forall>e. small (show_host e)"
    and run: "extism_plugin_reset show_host p = Some (b, p')"
  shows "plugin_fine H p' \<and> lives p p'"
proof -
  obtain r p1 where r: "on_current plugin_reset p = Some (r, p1)"
    using run by (auto simp: extism_plugin_reset_def split: option.splits)
  note P = pkeepsD [OF on_current_keeps [OF wf.plugin_reset_keeps] p r]
  have "p' = p1 \<or> (\<exists>t x. small t \<and> on_current (set_error_msg t) p1 = Some (x, p'))"
    using run r texts by (cases r) (auto simp: extism_plugin_reset_def)
  then show ?thesis
    using P evolves_trans [OF P(2)] evolves_lives pkeepsD [OF on_current_keeps [OF wf.set_error_msg_keeps] P(1)] by blast
qed

lemma plugin_step_lives:
  assumes E: "sandboxed H E" "\<forall>e. small (show_host e)" and p: "plugin_fine H p"
    and step: "plugin_step E show_host parse push_ok p p'"
  shows "plugin_fine H p' \<and> lives p p'"
  using step
proof cases
  case (step_call input n use_extism params r vs)
  with raw_call_lives(1,2) [OF E(1) p] show ?thesis by blast
next
  case (step_c_call data n rc)
  with c_call_lives [OF E p] show ?thesis by blast
next
  case (step_native_call n params results)
  with native_call_lives [OF E p] show ?thesis by blast
next
  case (step_config json b)
  with config_lives [OF p] show ?thesis by blast
next
  case (step_exists n b)
  with exists_lives [OF p] show ?thesis by blast
next
  case (step_reset b)
  with reset_lives [OF p E(2)] show ?thesis by blast
next
  case step_cancel
  with p show ?thesis by (simp add: cancel_def plugin_fine_def lives_def)
qed

text \<open>What holds of every state a plugin can reach.\<close>

abbreviation plugin_reach where
  "plugin_reach E show_host parse push_ok \<equiv> (plugin_step E show_host parse push_ok)\<^sup>*\<^sup>*"

lemma plugin_reach_fine:
  assumes "plugin_reach E show_host parse push_ok p p'"
    and "sandboxed H E" "\<forall>e. small (show_host e)" "plugin_fine H p"
  shows "plugin_fine H p' \<and> rights (current p') = rights (current p) \<and> plugin_id p' = plugin_id p \<and>
    (\<not> watched (plugin_id p) False (sent p) \<longrightarrow> \<not> watched (plugin_id p) False (sent p'))"
  using assms
proof (induction rule: rtranclp_induct)
  case (step q r)
  then have q: "plugin_fine H q" "rights (current q) = rights (current p)" "plugin_id q = plugin_id p"
    "\<not> watched (plugin_id p) False (sent p) \<longrightarrow> \<not> watched (plugin_id p) False (sent q)" by blast+
  from plugin_step_lives [OF step(4,5) q(1) step(2)] q(2-4) show ?case
    by (auto simp: lives_def call_messages_def watched_append)
qed simp

text \<open>A plugin as it is built.\<close>

lemma built_fine:
  assumes build: "build_new E uuid src fs ws w d c = Inr b" "kernel_ships E"
    and clear: "\<forall>f \<in> set fs. \<not> shadows_kernel (function_key f)" "\<forall>k \<in> memory_keys ws. \<not> shadows_kernel k"
    and cfg: "\<forall>(k, v) \<in> set (config (manifest (current (base b)))). small v"
  shows "plugin_fine H (base b)" "sent (base b) = []" "plugin_id (base b) = uuid"
proof -
  obtain m cp where B: "current_plugin_new (en_env_ok E) (en_dir_ok E) (en_output E) m w (max_pages (memory m))
       (kernel_instance E) [] (en_growth E) = Inr cp"
    "base b = \<lparr>plugin_id = uuid, current = cp\<lparr>linked := kernel_links (links b)\<rparr>, instance_of = None,
       instantiations = 0, runtime = None, sent = [], call_output = output_default, store_needs_reset = False\<rparr>"
    using build_new_InrD [OF build(1)] by metis
  have "memory_limiter cp = map_option (\<lambda>pgs. let n = unat pgs * 65536 in \<lparr>bytes_left = n, max_bytes = n\<rparr>) (max_pages (memory m))"
    "vars cp = []"
    using B(1) by (auto simp: current_plugin_new_def Let_def map_sum_def split: if_splits)
  then have cp: "vars cp = []" "pred_option (\<lambda>l. bytes_left l \<le> max_bytes l) (memory_limiter cp)"
    by (simp_all add: option.pred_map o_def Let_def option.pred_True)
  have "cp_fresh (current (base b))" using build_new_linked [OF build clear] by blast
  with cp cfg have "cp_fine (current (base b))"
    by (simp add: B(2) cp_fine_def cp_fresh_def mem_fine_def vars_fine_def)
  then show "plugin_fine H (base b)" by (simp add: B(2) plugin_fine_def)
  show "sent (base b) = []" "plugin_id (base b) = uuid" by (simp_all add: B(2))
qed

end
