(* ===== verification/Native_Call.thy ===== *)
theory Native_Call
  imports Lifecycle
begin

text \<open>
  Two consequences of what a call leaves in the plugin: an error position that native calls never
  clear, and a main module that counts as instantiated although its initialisation has failed.
\<close>

section \<open>The error position of a plugin\<close>

definition has_error :: "plugin \<Rightarrow> bool" where
  "has_error p \<longleftrightarrow> instance_of p \<noteq> None \<and> error_offset (call_output p) \<noteq> 0 \<and> error_length (call_output p) \<noteq> 0"

text \<open>Errors with a text, as those of wasmtime are.\<close>

definition tells :: "plugin \<Rightarrow> bool" where
  "tells p \<longleftrightarrow> (\<forall>fs n f args cp e cp'. instance_of p = Some fs \<longrightarrow> (n, f) \<in> set fs \<longrightarrow>
     f_code f args cp = Some (Inl e, cp') \<longrightarrow> display_error e \<noteq> [])"

lemma plugin_error_set:
  assumes p: "cp_fine (current p)" "has_error p" and run: "plugin_error n p res = Some (res', p')"
    and res: "\<And>e. res = Some e \<Longrightarrow> display_error e \<noteq> []"
  shows "\<exists>e. res' = Some e \<and> exit_code e = None \<and> \<not> interrupted e \<and> display_error e \<noteq> [] \<and>
    call_output p' = call_output p \<and> instance_of p' = instance_of p"
proof -
  let ?h = "\<lparr>handle_offset = error_offset (call_output p), handle_length = error_length (call_output p)\<rparr>"
  have set: "error_offset (call_output p) \<noteq> 0" "error_length (call_output p) \<noteq> 0" using p(2) by (simp_all add: has_error_def)
  obtain q p1 where q: "on_current (memory_str ?h) p = Some (q, p1)"
    using run set by (auto simp: plugin_error_def Let_def split: option.splits)
  have p1: "call_output p1 = call_output p" "instance_of p1 = instance_of p"
    using q by (auto simp: on_current_def split: option.splits)
  show ?thesis
  proof (cases q)
    case (Done s)
    have "length s = handle_len ?h"
      using q Done by (auto simp: on_current_def memory_str_def memory_bytes_def hbind_def hret_def herr_def
          read_bytes_def split: option.splits if_splits)
    moreover have "0 < handle_len ?h" using set by (simp add: handle_len_def unat_gt_0)
    ultimately have "str_of s \<noteq> []" by (auto simp: str_of_def)
    with run set q Done p1 res show ?thesis
      by (cases res) (auto simp: plugin_error_def Let_def)
  qed (use run set q p1 in \<open>auto simp: plugin_error_def Let_def\<close>)
qed

text \<open>
  A call without the conventions of Extism takes an earlier error for its own: it never succeeds, and
  leaves the position of the error as it was.
\<close>

lemma native_raw_call_fails:
  assumes E: "sandboxed H E" and p: "plugin_fine H p" "has_error p" "tells p"
    and run: "raw_call E n [] False params p = Some (r, vs, p')"
  shows "(\<exists>e c. r = Failed e c \<and> display_error e \<noteq> []) \<and> call_output p' = call_output p \<and> instance_of p' = instance_of p"
proof -
  obtain fs where fs: "instance_of p = Some fs" using p(2) by (auto simp: has_error_def)
  then have inst: "instantiate E p = Some (None, p)" by (simp add: instantiate_def)
  show ?thesis
  proof (cases "get_func p n")
    case None
    with run inst show ?thesis by (auto simp: raw_call_def)
  next
    case (Some f)
    obtain res results p4 where g: "run_guest f params p = Some (res, results, p4)"
      using run inst Some by (auto simp: raw_call_def split: option.splits)
    have mem: "(n, f) \<in> set fs" using Some fs btree_get_mem by (fastforce simp: get_func_def)
    note P4 = run_guest_fine [OF get_func_ok [OF p(1) Some] p(1) g]
    have p4: "call_output p4 = call_output p" "instance_of p4 = instance_of p"
      using g by (auto simp: run_guest_def run_code_def Let_def split: option.splits)
    have e: "display_error e \<noteq> []" if "res = Some e" for e
      using g that p(3) fs mem by (auto simp: run_guest_def run_code_def Let_def tells_def split: option.splits sum.splits) blast
    obtain res' p6 where out: "plugin_error n p4 res = Some (res', p6)"
      "r = final_result res' (return_code False results)" "p' = p6"
      using run inst Some g by (auto simp: raw_call_def Let_def split: option.splits)
    have "cp_fine (current p4)" "has_error p4" using P4 p(2) p4 by (simp_all add: plugin_fine_def has_error_def)
    from plugin_error_set [OF this out(1) e] obtain e' where e': "res' = Some e'" "exit_code e' = None"
      "\<not> interrupted e'" "display_error e' \<noteq> []" "call_output p6 = call_output p" "instance_of p6 = instance_of p"
      using p4 by auto
    then show ?thesis using out(2,3) by (auto simp: final_result_def)
  qed
qed

lemma bytes_of_Nil [simp]: "bytes_of s = [] \<longleftrightarrow> s = []"
  by (simp add: bytes_of_def)

text \<open>The error of a plugin that already has one: the new text takes its place, or the old one stays.\<close>

lemma return_error_has_error:
  assumes p: "has_error p" and t: "t \<noteq> []" "small t" and run: "return_error t x p = Some (y, p')"
  shows "y = x \<and> has_error p' \<and> instance_of p' = instance_of p"
proof -
  have inst: "instance_of p \<noteq> None" using p by (simp add: has_error_def)
  then obtain q p1 where q: "on_current (set_error_msg t) p = Some (q, p1)"
    using run by (auto simp: return_error_def split: option.splits)
  have p1: "call_output p1 = call_output p" "instance_of p1 = instance_of p"
    using q by (auto simp: on_current_def split: option.splits)
  show ?thesis
  proof (cases q)
    case (Done ab)
    obtain a b where ab: "ab = (a, b)" by force
    have "a \<noteq> 0 \<and> b \<noteq> 0"
    proof
      have nz: "(word_of_nat (length t) :: u64) \<noteq> 0"
        using t nat64_eq [of "length t" 0] by (simp add: small_def)
      obtain c where run2: "set_error_msg t (current p) = Some (Done (a, b), c)"
        using q Done ab by (auto simp: on_current_def split: option.splits)
      then show "b \<noteq> 0" using nz by (auto simp: set_error_msg_def hret_def elim!: hbind_DoneE)
      show "a \<noteq> 0"
        using run2 nz t(1) by (auto simp: set_error_msg_def string_to_bytes_def memory_new_def memory_alloc_def
            hret_def herr_def elim!: hbind_DoneE split: if_splits)
    qed
    with run inst q Done ab p1 show ?thesis by (auto simp: return_error_def has_error_def)
  qed (use run inst q p p1 in \<open>auto simp: return_error_def has_error_def\<close>)
qed

lemma native_call_fails:
  assumes E: "sandboxed H E" and p: "plugin_fine H p" "has_error p" "tells p" and n: "length n < 2147483648"
    and texts: "\<forall>e. small (show_host e)"
    and run: "wasm_otoroshi_plugin_call_native E show_host (Some p) n params = Some (results, Some p')"
  shows "results = None \<and> has_error p' \<and> plugin_fine H p' \<and> tells p'"
proof -
  have fine: "plugin_fine H p'" using native_call_lives [OF E texts p(1) n run] by simp
  have told: "tells p'" if "instance_of p' = instance_of p" using that p(3) by (simp add: tells_def)
  show ?thesis
  proof (cases "from_utf8_ok n")
    case False
    with run have A: "return_error (bytes_of ''invalid utf-8'') None p = Some (results, p')"
      by (simp add: wasm_otoroshi_plugin_call_native_def)
    have "small (bytes_of ''invalid utf-8'')" by (simp add: small_def bytes_of_def)
    from return_error_has_error [OF p(2) _ this A] fine told show ?thesis by simp
  next
    case True
    let ?args = "case params of Some vs \<Rightarrow> vs | None \<Rightarrow> []"
    obtain r vs p1 where r: "raw_call E (str_of n) [] False ?args p = Some (r, vs, p1)"
      using run True by (auto simp: wasm_otoroshi_plugin_call_native_def split: option.splits)
    obtain e c where e: "r = Failed e c" "display_error e \<noteq> []" "call_output p1 = call_output p" "instance_of p1 = instance_of p"
      using native_raw_call_fails [OF E p r] by blast
    have sm: "small (display_error e)"
      using raw_call_fine [OF E p(1) small_Nil _ r] e(1) n by (simp add: str_of_def)
    have he: "has_error p1" using p(2) e(3,4) by (simp add: has_error_def)
    have "bytes_of (display_error e) \<noteq> []" "small (bytes_of (display_error e))" using e(2) sm by simp_all
    moreover have "return_error (bytes_of (display_error e)) None p1 = Some (results, p')"
      using run True r e(1) by (auto simp: wasm_otoroshi_plugin_call_native_def split: option.splits)
    ultimately have "results = None \<and> has_error p' \<and> instance_of p' = instance_of p1"
      by (rule return_error_has_error [OF he])
    with e(4) fine told show ?thesis by simp
  qed
qed

section \<open>A failed initialisation\<close>

text \<open>
  The instance is kept before the initialisation of the guest's runtime is tried: when that fails, the
  call fails, but the next one finds an instance and goes on.
\<close>

lemma run_code_keeps_rest:
  "run_code f args p = Some (r, p') \<Longrightarrow> instance_of p' = instance_of p \<and> runtime p' = runtime p \<and>
     store_needs_reset p' = store_needs_reset p"
  by (auto simp: run_code_def split: option.splits)

lemma initialize_keeps_rest:
  assumes "initialize_guest_runtime p = Some (r, p')"
  shows "instance_of p' = instance_of p \<and> store_needs_reset p' = store_needs_reset p"
  using assms
  by (auto simp: initialize_guest_runtime_def Let_def dest!: run_code_keeps_rest
      split: option.splits GuestRuntime.splits sum.splits prod.splits)

lemma failed_initialisation:
  assumes p: "instance_of p = None" "\<not> store_needs_reset p"
    and main: "instantiate_main E (current p) = Some (Inr (fs, None), c)"
    and init: "initialize_guest_runtime (detect_guest_runtime (p\<lparr>current := limiter_reset_in c, instance_of := Some fs,
      instantiations := instantiations p + 1\<rparr>)) = Some (Some e, q)"
  shows "raw_call E n input True [] p = Some (Failed e (-1), [], q)" "instance_of q = Some fs" "\<not> store_needs_reset q"
    "instantiate E q = Some (None, q)"
proof -
  have inst: "instantiate E p = Some (Some e, q)"
    using p(1) main init by (simp add: instantiate_def)
  moreover have "snd (reset_store E p) = p" using p(2) by (simp add: reset_store_def)
  ultimately show "raw_call E n input True [] p = Some (Failed e (-1), [], q)" by (simp add: raw_call_def)
  have "instance_of (detect_guest_runtime x) = instance_of x \<and> store_needs_reset (detect_guest_runtime x) = store_needs_reset x" for x
    by (simp add: detect_guest_runtime_def Let_def split: option.split)
  with initialize_keeps_rest [OF init] p(2) show "instance_of q = Some fs" "\<not> store_needs_reset q" by simp_all
  then show "instantiate E q = Some (None, q)" by (simp add: instantiate_def)
qed

end
