(* ===== verification/Store_Pointers.thy ===== *)
theory Store_Pointers
  imports Native_Call
begin

text \<open>
  The pointers of \<^verbatim>\<open>CurrentPlugin\<close> to the store and the linker of its own plugin, and that of
  \<^verbatim>\<open>PluginMemory\<close> to the store (\<^verbatim>\<open>runtime/src/internal.rs\<close>, the implementations of \<^verbatim>\<open>Internal\<close> in
  \<^verbatim>\<open>current_plugin.rs\<close> and \<^verbatim>\<open>plugin.rs\<close>, and every assignment of them).  Host functions, error
  messages and outputs go through them.  A plugin is a value at an address; moving it leaves the
  pointers behind.  The calls of the other theories are repeated here with the pointers, and with a
  trace of what runs through them.
\<close>

section \<open>Pointers\<close>

text \<open>A pointer to the store or the linker of the plugin at an address.\<close>

datatype place = Nowhere | At nat

record pointers =
  cp_store :: place
  cp_linker :: place
  export_store :: "place option"

definition current_plugin_pointers :: pointers where
  "current_plugin_pointers = \<lparr>cp_store = Nowhere, cp_linker = Nowhere, export_store = None\<rparr>"

definition refresh :: "nat \<Rightarrow> pointers \<Rightarrow> pointers" where
  "refresh a q = q\<lparr>cp_store := At a, cp_linker := At a\<rparr>"

text \<open>\<^verbatim>\<open>build_new\<close> sets the pointers while the plugin is its local variable, at \<open>local\<close>.\<close>

definition build_new_pointers :: "nat \<Rightarrow> pointers" where
  "build_new_pointers local = refresh local current_plugin_pointers"

definition current_linker_and_store :: "pointers \<Rightarrow> place \<times> place" where
  "current_linker_and_store q = (cp_linker q, cp_store q)"

definition plugin_linker_and_store :: "nat \<Rightarrow> place \<times> place" where
  "plugin_linker_and_store a = (At a, At a)"

definition usable :: "nat \<Rightarrow> pointers \<Rightarrow> bool" where
  "usable a q \<longleftrightarrow> current_linker_and_store q = plugin_linker_and_store a"

lemma usable_refresh [simp]: "usable a (refresh b q) \<longleftrightarrow> a = b"
  by (auto simp: usable_def refresh_def current_linker_and_store_def plugin_linker_and_store_def)

lemma usable_export [simp]: "usable a (q\<lparr>export_store := s\<rparr>) = usable a q"
  by (simp add: usable_def current_linker_and_store_def)

section \<open>What runs through the pointers\<close>

datatype access = Start_code | Init_code | Input_block | Guest_code | Error_place | Error_text | Error_report

type_synonym trace = "(access \<times> bool) list"

definition touch :: "access \<Rightarrow> nat \<Rightarrow> pointers \<Rightarrow> access \<times> bool" where
  "touch x a q = (x, usable a q)"

definition reset_store_at :: "runtime_env \<Rightarrow> nat \<Rightarrow> plugin \<Rightarrow> pointers \<Rightarrow> pointers" where
  "reset_store_at E a p q =
     (if \<not> store_needs_reset p then q
      else (let c = current p in
        case current_plugin_new (env_ok E) (dir_ok E) (env_output E) (manifest c) (wasi c \<noteq> None)
               (available_pages c) (kernel_memory c) (linked c) (engine_growth c) of
          Inl e \<Rightarrow> q
        | Inr fresh_plugin \<Rightarrow> refresh a current_plugin_pointers))"

text \<open>The start function of the module runs, then \<^verbatim>\<open>PluginMemory\<close> gets its pointer, then the guest's runtime starts.\<close>

definition instantiate_at :: "runtime_env \<Rightarrow> nat \<Rightarrow> plugin \<Rightarrow> pointers \<Rightarrow> trace \<times> pointers" where
  "instantiate_at E a p q =
     (if instance_of p \<noteq> None then ([], q)
      else (case instantiate_main E (current p) of
              None \<Rightarrow> ([], q)
            | Some (Inl e, c) \<Rightarrow> ([touch Start_code a q], q)
            | Some (Inr (fs, mem), c) \<Rightarrow>
                let q1 = (case mem of Some np \<Rightarrow> q\<lparr>export_store := Some (At a)\<rparr> | None \<Rightarrow> q)
                in ([touch Start_code a q, touch Init_code a q1], q1)))"

text \<open>\<^verbatim>\<open>set_input\<close> clears the error through the plugin's own fields, and then sets the pointers.\<close>

definition set_input_at :: "nat \<Rightarrow> plugin \<Rightarrow> pointers \<Rightarrow> trace \<times> pointers" where
  "set_input_at a p q =
     (case on_current plugin_clear_error (p\<lparr>call_output := output_default\<rparr>) of
        Some (Done u, p1) \<Rightarrow>
          let q1 = refresh a q
          in ((case on_current plugin_reset p1 of Some (Done u, p2) \<Rightarrow> [touch Input_block a q1] | _ \<Rightarrow> []), q1)
      | _ \<Rightarrow> ([], q))"

definition get_output_at :: "nat \<Rightarrow> plugin \<Rightarrow> pointers \<Rightarrow> trace" where
  "get_output_at a p q =
     (case on_current output_memory_position p of
        Some (Done r, p1) \<Rightarrow> [touch Error_place a q]
      | _ \<Rightarrow> [])"

definition plugin_error_at :: "nat \<Rightarrow> plugin \<Rightarrow> pointers \<Rightarrow> trace" where
  "plugin_error_at a p q =
     (if error_offset (call_output p) \<noteq> 0 \<and> error_length (call_output p) \<noteq> 0 then [touch Error_text a q] else [])"

definition raw_call_at ::
    "runtime_env \<Rightarrow> string \<Rightarrow> u8 list \<Rightarrow> bool \<Rightarrow> Val list \<Rightarrow> nat \<Rightarrow> plugin \<Rightarrow> pointers \<Rightarrow>
     (trace \<times> call_result \<times> Val list \<times> plugin \<times> pointers) option" where
  "raw_call_at E n input use_extism params a p0 q0 =
     (let p1 = (if use_extism then snd (reset_store E p0) else p0);
          q1 = (if use_extism then reset_store_at E a p0 q0 else q0);
          (t2, q2) = instantiate_at E a p1 q1
      in case instantiate E p1 of
        None \<Rightarrow> None
      | Some (Some e, p2) \<Rightarrow> Some (t2, Failed e (-1), [], p2, q2)
      | Some (None, p2) \<Rightarrow>
          let (t3, q3) = (if use_extism then set_input_at a p2 q2 else ([], q2))
          in (case (if use_extism then set_input input p2 else Some (Done (), p2)) of
             None \<Rightarrow> None
           | Some (Err e, p3) \<Rightarrow> Some (t2 @ t3, Host_failed e (-1), [], p3, q3)
           | Some (Fault, p3) \<Rightarrow> Some (t2 @ t3, Host_fault, [], p3, q3)
           | Some (Done u, p3) \<Rightarrow>
               (case get_func p3 n of
                  None \<Rightarrow> Some (t2 @ t3, Failed (Text (''Function not found: '' @ n)) (-1), [], p3, q3)
                | Some f \<Rightarrow>
                    if use_extism \<and> 1 < length (f_results f)
                    then Some (t2 @ t3, Failed (Text (''Function '' @ n @ '' has too many results, expected 0 or 1'')) (-1),
                           [], p3, q3)
                    else (case run_guest f (if use_extism then [] else params) p3 of
                            None \<Rightarrow> None
                          | Some (res, results, p4) \<Rightarrow>
                              let raw = (if use_extism then [] else results);
                                  rc = return_code use_extism results;
                                  t4 = t2 @ t3 @ [touch Guest_code a q3];
                                  t5 = t4 @ (if use_extism then get_output_at a p4 q3 else [])
                              in (case (if use_extism then get_output_after_call p4
                                        else Some (Done (), p4)) of
                                    None \<Rightarrow> None
                                  | Some (Err e, p5) \<Rightarrow> Some (t5, Host_failed e (-1), raw, p5, q3)
                                  | Some (Fault, p5) \<Rightarrow> Some (t5, Host_fault, raw, p5, q3)
                                  | Some (Done u, p5) \<Rightarrow>
                                      (case plugin_error n p5 res of
                                         None \<Rightarrow> None
                                       | Some (res', p6) \<Rightarrow>
                                           Some (t5 @ plugin_error_at a p5 q3, final_result res' rc, raw, p6, q3)))))))"

text \<open>The repetition adds the pointers and the trace, and changes nothing else.\<close>

lemma raw_call_at_result:
  "map_option (\<lambda>(t, r, vs, p, q). (r, vs, p)) (raw_call_at E n input use_extism params a p0 q0) =
   raw_call E n input use_extism params p0"
  by (cases use_extism)
    (auto simp: raw_call_at_def raw_call_def Let_def split_def split: option.splits hres.splits if_splits)

section \<open>Calls\<close>

definition return_error_at :: "nat \<Rightarrow> plugin \<Rightarrow> pointers \<Rightarrow> trace" where
  "return_error_at a p q = (if instance_of p = None then [] else [touch Error_report a q])"

definition extism_plugin_call_at ::
    "runtime_env \<Rightarrow> (host_error \<Rightarrow> string) \<Rightarrow> nat \<Rightarrow> plugin \<Rightarrow> pointers \<Rightarrow> u8 list \<Rightarrow> u8 list \<Rightarrow>
     (trace \<times> int \<times> plugin \<times> pointers) option" where
  "extism_plugin_call_at E show_host a p q func_name data =
     (if \<not> from_utf8_ok func_name
      then map_option (\<lambda>(x, p'). (return_error_at a p q, x, p', q)) (return_error (bytes_of ''invalid utf-8'') (-1) p)
      else (case raw_call_at E (str_of func_name) data True [] a p q of
              None \<Rightarrow> None
            | Some (t, Ok x, _, p', q') \<Rightarrow> Some (t, x, p', q')
            | Some (t, Failed e rc, _, p', q') \<Rightarrow>
                map_option (\<lambda>(x, p2). (t @ return_error_at a p' q', x, p2, q'))
                  (return_error (bytes_of (display_error e)) rc p')
            | Some (t, Host_failed e rc, _, p', q') \<Rightarrow>
                map_option (\<lambda>(x, p2). (t @ return_error_at a p' q', x, p2, q'))
                  (return_error (bytes_of (show_host e)) rc p')
            | Some (t, Host_fault, _, p', q') \<Rightarrow> None))"

definition native_call_at ::
    "runtime_env \<Rightarrow> (host_error \<Rightarrow> string) \<Rightarrow> nat \<Rightarrow> plugin \<Rightarrow> pointers \<Rightarrow> u8 list \<Rightarrow> Val list option \<Rightarrow>
     (trace \<times> Val list option \<times> plugin \<times> pointers) option" where
  "native_call_at E show_host a p q func_name params =
     (if \<not> from_utf8_ok func_name
      then map_option (\<lambda>(x, p'). (return_error_at a p q, x, p', q)) (return_error (bytes_of ''invalid utf-8'') None p)
      else (case raw_call_at E (str_of func_name) [] False (case params of Some vs \<Rightarrow> vs | None \<Rightarrow> []) a p q of
              None \<Rightarrow> None
            | Some (t, Ok x, results, p', q') \<Rightarrow> Some (t, Some results, p', q')
            | Some (t, Failed e rc, _, p', q') \<Rightarrow>
                map_option (\<lambda>(x, p2). (t @ return_error_at a p' q', x, p2, q'))
                  (return_error (bytes_of (display_error e)) None p')
            | Some (t, Host_failed e rc, _, p', q') \<Rightarrow>
                map_option (\<lambda>(x, p2). (t @ return_error_at a p' q', x, p2, q'))
                  (return_error (bytes_of (show_host e)) None p')
            | Some (t, Host_fault, _, p', q') \<Rightarrow> None))"

lemma extism_plugin_call_at_result:
  "map_option (\<lambda>(t, x, p', q'). (x, Some p')) (extism_plugin_call_at E show_host a p q n data) =
   extism_plugin_call E show_host (Some p) n data"
  by (simp add: extism_plugin_call_at_def extism_plugin_call_def
      raw_call_at_result [of E "str_of n" data True "[]" a p q, symmetric] option.map_comp o_def
      map_prod_def apsnd_def split_def split: option.split call_result.split prod.split)

lemma native_call_at_result:
  "map_option (\<lambda>(t, x, p', q'). (x, Some p')) (native_call_at E show_host a p q n params) =
   wasm_otoroshi_plugin_call_native E show_host (Some p) n params"
  by (simp add: native_call_at_def wasm_otoroshi_plugin_call_native_def
      raw_call_at_result [of E "str_of n" "[]" False _ a p q, symmetric] option.map_comp o_def
      map_prod_def apsnd_def split_def split: option.split call_result.split prod.split)

lemma trace_usable:
  "(y, ok) \<in> set (get_output_at a p q) \<Longrightarrow> ok = usable a q"
  "(y, ok) \<in> set (plugin_error_at a p q) \<Longrightarrow> ok = usable a q"
  by (auto simp: get_output_at_def plugin_error_at_def touch_def split: if_splits option.splits hres.splits prod.splits)

section \<open>A call through Extism's interface\<close>

lemma clear_error_fine:
  assumes "cp_fine c"
  shows "\<exists>c'. plugin_clear_error c = Some (Done (), c')"
proof -
  have k: "set kernel_exports \<subseteq> set (linked c)" "mem_fine (kernel_memory c)" using assms by (simp_all add: cp_fine_def)
  show ?thesis
  proof (cases "fresh (kernel_memory c)")
    case True
    then have fr: "cp_fresh c" using k(1) by (simp add: cp_fresh_def)
    obtain c' where "plugin_clear_error (warmed c) = Some (Done (), c')"
      using clear_error_run [OF warmed_ok(1) [OF fr]] by blast
    then have "plugin_clear_error c = Some (Done (), c')"
      unfolding plugin_clear_error_def
      by (rule kernel_fn_warmed [OF fr, rotated]) (simp add: fresh_exports)
    then show ?thesis by blast
  next
    case False
    then obtain h where "cp_ok c h" using k by (auto simp: mem_fine_def cp_ok_def)
    then show ?thesis using clear_error_run by blast
  qed
qed

text \<open>Once the plugin is instantiated, the call sets the pointers before anything runs through them.\<close>

lemma set_input_at_usable:
  assumes "cp_fine (current p)" "set_input_at a p q = (t, q')"
  shows "usable a q' \<and> (\<forall>(y, ok) \<in> set t. ok)"
proof -
  obtain c where "plugin_clear_error (current p) = Some (Done (), c)" using clear_error_fine [OF assms(1)] by blast
  with assms(2) show ?thesis
    by (auto simp: set_input_at_def on_current_def touch_def Let_def split: option.splits hres.splits prod.splits)
qed

lemma raw_call_at_usable:
  assumes p: "plugin_fine H p" "instance_of p \<noteq> None"
    and run: "raw_call_at E n input True params a p q = Some (t, r, vs, p', q')"
  shows "usable a q' \<and> (\<forall>(y, ok) \<in> set t. ok)"
proof -
  have stay: "snd (reset_store E p) = p" "reset_store_at E a p q = q"
    "instantiate E p = Some (None, p)" "instantiate_at E a p q = ([], q)"
    using p by (simp_all add: plugin_fine_def reset_store_def reset_store_at_def instantiate_def instantiate_at_def)
  obtain t3 q3 where set: "set_input_at a p q = (t3, q3)" by force
  have ok: "usable a q3" "\<forall>(y, ok) \<in> set t3. ok"
    using set_input_at_usable [OF _ set] p(1) by (simp_all add: plugin_fine_def)
  moreover have "q' = q3 \<and> (\<forall>(y, ok) \<in> set t. (y, ok) \<in> set t3 \<or> ok = usable a q3)"
    using run stay set trace_usable
    by (auto simp: raw_call_at_def touch_def Let_def split: option.splits hres.splits if_splits prod.splits)
  ultimately show ?thesis by blast
qed

section \<open>Native calls\<close>

lemma raw_call_at_native:
  assumes run: "raw_call_at E n input False params a p q = Some (t, r, vs, p', q')"
  shows "usable a q' = usable a q \<and> (\<forall>(y, ok) \<in> set t. ok = usable a q)"
proof -
  obtain t2 q2 where i: "instantiate_at E a p q = (t2, q2)" by force
  have same: "usable a q2 = usable a q" "\<forall>(y, ok) \<in> set t2. ok = usable a q"
    using i by (auto simp: instantiate_at_def touch_def Let_def split: if_splits option.splits sum.splits prod.splits)
  have "q' = q2 \<and> (\<exists>p5. set t \<subseteq> set t2 \<union> {touch Guest_code a q2} \<union> set (plugin_error_at a p5 q2))"
    using run i by (auto simp: raw_call_at_def Let_def split: option.splits if_splits prod.splits)
  with same show ?thesis by (fastforce simp: touch_def plugin_error_at_def split: if_splits)
qed

lemma native_call_at_usable:
  assumes "native_call_at E show_host a p q n params = Some (t, x, p', q')"
  shows "usable a q' = usable a q \<and> (\<forall>(y, ok) \<in> set t. ok = usable a q)"
  using assms
  by (auto simp: native_call_at_def return_error_at_def touch_def
      dest!: raw_call_at_native split: if_splits option.splits call_result.splits prod.splits)

text \<open>A sequence of native calls, with the trace of all of them.\<close>

fun native_calls_at ::
    "runtime_env \<Rightarrow> (host_error \<Rightarrow> string) \<Rightarrow> nat \<Rightarrow> (u8 list \<times> Val list option) list \<Rightarrow> plugin \<Rightarrow> pointers \<Rightarrow>
     (trace \<times> plugin \<times> pointers) option" where
  "native_calls_at E show_host a [] p q = Some ([], p, q)"
| "native_calls_at E show_host a ((n, params) # cs) p q =
     (case native_call_at E show_host a p q n params of
        None \<Rightarrow> None
      | Some (t, x, p1, q1) \<Rightarrow>
          map_option (\<lambda>(t2, p2, q2). (t @ t2, p2, q2)) (native_calls_at E show_host a cs p1 q1))"

lemma native_calls_at_usable:
  assumes "native_calls_at E show_host a cs p q = Some (t, p', q')"
  shows "usable a q' = usable a q \<and> (\<forall>(y, ok) \<in> set t. ok = usable a q)"
  using assms
proof (induction cs arbitrary: p q t)
  case (Cons c cs)
  obtain n params where c: "c = (n, params)" by force
  obtain t1 x p1 q1 t2 where *: "native_call_at E show_host a p q n params = Some (t1, x, p1, q1)"
    "native_calls_at E show_host a cs p1 q1 = Some (t2, p', q')" "t = t1 @ t2"
    using Cons.prems by (auto simp: c split: option.splits)
  with native_call_at_usable [OF *(1)] Cons.IH [OF *(2)] show ?case by auto
qed simp

lemma trace_kinds:
  "(y, ok) \<in> set t \<Longrightarrow> set_input_at a p q = (t, q') \<Longrightarrow> y = Input_block"
  "(y, ok) \<in> set (get_output_at a p q) \<Longrightarrow> y = Error_place"
  "(y, ok) \<in> set (plugin_error_at a p q) \<Longrightarrow> y = Error_text"
  by (auto simp: set_input_at_def get_output_at_def plugin_error_at_def touch_def Let_def
      split: if_splits option.splits hres.splits prod.splits)

text \<open>The instantiation in the first call through Extism's interface comes before the pointers are set.\<close>

lemma instantiation_at_usable:
  assumes "raw_call_at E n input True params a p q = Some (t, r, vs, p', q')" "\<not> store_needs_reset p"
    and "(y, ok) \<in> set t" "y \<in> {Start_code, Init_code}"
  shows "ok = usable a q"
proof -
  obtain t2 q2 where i: "instantiate_at E a p q = (t2, q2)" by force
  have stay: "snd (reset_store E p) = p" "reset_store_at E a p q = q"
    using assms(2) by (simp_all add: reset_store_def reset_store_at_def)
  have same: "\<forall>(y, ok) \<in> set t2. ok = usable a q"
    using i by (auto simp: instantiate_at_def touch_def Let_def split: if_splits option.splits sum.splits prod.splits)
  have "(y, ok) \<in> set t2"
    using assms(1,3,4) stay i trace_kinds
    by (fastforce simp: raw_call_at_def touch_def Let_def split: option.splits hres.splits if_splits prod.splits)
  with same show ?thesis by blast
qed

end
