(* ===== verification/Demo_Life.thy ===== *)
theory Demo_Life
  imports Demo_Build Store_Pointers
begin

text \<open>
  The guest of the demonstrations runs in the sandbox: its code is three calls of the kernel.  Its
  plugin, from the construction to the end of the first call; native calls before and after an error;
  a guest whose initialisation fails.
\<close>

lemma growth_verdict_memory: "growth_verdict (c\<lparr>kernel_memory := m\<rparr>) = growth_verdict c"
  by (intro ext) (simp add: growth_verdict_def split: option.split limiter_answer.split)

lemma charge_same: "charge a a l = l"
  by (cases l) (simp_all add: charge_def memory_growing_def)

lemma same_pages_step:
  assumes "''memory'' \<in> set (linked c)"
    and "f ((kernel_memory c)\<lparr>growth := growth_verdict c\<rparr>) = Some (Ret (x, m))" "pages m = pages (kernel_memory c)"
  shows "kernel_fn ''memory'' e f c = Some (Done x, c\<lparr>kernel_memory := m\<rparr>)"
  using assms charge_same [of "pages (kernel_memory c)" "memory_limiter c"] by (simp add: kernel_fn_def)

text \<open>Reading the registers and setting the output, step by step and at once.\<close>

lemma echo_guest_run:
  assumes fine: "cp_fine c" and fr: "heap_repr m h"
    and m: "(kernel_memory c)\<lparr>growth := growth_verdict c\<rparr> = m0" "growth m = growth_verdict c"
    and start: "m0 = m \<or> fresh m0 \<and> m = initialised m0"
    and run: "echo_kernel m = Some (Ret ((), m'))" and pg: "pages m' = pages m" "pages m = pages m0"
  shows "guest_run H c (c\<lparr>kernel_memory := m'\<rparr>)"
proof -
  have mem: "''memory'' \<in> set (linked c)" using fine by (auto simp: cp_fine_def kernel_exports_def)
  let ?c1 = "c\<lparr>kernel_memory := m\<rparr>"
  have gv: "growth_verdict (c\<lparr>kernel_memory := x\<rparr>) = growth_verdict c" for x by (rule growth_verdict_memory)
  have off: "k_input_offset m0 = Some (Ret (h_input_offset h, m))"
    using start k_getters(2) [OF fr] fresh_exports(9) [of m0] by auto
  have "kernel_fn ''memory'' No_memory (kernel_read Input_offset) c = Some (Done (h_input_offset h), ?c1)"
    by (rule same_pages_step [OF mem]) (use off m(1) pg(2) in auto)
  then have s1: "guest_step H c ?c1" by (rule guest_read)
  have same: "(kernel_memory ?c1)\<lparr>growth := growth_verdict ?c1\<rparr> = m" using m(2) gv by simp
  have "k_input_offset m = Some (Ret (h_input_offset h, m))" "k_input_length m = Some (Ret (h_input_length h, m))"
    using k_getters [OF fr] by simp_all
  then have out: "k_output_set (h_input_offset h) (h_input_length h) m = Some (Ret ((), m'))"
    using run by (simp add: echo_kernel_def wbind_apply)
  have "kernel_fn ''memory'' No_memory (kernel_call (Output_set (h_input_offset h) (h_input_length h))) ?c1 =
      Some (Done 0, ?c1\<lparr>kernel_memory := m'\<rparr>)"
    by (rule same_pages_step) (use mem out same pg(1) in \<open>simp_all add: wthen_apply wbind_apply wret_apply\<close>)
  moreover have "heap_of (kernel_memory ?c1) h" using fr by (simp add: heap_of_def)
  ultimately have "guest_step H ?c1 (?c1\<lparr>kernel_memory := m'\<rparr>)"
    by (intro guest_kernel [of ?c1 h "Output_set (h_input_offset h) (h_input_length h)"]) simp_all
  with s1 show ?thesis by simp
qed

lemma echo_code_ok: "code_ok H echo_func"
proof -
  have "guest_run H c c'" if fine: "cp_fine c" and run: "echo_code args c = Some (r, c')" for args c r c'
  proof -
    let ?c = "c\<lparr>linked := ''output_set'' # linked c\<rparr>"
    let ?m0 = "(kernel_memory c)\<lparr>growth := growth_verdict c\<rparr>"
    have gv: "growth_verdict ?c = growth_verdict c" by (intro ext) (simp add: growth_verdict_def split: option.split limiter_answer.split)
    define m where "m = (if fresh ?m0 then initialised ?m0 else ?m0)"
    have "mem_fine ?m0" using fine by (simp add: cp_fine_def)
    then have "\<exists>h. heap_repr m h"
      using initialised_fresh(2) [of ?m0] unfolding m_def mem_fine_def by (cases "fresh ?m0") auto
    then obtain h where h: "heap_repr m h" by blast
    have g: "growth m = growth_verdict c" using initialised_fresh(3) [of ?m0] by (simp add: m_def)
    have pg: "pages m = pages ?m0" using initialised_growth(2) [of ?m0] by (simp add: m_def)
    have "echo_kernel ?m0 = echo_kernel m"
      using fresh_exports(9) [of ?m0] by (simp add: m_def echo_kernel_def wbind_apply)
    moreover obtain m' h' where m': "echo_kernel m = Some (Ret ((), m'))" "heap_repr m' h'"
      and h': "h' = heap_output_set (h_input_offset h) (h_input_length h) h"
      using echo_kernel_run [OF h] by (auto simp: run_agrees_def)
    moreover have "pages m' = pages m"
      using heap_reprD(2) [OF h] heap_reprD(2) [OF m'(2)] by (simp add: h' heap_output_set_def)
    ultimately have "c' = c\<lparr>kernel_memory := m'\<rparr>"
      using run gv pg charge_same [of "pages (kernel_memory c)" "memory_limiter c"]
      by (auto simp: echo_code_def kernel_fn_def)
    with echo_guest_run [OF fine h refl g _ m'(1) \<open>pages m' = pages m\<close> pg] show ?thesis by (auto simp: m_def)
  qed
  moreover have "small (display_error (Text ''trap''))" by (simp add: small_def)
  ultimately show ?thesis
    by (auto simp: code_ok_def echo_func_def) (auto simp: echo_code_def split: option.splits hres.splits prod.splits)
qed

lemma echo_sandboxed: "sandboxed H echo_env"
  using echo_code_ok by (simp add: sandboxed_def echo_env_def)

text \<open>The construction and the first call of the echoing plugin.\<close>

lemma demo_c_call:
  "\<exists>b q. plugin_new demo_engine 1 (Input_data demo_wasm) [] False = Inr b \<and>
     extism_plugin_call echo_env (\<lambda>e. []) (Some (base b)) (bytes_of ''echo'') [104, 105] = Some (0, Some q)"
proof -
  obtain b where b: "plugin_new demo_engine 1 (Input_data demo_wasm) [] False = Inr b" using demo_plugin_new by blast
  have gs: "instantiate_main echo_env (current (base b)) = Some (Inr ([(''echo'', echo_func)], None), current (base b))"
    "\<forall>x \<in> set entry_points. btree_get [(''echo'', echo_func)] x = None"
    "btree_get [(''echo'', echo_func)] ''echo'' = Some echo_func"
    by (simp_all add: echo_env_def entry_points_def)
  have fresh: "cp_fresh (current (base b))"
    using build_new_linked [OF b [unfolded plugin_new_def] demo_kernel_ships] by (simp add: memory_keys_def)
  have "instance_of (base b) = None" "runtime (base b) = None" "\<not> store_needs_reset (base b)"
    using b [unfolded plugin_new_def] by (auto elim: build_new_InrD)
  from first_echo_call [OF fresh this gs(1) fresh gs(2,3), of "[104, 105]"]
  obtain q where "raw_call echo_env ''echo'' [104, 105] True [] (base b) = Some (Ok 0, [], q)" by auto
  moreover have "from_utf8_ok (bytes_of ''echo'')" by (simp add: bytes_of_def from_utf8_ascii)
  ultimately show ?thesis using b by (auto simp: extism_plugin_call_def)
qed

lemma demo_config:
  assumes "plugin_new demo_engine 1 (Input_data demo_wasm) [] False = Inr b"
  shows "config (manifest (current (base b))) = []"
proof -
  have "load demo_loader (Input_data demo_wasm) =
      Inr (manifest_default, [(EXTISM_ENV_MODULE, [0]), (MAIN_KEY, demo_wasm)])"
    by (simp add: load_def module_new_def demo_loader_def demo_wasm_def WASM_MAGIC_def is_wat_def Let_def
        MAIN_KEY_def EXTISM_ENV_MODULE_def less_char_def)
  then have load: "load (en_loader demo_engine) (Input_data demo_wasm) =
      Inr (manifest_default, [(EXTISM_ENV_MODULE, [0]), (MAIN_KEY, demo_wasm)])" by (simp add: demo_engine_def)
  obtain m cp where m: "load (en_loader demo_engine) (Input_data demo_wasm) = Inr (m, module_map b)"
    "current_plugin_new (en_env_ok demo_engine) (en_dir_ok demo_engine) (en_output demo_engine) m False
       (max_pages (memory m)) (kernel_instance demo_engine) [] (en_growth demo_engine) = Inr cp"
    "manifest (current (base b)) = manifest cp"
    using assms [unfolded plugin_new_def] by (auto elim!: build_new_InrD)
  then have "manifest cp = m" by (auto simp: current_plugin_new_def)
  moreover have "m = manifest_default" using m(1) load by simp
  ultimately show ?thesis using m(3) by (simp add: manifest_default_def)
qed

section \<open>Native calls\<close>

lemma demo_plugin_fine: "plugin_fine H demo_plugin"
proof -
  have "mem_fine (kernel_memory demo_cp)" using demo_cp_ok(1) by (auto simp: cp_ok_def mem_fine_def)
  then have "cp_fine demo_cp"
    by (simp add: cp_fine_def demo_cp_def vars_fine_def demo_manifest_def small_def var_limit_def btree_ok_def)
  then show ?thesis using echo_code_ok by (simp add: plugin_fine_def demo_plugin_def)
qed

lemma echo_tells: "tells demo_plugin"
  by (auto simp: tells_def demo_plugin_def echo_func_def echo_code_def split: option.splits hres.splits prod.splits)

lemma echo_total:
  assumes "cp_ok c h"
  shows "\<exists>c' h'. echo_code args c = Some (Inr [I32 0], c') \<and> cp_ok c' h'"
proof -
  let ?c = "c\<lparr>linked := ''output_set'' # linked c\<rparr>"
  let ?m = "(kernel_memory ?c)\<lparr>growth := growth_verdict ?c\<rparr>"
  have ok: "cp_ok ?c h" using assms by (auto simp: cp_ok_def)
  have "run_agrees h ?m (echo_kernel ?m) () (heap_output_set (h_input_offset h) (h_input_length h) h)"
    using echo_kernel_run [of ?m h] cp_okD(1) [OF ok] by simp
  from kernel_fn_agrees [where f = echo_kernel and n = "''output_set''", OF ok _ this]
  obtain c1 where c1: "kernel_fn ''output_set'' (Kernel_missing ''output_set'') echo_kernel ?c = Some (Done (), c1)"
    "cp_ok c1 (heap_output_set (h_input_offset h) (h_input_length h) h)" by auto
  have "echo_code args c = Some (Inr [I32 0], c1\<lparr>linked := linked c\<rparr>)" using c1(1) by (simp add: echo_code_def)
  moreover have "cp_ok (c1\<lparr>linked := linked c\<rparr>) (heap_output_set (h_input_offset h) (h_input_length h) h)"
    using c1(2) assms by (simp add: cp_ok_def)
  ultimately show ?thesis by blast
qed

lemma return_error_total:
  assumes "cp_ok (current p) h" "t \<noteq> []" "small t"
  shows "\<exists>q. return_error t x p = Some (x, q)"
  using set_error_msg_run [OF assms(1,2)] assms(3)
  by (auto simp: return_error_def on_current_def small_def split: option.split hres.split)

lemma plugin_error_total: "\<exists>res' p'. plugin_error n p res = Some (res', p') \<and> current p' = current p"
  by (auto simp: plugin_error_def Let_def on_current_def memory_str_def memory_bytes_def hbind_def hret_def herr_def
      split: option.splits hres.splits prod.splits)

lemma utf8_names: "from_utf8_ok (bytes_of ''echo'')" "from_utf8_ok (bytes_of ''none'')"
  by (simp_all add: bytes_of_def from_utf8_ascii)

text \<open>The plugin has no function \<^verbatim>\<open>none\<close>: the call leaves its message in the plugin.\<close>

lemma demo_native_error:
  obtains p1 h where "wasm_otoroshi_plugin_call_native echo_env (\<lambda>e. []) (Some demo_plugin) (bytes_of ''none'') None =
      Some (None, Some p1)" "cp_ok (current p1) h" "instance_of p1 = Some [(''echo'', echo_func)]"
    "has_error p1" "tells p1" "\<And>H. plugin_fine H p1"
proof -
  define s where "s = bytes_of ''Function not found: none''"
  have s: "s \<noteq> []" "length s < 4294967296" "0 < length s" "length s < 65000" by (simp_all add: s_def bytes_of_def)
  have ok: "cp_ok (current demo_plugin) (heap_init 16)" using demo_cp_ok(1) by (simp add: demo_plugin_def)
  obtain c h where c: "set_error_msg s (current demo_plugin) = Some (Done (h_error h, word_of_nat (length s)), c)"
    "cp_ok c h" "holds c h (h_error h) s"
    using set_error_msg_run [OF ok s(1,2)] demo_take [OF s(3,4)] by auto
  let ?p1 = "demo_plugin\<lparr>current := c, call_output := output_default\<lparr>error_offset := h_error h,
    error_length := word_of_nat (length s)\<rparr>\<rparr>"
  have "raw_call echo_env ''none'' [] False [] demo_plugin =
      Some (Failed (Text ''Function not found: none'') (-1), [], demo_plugin)"
    by (simp add: raw_call_def instantiate_def get_func_def demo_plugin_def)
  moreover have "return_error s None demo_plugin = Some (None, ?p1)"
    using c(1) by (simp add: return_error_def on_current_def demo_plugin_def)
  ultimately have call: "wasm_otoroshi_plugin_call_native echo_env (\<lambda>e. []) (Some demo_plugin) (bytes_of ''none'') None =
      Some (None, Some ?p1)"
    by (simp add: wasm_otoroshi_plugin_call_native_def s_def utf8_names)
  have "(word_of_nat (length s) :: u64) \<noteq> 0" using nat64_eq [of "length s" 0] s by simp
  moreover have "h_error h \<noteq> 0" using c(3) s(1) by (simp add: holds_def)
  ultimately have err: "has_error ?p1" by (simp add: has_error_def demo_plugin_def)
  have "plugin_fine H ?p1" for H
    using native_call_lives [OF echo_sandboxed _ demo_plugin_fine _ call] by (simp add: bytes_of_def small_def)
  moreover have "tells ?p1" using echo_tells by (simp add: tells_def)
  ultimately show ?thesis using that [OF call _ _ err] c(2) by (simp add: demo_plugin_def)
qed

lemma demo_native_again:
  assumes p: "cp_ok (current p) h" "instance_of p = Some [(''echo'', echo_func)]" "has_error p" "tells p" "plugin_fine H p"
  shows "\<exists>r p2. wasm_otoroshi_plugin_call_native echo_env (\<lambda>e. []) (Some p) (bytes_of ''echo'') None = Some (r, Some p2)"
proof -
  have f: "get_func p ''echo'' = Some echo_func" "instantiate echo_env p = Some (None, p)"
    using p(2) by (simp_all add: get_func_def instantiate_def)
  obtain c h' where c: "echo_code [] (current p) = Some (Inr [I32 0], c)" "cp_ok c h'" using echo_total [OF p(1)] by blast
  obtain p4 where g: "run_guest echo_func [] p = Some (None, [I32 0], p4)" "current p4 = c"
    using c(1) by (simp add: run_guest_def run_code_def echo_func_def)
  obtain res p6 where e: "plugin_error ''echo'' p4 None = Some (res, p6)" "current p6 = c"
    using plugin_error_total [of "''echo''" p4 None] g(2) by auto
  have raw: "raw_call echo_env ''echo'' [] False [] p = Some (final_result res 0, [I32 0], p6)"
    using f g e by (simp add: raw_call_def return_code_def)
  obtain e' x where F: "final_result res 0 = Failed e' x" "display_error e' \<noteq> []"
    using native_raw_call_fails [OF echo_sandboxed p(5,3,4) raw] by blast
  have "small (display_error e')" using raw_call_fine [OF echo_sandboxed p(5) small_Nil _ raw] F(1) by simp
  then obtain q where "return_error (bytes_of (display_error e')) None p6 = Some (None :: Val list option, q)"
    using return_error_total [where t = "bytes_of (display_error e')" and p = p6 and x = None] c(2) e(2) F(2) by auto
  with raw F(1) show ?thesis
    by (simp add: wasm_otoroshi_plugin_call_native_def utf8_names)
qed

lemma demo_native_echo:
  "\<exists>p3. wasm_otoroshi_plugin_call_native echo_env (\<lambda>e. []) (Some demo_plugin) (bytes_of ''echo'') None =
     Some (Some [I32 0], Some p3)"
proof -
  have ok: "cp_ok (current demo_plugin) (heap_init 16)" using demo_cp_ok(1) by (simp add: demo_plugin_def)
  obtain c h where c: "echo_code [] (current demo_plugin) = Some (Inr [I32 0], c)" using echo_total [OF ok] by blast
  have "get_func demo_plugin ''echo'' = Some echo_func" "instantiate echo_env demo_plugin = Some (None, demo_plugin)"
    by (simp_all add: get_func_def instantiate_def demo_plugin_def)
  moreover obtain p4 where "run_guest echo_func [] demo_plugin = Some (None, [I32 0], p4)" "call_output p4 = output_default"
    using c by (simp add: run_guest_def run_code_def echo_func_def demo_plugin_def)
  ultimately have "raw_call echo_env ''echo'' [] False [] demo_plugin = Some (Ok 0, [I32 0], p4)"
    by (simp add: raw_call_def return_code_def plugin_error_def output_default_def final_result_def)
  then show ?thesis by (simp add: wasm_otoroshi_plugin_call_native_def utf8_names)
qed

section \<open>A guest whose initialisation fails\<close>

definition idle_plugin :: plugin where
  "idle_plugin = demo_plugin\<lparr>instance_of := None, instantiations := 0\<rparr>"

definition broken_init :: guest_func where
  "broken_init = \<lparr>f_params = [], f_results = [], f_code = (\<lambda>args c. Some (Inl (Text ''boom''), c))\<rparr>"

definition broken_exports :: "(string, guest_func) btree" where
  "broken_exports = [(''_initialize'', broken_init), (''echo'', echo_func)]"

definition broken_env :: runtime_env where
  "broken_env = demo_env\<lparr>instantiate_main := (\<lambda>c. Some (Inr (broken_exports, None), c))\<rparr>"

lemma broken_initialisation:
  "initialize_guest_runtime (detect_guest_runtime (idle_plugin\<lparr>current := limiter_reset_in demo_cp,
     instance_of := Some broken_exports, instantiations := instantiations idle_plugin + 1\<rparr>)) =
   Some (Some (Text ''boom''), idle_plugin\<lparr>current := limiter_reset_in demo_cp, instance_of := Some broken_exports,
     instantiations := 1, runtime := Some (Wasi_runtime broken_init)\<rparr>)"
  by (simp add: detect_guest_runtime_def get_func_def broken_exports_def nullary_def broken_init_def
      initialize_guest_runtime_def run_code_def idle_plugin_def)

text \<open>The idle plugin, moved from address 7 to 2, and called natively.\<close>

lemma demo_idle_native:
  "\<exists>p1 h. native_call_at echo_env (\<lambda>e. []) 2 idle_plugin (build_new_pointers 7) (bytes_of ''echo'') None =
      Some ([(Start_code, False), (Init_code, False), (Guest_code, False)], Some [I32 0], p1, build_new_pointers 7) \<and>
     instance_of p1 = Some [(''echo'', echo_func)] \<and> cp_ok (current p1) h \<and> \<not> store_needs_reset p1"
proof -
  let ?p = "idle_plugin\<lparr>current := limiter_reset_in demo_cp, instance_of := Some [(''echo'', echo_func)], instantiations := 1\<rparr>"
  have ok: "cp_ok (current ?p) (heap_init 16)" using demo_cp_ok(1) by (simp add: limiter_reset_in_def cp_ok_def)
  have i: "instantiate echo_env idle_plugin = Some (None, ?p)"
    by (simp add: instantiate_def echo_env_def idle_plugin_def demo_plugin_def detect_guest_runtime_def
        initialize_guest_runtime_def get_func_def)
  obtain c h where c: "echo_code [] (current ?p) = Some (Inr [I32 0], c)" "cp_ok c h" using echo_total [OF ok] by blast
  have f: "get_func ?p ''echo'' = Some echo_func" by (simp add: get_func_def)
  obtain p4 where g: "run_guest echo_func [] ?p = Some (None, [I32 0], p4)" "current p4 = c" "call_output p4 = output_default"
    "instance_of p4 = Some [(''echo'', echo_func)]" "\<not> store_needs_reset p4"
    using c(1) by (simp add: run_guest_def run_code_def echo_func_def idle_plugin_def demo_plugin_def)
  have "\<not> usable 2 (build_new_pointers 7)" by (simp add: build_new_pointers_def)
  moreover have "instantiate_at echo_env 2 idle_plugin (build_new_pointers 7) =
      ([touch Start_code 2 (build_new_pointers 7), touch Init_code 2 (build_new_pointers 7)], build_new_pointers 7)"
    by (simp add: instantiate_at_def echo_env_def idle_plugin_def Let_def)
  ultimately have "raw_call_at echo_env ''echo'' [] False [] 2 idle_plugin (build_new_pointers 7) =
      Some ([(Start_code, False), (Init_code, False), (Guest_code, False)], Ok 0, [I32 0], p4, build_new_pointers 7)"
    using i f g by (simp add: raw_call_at_def return_code_def plugin_error_def plugin_error_at_def output_default_def
        final_result_def touch_def)
  then have "native_call_at echo_env (\<lambda>e. []) 2 idle_plugin (build_new_pointers 7) (bytes_of ''echo'') None =
      Some ([(Start_code, False), (Init_code, False), (Guest_code, False)], Some [I32 0], p4, build_new_pointers 7)"
    by (simp add: native_call_at_def utf8_names)
  with g c(2) show ?thesis by auto
qed

end
