(* ===== verification/Ownership.thy ===== *)
theory Ownership
  imports C_Laws Otoroshi_Api "HOL-Library.Multiset"
begin

text \<open>
  Who owns the functions of an embedder in C, and when the cleanup of their user data runs:
  \<^verbatim>\<open>extism_function_new\<close>, \<^verbatim>\<open>extism_function_free\<close>, \<^verbatim>\<open>extism_plugin_new\<close> and \<^verbatim>\<open>extism_plugin_free\<close>
  (\<^verbatim>\<open>runtime/src/sdk.rs\<close>), the reference counts and \<^verbatim>\<open>Drop\<close> of \<^verbatim>\<open>CPtr\<close> (\<^verbatim>\<open>runtime/src/function.rs\<close>).
\<close>

section \<open>Dropping a function\<close>

text \<open>An \<^verbatim>\<open>Arc<CPtr>\<close>: how many references there are, and what they share.\<close>

type_synonym c_arc = "nat \<times> CPtr"

definition arc_new :: "CPtr \<Rightarrow> c_arc" where
  "arc_new p = (1, p)"

definition arc_clone :: "c_arc \<Rightarrow> c_arc" where
  "arc_clone a = (fst a + 1, snd a)"

definition arc_drop :: "c_arc \<Rightarrow> nat list \<times> c_arc" where
  "arc_drop a = (if fst a = 1 then (case cptr_drop (snd a) of (calls, p) \<Rightarrow> (calls, (0, p))) else ([], (fst a - 1, snd a)))"

text \<open>
  \<^verbatim>\<open>Function::new\<close> clones the user data for the closure and for \<^verbatim>\<open>_user_data\<close>, and drops its argument;
  the call of a function clones it and drops the clone; a function that is dropped drops its closure
  and then its \<^verbatim>\<open>_user_data\<close>.
\<close>

definition function_arc :: "CPtr \<Rightarrow> nat list \<times> c_arc" where
  "function_arc p = arc_drop (arc_clone (arc_clone (arc_new p)))"

definition function_call_arc :: "c_arc \<Rightarrow> nat list \<times> c_arc" where
  "function_call_arc a = arc_drop (arc_clone a)"

definition function_drop :: "Function \<Rightarrow> nat list" where
  "function_drop f =
     (case fn_user_data f of
        Handle_Rust \<Rightarrow> []
      | Handle_C p \<Rightarrow>
          (case arc_drop (snd (function_arc p)) of (calls, a) \<Rightarrow> calls @ fst (arc_drop a)))"

lemma function_arc_kept: "function_arc p = ([], (2, p))" "0 < fst a \<Longrightarrow> function_call_arc a = ([], a)"
  by (simp_all add: function_arc_def function_call_arc_def arc_drop_def arc_clone_def arc_new_def split_def)

lemma function_drop_calls:
  "function_drop f =
     (case fn_user_data f of Handle_C p \<Rightarrow> if c_ptr p \<noteq> 0 \<and> has_free p then [c_ptr p] else [] | Handle_Rust \<Rightarrow> [])"
  by (simp add: function_drop_def function_arc_kept arc_drop_def cptr_drop_def split: UserDataHandle.split)

lemma function_drop_namespace [simp]: "function_drop (set_namespace ns f) = function_drop f"
  by (simp add: function_drop_def set_namespace_def)

section \<open>The objects of the embedder\<close>

text \<open>
  Boxes of functions and of plugins by their addresses, and the calls of cleanup functions so far.
\<close>

record 'm c_world =
  boxes :: "(nat, Function option) btree"
  running :: "(nat, 'm built) btree"
  released :: "nat list"

definition world_init :: "'m c_world" where
  "world_init = \<lparr>boxes = [], running = [], released = []\<rparr>"

text \<open>A free of what is not allocated is undefined in C, and \<open>None\<close> here.\<close>

definition extism_function_free :: "nat option \<Rightarrow> 'm c_world \<Rightarrow> 'm c_world option" where
  "extism_function_free f w =
     (case f of
        None \<Rightarrow> Some w
      | Some i \<Rightarrow>
          (case btree_get (boxes w) i of
             None \<Rightarrow> None
           | Some cell \<Rightarrow>
               Some (w\<lparr>boxes := btree_remove i (boxes w),
                       released := released w @ (case cell of Some f \<Rightarrow> function_drop f | None \<Rightarrow> [])\<rparr>)))"

text \<open>A plugin that is dropped drops its functions.\<close>

definition extism_plugin_free :: "nat option \<Rightarrow> 'm c_world \<Rightarrow> 'm c_world option" where
  "extism_plugin_free p w =
     (case p of
        None \<Rightarrow> Some w
      | Some a \<Rightarrow>
          (case btree_get (running w) a of
             None \<Rightarrow> None
           | Some b \<Rightarrow>
               Some (w\<lparr>running := btree_remove a (running w),
                       released := released w @ concat (map function_drop (host_functions b))\<rparr>)))"

definition cells_of :: "(nat, Function option) btree \<Rightarrow> cells" where
  "cells_of bs i = (case btree_get bs i of Some cell \<Rightarrow> cell | None \<Rightarrow> None)"

text \<open>
  What is left of a construction: the cells are empty, and the functions taken from them belong to
  the plugin, or are dropped when there is none.
\<close>

definition keep_plugin ::
    "nat \<Rightarrow> nat option list \<Rightarrow> ('m built option \<times> errmsg_text option \<times> cells) option \<Rightarrow> 'm c_world \<Rightarrow> 'm c_world option" where
  "keep_plugin a functions result w =
     (case result of
        None \<Rightarrow> None
      | Some (r, msg, c') \<Rightarrow>
          let w1 = w\<lparr>boxes := map (\<lambda>(i, x). (i, c' i)) (boxes w)\<rparr>
          in (case r of
                None \<Rightarrow>
                  Some (w1\<lparr>released := released w @
                    concat (map function_drop (fst (take_functions functions (cells_of (boxes w)))))\<rparr>)
              | Some b \<Rightarrow>
                  if contains_key (running w) a then None
                  else Some (w1\<lparr>running := btree_insert a b (running w)\<rparr>)))"

text \<open>
  What the embedder may do: the allocator gives addresses that are not in use, the arrays name
  functions that exist, and calls may change the state of a plugin in any way.
\<close>

datatype 'm c_op =
    Function_new nat "u8 list" "ExtismType list" "ExtismType list" c_function nat bool
  | Function_set_namespace nat "u8 list"
  | Function_free "nat option"
  | Plugin_new nat nat "u8 list" "nat option list" bool bool
  | Plugin_new_with_memories nat nat "u8 list" "nat option list" "WasmMemory option list" bool bool
  | Plugin_use nat plugin
  | Plugin_free "nat option"

fun c_step :: "'m engine \<Rightarrow> (u8 list \<Rightarrow> string) \<Rightarrow> 'm c_op \<Rightarrow> 'm c_world \<Rightarrow> 'm c_world option" where
  "c_step E lossy (Function_new i n ins outs func user_data has_free_fn) w =
     (case extism_function_new n ins outs func user_data has_free_fn of
        None \<Rightarrow> Some w
      | Some f \<Rightarrow>
          if contains_key (boxes w) i then None
          else Some (w\<lparr>boxes := btree_insert i (Some f) (boxes w)\<rparr>))"
| "c_step E lossy (Function_set_namespace i ns) w =
     map_option (\<lambda>cell. w\<lparr>boxes := btree_insert i (extism_function_set_namespace lossy ns cell) (boxes w)\<rparr>)
       (btree_get (boxes w) i)"
| "c_step E lossy (Function_free f) w = extism_function_free f w"
| "c_step E lossy (Plugin_new uuid a data functions with_wasi has_errmsg) w =
     (if \<exists>i \<in> set (named functions). \<not> contains_key (boxes w) i then None
      else keep_plugin a functions
             (extism_plugin_new E uuid data functions with_wasi has_errmsg (cells_of (boxes w))) w)"
| "c_step E lossy (Plugin_new_with_memories uuid a data functions mems with_wasi has_errmsg) w =
     (if \<exists>i \<in> set (named functions). \<not> contains_key (boxes w) i then None
      else keep_plugin a functions
             (extism_plugin_new_with_memories E uuid data functions mems with_wasi has_errmsg (cells_of (boxes w))) w)"
| "c_step E lossy (Plugin_use a p) w =
     map_option (\<lambda>b. w\<lparr>running := btree_insert a (b\<lparr>base := p\<rparr>) (running w)\<rparr>) (btree_get (running w) a)"
| "c_step E lossy (Plugin_free p) w = extism_plugin_free p w"

fun c_run :: "'m engine \<Rightarrow> (u8 list \<Rightarrow> string) \<Rightarrow> 'm c_op list \<Rightarrow> 'm c_world \<Rightarrow> 'm c_world option" where
  "c_run E lossy [] w = Some w"
| "c_run E lossy (x # xs) w = (case c_step E lossy x w of None \<Rightarrow> None | Some w1 \<Rightarrow> c_run E lossy xs w1)"

section \<open>Accounting\<close>

text \<open>The user data that was handed over with a cleanup function, and that which still has an owner.\<close>

fun handed_over :: "'m c_op \<Rightarrow> nat list" where
  "handed_over (Function_new i n ins outs func user_data has_free_fn) =
     (if from_utf8_ok n \<and> user_data \<noteq> 0 \<and> has_free_fn then [user_data] else [])"
| "handed_over _ = []"

definition cell_drop :: "Function option \<Rightarrow> nat list" where
  "cell_drop c = (case c of Some f \<Rightarrow> function_drop f | None \<Rightarrow> [])"

definition built_drop :: "'m built \<Rightarrow> nat list" where
  "built_drop b = concat (map function_drop (host_functions b))"

definition owned :: "'m c_world \<Rightarrow> nat list" where
  "owned w = concat (map (\<lambda>(i, c). cell_drop c) (boxes w)) @ concat (map (\<lambda>(a, b). built_drop b) (running w))"

text \<open>Boxes that are made and boxes that are freed.\<close>

fun boxes_made :: "'m c_op \<Rightarrow> nat" where
  "boxes_made (Function_new i n ins outs func user_data has_free_fn) = (if from_utf8_ok n then 1 else 0)"
| "boxes_made _ = 0"

fun boxes_freed :: "'m c_op \<Rightarrow> nat" where
  "boxes_freed (Function_free (Some i)) = 1"
| "boxes_freed _ = 0"

section \<open>Nothing is lost, nothing is dropped twice\<close>

lemma concat_insert:
  "btree_get m k = None \<Longrightarrow> mset (concat (map g (btree_insert k v m))) = mset (g (k, v)) + mset (concat (map g m))"
  by (induction m) (auto split: if_splits)

lemma concat_remove:
  "btree_get m k = Some v \<Longrightarrow> mset (concat (map g m)) = mset (g (k, v)) + mset (concat (map g (btree_remove k m)))"
  by (induction m) (auto split: if_splits)

lemma concat_update:
  "btree_ok m \<Longrightarrow> btree_get m k = Some v \<Longrightarrow>
     mset (concat (map g (btree_insert k v' m))) + mset (g (k, v)) = mset (g (k, v')) + mset (concat (map g m))"
proof (induction m)
  case (Cons b m)
  obtain k1 v1 where b: "b = (k1, v1)" by force
  show ?case
  proof (cases "k = k1")
    case False
    with Cons.prems b have "(k, v) \<in> set m" by (auto dest: btree_get_mem)
    then have "\<not> k < k1" using Cons.prems(1) b by (auto simp: btree_ok_def)
    with False Cons b show ?thesis by (auto simp: btree_ok_def)
  qed (use Cons b in auto)
qed simp

lemma length_insert: "length (btree_insert k v m) = (if btree_get m k = None then length m + 1 else length m)"
  if "btree_ok m"
  using that
proof (induction m)
  case (Cons b m)
  obtain k1 v1 where b: "b = (k1, v1)" by force
  have "btree_get m k = None" if "k < k1"
    using Cons.prems b that by (intro btree_get_None) (auto simp: btree_ok_def)
  with Cons b show ?case by (auto simp: btree_ok_def)
qed simp

lemma length_remove: "btree_get m k = Some v \<Longrightarrow> length m = length (btree_remove k m) + 1"
  by (induction m) (auto split: if_splits)

lemma concat_upd:
  assumes "distinct ks" "i \<in> set ks" "c i = Some f"
  shows "mset (concat (map (\<lambda>k. cell_drop (c k)) ks)) =
    mset (function_drop f) + mset (concat (map (\<lambda>k. cell_drop ((c(i := None)) k)) ks))"
proof -
  obtain xs ys where ks: "ks = xs @ i # ys" using assms(2) by (meson split_list)
  define F G where "F k = cell_drop (c k)" and "G k = cell_drop ((c(i := None)) k)" for k
  have "concat (map G xs) = concat (map F xs)" "concat (map G ys) = concat (map F ys)"
    using assms(1) ks by (auto simp: F_def G_def intro!: arg_cong [of _ _ concat])
  moreover have "G i = []" "F i = function_drop f" using assms(3) by (simp_all add: F_def G_def cell_drop_def)
  ultimately show ?thesis using assms(1) ks unfolding F_def [symmetric] G_def [symmetric] by simp
qed

text \<open>What is taken from the cells is gone from the cells.\<close>

lemma take_functions_drop:
  "take_functions ps c = (fs, r, c') \<Longrightarrow> distinct ks \<Longrightarrow> set (named ps) \<subseteq> set ks \<Longrightarrow>
     mset (concat (map function_drop fs)) + mset (concat (map (\<lambda>k. cell_drop (c' k)) ks)) =
     mset (concat (map (\<lambda>k. cell_drop (c k)) ks))"
proof (induction ps c arbitrary: fs r c' rule: take_functions.induct)
  case (3 i ps c)
  show ?case
  proof (cases "c i")
    case None
    with 3 show ?thesis by (auto split: prod.splits)
  next
    case (Some f)
    obtain fs1 r1 where *: "take_functions ps (c(i := None)) = (fs1, r1, c')" "fs = f # fs1"
      using "3.prems"(1) Some by (auto split: prod.splits)
    from "3.IH"(2) [OF Some *(1)] "3.prems" concat_upd [of ks i c f] Some *(2) show ?thesis by simp
  qed
qed auto

text \<open>The functions the linker of a plugin refers to are among those the plugin keeps alive.\<close>

definition links_owned :: "'m built \<Rightarrow> bool" where
  "links_owned b \<longleftrightarrow> (\<forall>k f. links b k = Some (Host_export f) \<longrightarrow> f \<in> set (host_functions b))"

definition world_ok :: "'m c_world \<Rightarrow> bool" where
  "world_ok w \<longleftrightarrow> btree_ok (boxes w) \<and> btree_ok (running w) \<and> (\<forall>(a, b) \<in> set (running w). links_owned b)"

definition balanced :: "nat list \<Rightarrow> 'm c_world \<Rightarrow> 'm c_world \<Rightarrow> bool" where
  "balanced new w w' \<longleftrightarrow> world_ok w' \<and>
     mset (released w') + mset (owned w') = mset (released w) + mset (owned w) + mset new"

lemma btree_all_insert: "\<forall>(a, b) \<in> set m. P b \<Longrightarrow> P v \<Longrightarrow> \<forall>(a, b) \<in> set (btree_insert k v m). P b"
  by (induction m) (auto split: if_splits)

lemma btree_all_remove: "\<forall>(a, b) \<in> set m. P b \<Longrightarrow> \<forall>(a, b) \<in> set (btree_remove k m). P b"
  by (induction m) (auto split: if_splits)

lemma find_mem: "find P xs = Some x \<Longrightarrow> x \<in> set xs"
  by (induction xs) (auto split: if_splits)

lemma map_cells: "map (\<lambda>(i, c). cell_drop c) bs = map (\<lambda>k. cell_drop (cells_of bs k)) (map fst bs)" if "btree_ok bs"
proof -
  have "cells_of bs i = c" if "(i, c) \<in> set bs" for i c
  proof -
    have "btree_get bs i = Some c" using \<open>btree_ok bs\<close> that
    proof (induction bs)
      case (Cons b bs)
      then show ?case by (cases b) (fastforce simp: btree_ok_def)
    qed simp
    then show ?thesis by (simp add: cells_of_def)
  qed
  then show ?thesis by (auto simp: o_def)
qed

lemma free_balanced:
  assumes "world_ok w" and "extism_function_free f w = Some w' \<or> extism_plugin_free p w = Some w'"
  shows "balanced [] w w'"
  using assms(2)
proof
  assume run: "extism_function_free f w = Some w'"
  show ?thesis
  proof (cases f)
    case (Some i)
    then obtain cell where cell: "btree_get (boxes w) i = Some cell" using run
      by (auto simp: extism_function_free_def split: option.splits)
    from concat_remove [OF cell, of "\<lambda>(i, c). cell_drop c"] run Some cell assms(1) show ?thesis
      by (auto simp: extism_function_free_def balanced_def world_ok_def owned_def btree_remove_ok cell_drop_def [symmetric])
  qed (use run assms(1) in \<open>simp add: extism_function_free_def balanced_def\<close>)
next
  assume run: "extism_plugin_free p w = Some w'"
  show ?thesis
  proof (cases p)
    case (Some a)
    then obtain b where b: "btree_get (running w) a = Some b" using run
      by (auto simp: extism_plugin_free_def split: option.splits)
    have w': "w' = w\<lparr>running := btree_remove a (running w), released := released w @ built_drop b\<rparr>"
      using run Some b by (simp add: extism_plugin_free_def built_drop_def)
    have "\<forall>(x, y) \<in> set (btree_remove a (running w)). links_owned y"
      using assms(1) by (intro btree_all_remove) (simp add: world_ok_def)
    with concat_remove [OF b, of "\<lambda>(a, b). built_drop b"] assms(1) show ?thesis
      by (simp add: w' balanced_def world_ok_def owned_def btree_remove_ok)
  qed (use run assms(1) in \<open>simp add: extism_plugin_free_def balanced_def\<close>)
qed

text \<open>What a built plugin offers to its modules under the embedder's names are functions it keeps.\<close>

lemma define_exports_host: "define_exports n xs lk k = Some (Host_export f) \<Longrightarrow> lk k = Some (Host_export f)"
  by (cases k) (auto simp: define_exports_get split: if_splits)

lemma link_modules_host:
  "link_modules E ms lk = Inr lk' \<Longrightarrow> lk' k = Some (Host_export f) \<Longrightarrow> lk k = Some (Host_export f)"
  by (induction E ms lk rule: link_modules.induct) (auto split: if_splits option.splits dest: define_exports_host)

lemma build_new_host_functions:
  assumes "build_new E uuid src fs ws w d c = Inr b" "links b k = Some (Host_export f)"
  shows "f \<in> set (host_functions b)"
proof -
  obtain main m lk1 wn where B: "link_modules E (module_map b) (define_wasi wn Map.empty) = Inr lk1"
    "define_memories E 0 ws (define_functions fs (define_pdk lk1)) = Inr (links b, memories b)" "host_functions b = fs"
    using build_new_InrD [OF assms(1)] by metis
  have "define_functions fs (define_pdk lk1) k = Some (Host_export f)"
    using define_memories_get [OF B(2), of k] assms(2) by (auto split: if_splits)
  moreover have "lk1 k \<noteq> Some (Host_export f)"
    using link_modules_host [OF B(1), of k f] by (auto simp: define_wasi_get split: if_splits)
  then have "define_pdk lk1 k \<noteq> Some (Host_export f)" by (cases k) (auto simp: define_pdk_get split: if_splits)
  ultimately show ?thesis
    using B(3) by (auto simp: define_functions_get split: option.splits dest: find_mem)
qed

text \<open>The two ways to construct a plugin differ in the memories only.\<close>

lemma construction_takes:
  assumes "extism_plugin_new E uuid data ps w m c = Some (r, msg, c') \<or>
    extism_plugin_new_with_memories E uuid data ps mems w m c = Some (r, msg, c')"
  shows "\<exists>reused. take_functions ps c = (fst (take_functions ps c), reused, c') \<and>
    (\<forall>b. r = Some b \<longrightarrow> host_functions b = fst (take_functions ps c) \<and> links_owned b)"
  using assms
  by (auto simp: extism_plugin_new_def extism_plugin_new_with_memories_def plugin_new_def plugin_new_with_memories_def
      Let_def links_owned_def split: prod.splits if_splits sum.splits elim: build_new_InrD dest: build_new_host_functions)

lemma keep_plugin_balanced:
  assumes w: "world_ok w" and named: "\<forall>i \<in> set (named ps). contains_key (boxes w) i"
    and result: "result = extism_plugin_new E uuid data ps wasi_on m (cells_of (boxes w)) \<or>
      result = extism_plugin_new_with_memories E uuid data ps mems wasi_on m (cells_of (boxes w))"
    and run: "keep_plugin a ps result w = Some w'"
  shows "balanced [] w w' \<and> length (boxes w') = length (boxes w)"
proof -
  obtain r msg c' where r: "result = Some (r, msg, c')" using run by (auto simp: keep_plugin_def split: option.splits)
  let ?fs = "fst (take_functions ps (cells_of (boxes w)))"
  obtain reused where t: "take_functions ps (cells_of (boxes w)) = (?fs, reused, c')"
    "\<forall>b. r = Some b \<longrightarrow> host_functions b = ?fs \<and> links_owned b"
    using construction_takes [of E uuid data ps wasi_on m "cells_of (boxes w)" r msg c' mems] result r by metis
  let ?bs = "map (\<lambda>(i, x). (i, c' i)) (boxes w)"
  have ok: "btree_ok (boxes w)" "btree_ok ?bs" using w by (simp_all add: world_ok_def btree_ok_def o_def split_def)
  have ks: "distinct (map fst (boxes w))" "set (named ps) \<subseteq> set (map fst (boxes w))"
  proof -
    show "distinct (map fst (boxes w))" using ok(1) by (simp add: btree_ok_def strict_sorted_iff)
    show "set (named ps) \<subseteq> set (map fst (boxes w))"
      using named btree_get_mem [of "boxes w"] by (force simp: contains_key_def)
  qed
  have after: "map (\<lambda>(i, c). cell_drop c) ?bs = map (\<lambda>k. cell_drop (c' k)) (map fst (boxes w))" by (auto simp: o_def split_def)
  have cells: "mset (concat (map function_drop ?fs)) + mset (concat (map (\<lambda>(i, c). cell_drop c) ?bs)) =
      mset (concat (map (\<lambda>(i, c). cell_drop c) (boxes w)))"
    unfolding after map_cells [OF ok(1)] by (rule take_functions_drop [OF t(1) ks])
  show ?thesis
  proof (cases r)
    case None
    then show ?thesis using run r ok cells w
      by (auto simp: keep_plugin_def balanced_def world_ok_def owned_def simp flip: add.assoc)
  next
    case (Some b)
    then have fresh: "btree_get (running w) a = None" using run r by (auto simp: keep_plugin_def contains_key_def split: if_splits)
    have b: "built_drop b = concat (map function_drop ?fs)" using t(2) Some by (simp add: built_drop_def)
    have "links_owned b" "\<forall>(a, b) \<in> set (running w). links_owned b" using t(2) Some w by (simp_all add: world_ok_def)
    then have all: "\<forall>(x, y) \<in> set (btree_insert a b (running w)). links_owned y" by (rule btree_all_insert [rotated])
    have w': "w' = w\<lparr>boxes := ?bs, running := btree_insert a b (running w)\<rparr>"
      using run r Some by (simp add: keep_plugin_def split: if_splits)
    from concat_insert [OF fresh, of "\<lambda>(a, b). built_drop b" b] cells w ok all show ?thesis
      by (simp add: w' balanced_def world_ok_def owned_def btree_insert_ok b ac_simps)
  qed
qed

text \<open>Every operation keeps the account.\<close>

lemma c_step_balanced:
  assumes w: "world_ok w" and run: "c_step E lossy x w = Some w'"
  shows "balanced (handed_over x) w w' \<and> length (boxes w') + boxes_freed x = length (boxes w) + boxes_made x"
proof (cases x)
  case (Function_new i n ins outs func user_data has_free_fn)
  show ?thesis
  proof (cases "from_utf8_ok n")
    case False
    with run w Function_new show ?thesis by (simp add: extism_function_new_def balanced_def)
  next
    case True
    then obtain f where f: "extism_function_new n ins outs func user_data has_free_fn = Some f"
      "function_drop f = handed_over x"
      using Function_new by (auto simp: extism_function_new_def function_new_def userdata_new_pointer_def function_drop_calls)
    then have new: "btree_get (boxes w) i = None" "w' = w\<lparr>boxes := btree_insert i (Some f) (boxes w)\<rparr>"
      using run Function_new by (auto simp: contains_key_def split: if_splits)
    from concat_insert [OF new(1), of "\<lambda>(i, c). cell_drop c" "Some f"] w f(2) True new Function_new show ?thesis
      by (simp add: balanced_def world_ok_def owned_def btree_insert_ok cell_drop_def length_insert)
  qed
next
  case (Function_set_namespace i ns)
  then obtain cell where cell: "btree_get (boxes w) i = Some cell"
    "w' = w\<lparr>boxes := btree_insert i (extism_function_set_namespace lossy ns cell) (boxes w)\<rparr>"
    using run by auto
  have "cell_drop (extism_function_set_namespace lossy ns cell) = cell_drop cell"
    by (simp add: cell_drop_def extism_function_set_namespace_def split: option.split)
  with concat_update [OF _ cell(1), of "\<lambda>(i, c). cell_drop c" "extism_function_set_namespace lossy ns cell"] w cell Function_set_namespace show ?thesis
    by (simp add: balanced_def world_ok_def owned_def btree_insert_ok length_insert)
next
  case (Function_free f)
  have "balanced [] w w'" using free_balanced [OF w, of f w' None] run Function_free by simp
  moreover have "length (boxes w') + boxes_freed x = length (boxes w)"
    using run Function_free length_remove [of "boxes w"]
    by (auto simp: extism_function_free_def split: option.splits)
  ultimately show ?thesis using Function_free by simp
next
  case (Plugin_new uuid a data ps wasi_on m)
  with run keep_plugin_balanced [OF w, of ps _ E uuid data wasi_on m] show ?thesis by (auto split: if_splits)
next
  case (Plugin_new_with_memories uuid a data ps mems wasi_on m)
  with run keep_plugin_balanced [OF w, of ps _ E uuid data wasi_on m mems] show ?thesis by (auto split: if_splits)
next
  case (Plugin_use a p)
  then obtain b where b: "btree_get (running w) a = Some b" "w' = w\<lparr>running := btree_insert a (b\<lparr>base := p\<rparr>) (running w)\<rparr>"
    using run by auto
  have all: "\<forall>(x, y) \<in> set (running w). links_owned y" using w by (simp add: world_ok_def)
  then have "links_owned (b\<lparr>base := p\<rparr>)" using btree_get_mem [OF b(1)] by (auto simp: links_owned_def)
  with all have "\<forall>(x, y) \<in> set (btree_insert a (b\<lparr>base := p\<rparr>) (running w)). links_owned y" by (intro btree_all_insert)
  moreover have "built_drop (b\<lparr>base := p\<rparr>) = built_drop b" by (simp add: built_drop_def)
  ultimately show ?thesis
    using concat_update [OF _ b(1), of "\<lambda>(a, b). built_drop b" "b\<lparr>base := p\<rparr>"] w b Plugin_use
    by (simp add: balanced_def world_ok_def owned_def btree_insert_ok)
next
  case (Plugin_free p)
  have "balanced [] w w'" using free_balanced [OF w, of None w' p] run Plugin_free by simp
  moreover have "boxes w' = boxes w" using run Plugin_free by (auto simp: extism_plugin_free_def split: option.splits)
  ultimately show ?thesis using Plugin_free by simp
qed

lemma c_run_balanced:
  "world_ok w \<Longrightarrow> c_run E lossy xs w = Some w' \<Longrightarrow>
     balanced (concat (map handed_over xs)) w w' \<and>
     length (boxes w') + sum_list (map boxes_freed xs) = length (boxes w) + sum_list (map boxes_made xs)"
proof (induction xs arbitrary: w)
  case (Cons x xs)
  obtain w1 where w1: "c_step E lossy x w = Some w1" "c_run E lossy xs w1 = Some w'"
    using Cons.prems(2) by (auto split: option.splits)
  note A = c_step_balanced [OF Cons.prems(1) w1(1)]
  then have "world_ok w1" by (simp add: balanced_def)
  from A Cons.IH [OF this w1(2)] show ?case by (auto simp: balanced_def)
qed (simp add: balanced_def)

lemma world_init_ok: "world_ok world_init" "owned world_init = []" "released world_init = []" "boxes world_init = []"
  by (simp_all add: world_init_def world_ok_def owned_def)

end
