(* ===== verification/Logging.thy ===== *)
theory Logging
  imports Pdk
begin

text \<open>
  The logs of the process: \<^verbatim>\<open>extism_log_file\<close>, \<^verbatim>\<open>extism_log_custom\<close> and \<^verbatim>\<open>extism_log_drain\<close>
  (\<^verbatim>\<open>runtime/src/sdk.rs\<close>) and \<^verbatim>\<open>set_log_callback\<close> (\<^verbatim>\<open>runtime/src/lib.rs\<close>).  The tracing crates decide
  what a level is and which lines a filter lets through; a process has one subscriber, and
  \<^verbatim>\<open>try_init\<close> fails when there is one.
\<close>

section \<open>State\<close>

datatype log_target = Stderr | Stdout | To_file string | To_buffer nat | To_callback nat

record subscriber =
  sub_filter :: string
  sub_ansi :: bool
  sub_target :: log_target

text \<open>
  \<open>log_buffers\<close> are the buffers that were ever made, \<open>log_global\<close> is \<^verbatim>\<open>LOG_BUFFER\<close>, the one the library drains;
  \<open>log_files\<close> are the files that were opened, \<open>log_output\<close> what streams, files and callbacks got.
\<close>

record log_state =
  log_buffers :: "(u8 list \<times> nat) list list"
  log_global :: "nat option"
  log_subscriber :: "subscriber option"
  log_files :: "string list"
  log_output :: "(log_target \<times> u8 list) list"

definition log_init :: log_state where
  "log_init = \<lparr>log_buffers = [], log_global = None, log_subscriber = None, log_files = [], log_output = []\<rparr>"

section \<open>The setup\<close>

definition try_init :: "subscriber \<Rightarrow> log_state \<Rightarrow> bool \<times> log_state" where
  "try_init sub s =
     (if log_subscriber s = None then (True, s\<lparr>log_subscriber := Some sub\<rparr>) else (False, s))"

text \<open>A plain level is one for this crate.\<close>

definition env_filter :: "(string \<Rightarrow> bool) \<Rightarrow> string \<Rightarrow> string" where
  "env_filter is_level filt = (if is_level filt then ''extism='' @ filt else filt)"

text \<open>A file that cannot be opened is a panic, \<open>None\<close>; it is opened before the subscriber is tried.\<close>

definition set_log_file ::
    "(string \<Rightarrow> bool) \<Rightarrow> (string \<Rightarrow> bool) \<Rightarrow> string \<Rightarrow> string \<Rightarrow> log_state \<Rightarrow> (bool \<times> log_state) option" where
  "set_log_file is_level open_ok log_file filt s =
     (let cfg = env_filter is_level filt in
      if log_file = ''-'' \<or> log_file = ''stderr''
      then Some (try_init \<lparr>sub_filter = cfg, sub_ansi = True, sub_target = Stderr\<rparr> s)
      else if log_file = ''stdout''
      then Some (try_init \<lparr>sub_filter = cfg, sub_ansi = True, sub_target = Stdout\<rparr> s)
      else if \<not> open_ok log_file then None
      else Some (try_init \<lparr>sub_filter = cfg, sub_ansi = False, sub_target = To_file log_file\<rparr>
             (s\<lparr>log_files := log_files s @ [log_file]\<rparr>)))"

text \<open>A C string that is null is its default, one that is not UTF-8 is refused.\<close>

definition text_or :: "string \<Rightarrow> u8 list option \<Rightarrow> string option" where
  "text_or deflt c =
     (case c of None \<Rightarrow> Some deflt | Some b \<Rightarrow> if from_utf8_ok b then Some (str_of b) else None)"

lemma text_or_None [simp]: "text_or d None = Some d"
  by (simp add: text_or_def)

definition extism_log_file ::
    "(string \<Rightarrow> bool) \<Rightarrow> (string \<Rightarrow> bool) \<Rightarrow> u8 list option \<Rightarrow> u8 list option \<Rightarrow> log_state \<Rightarrow> (bool \<times> log_state) option" where
  "extism_log_file is_level open_ok filename log_level s =
     (case text_or ''stderr'' filename of
        None \<Rightarrow> Some (False, s)
      | Some file \<Rightarrow>
          (case text_or ''error'' log_level of
             None \<Rightarrow> Some (False, s)
           | Some level \<Rightarrow> set_log_file is_level open_ok file level s))"

text \<open>\<^verbatim>\<open>set_log_buffer\<close> replaces the global buffer before it tries to install the subscriber.\<close>

definition set_log_buffer :: "(string \<Rightarrow> bool) \<Rightarrow> string \<Rightarrow> log_state \<Rightarrow> bool \<times> log_state" where
  "set_log_buffer is_level filt s =
     (let i = length (log_buffers s);
          s1 = s\<lparr>log_buffers := log_buffers s @ [[]], log_global := Some i\<rparr>
      in try_init \<lparr>sub_filter = env_filter is_level filt, sub_ansi = False, sub_target = To_buffer i\<rparr> s1)"

definition extism_log_custom :: "(string \<Rightarrow> bool) \<Rightarrow> u8 list option \<Rightarrow> log_state \<Rightarrow> bool \<times> log_state" where
  "extism_log_custom is_level log_level s =
     (case text_or ''error'' log_level of
        None \<Rightarrow> (False, s)
      | Some level \<Rightarrow> set_log_buffer is_level level s)"

text \<open>The filter of \<^verbatim>\<open>set_log_callback\<close> is taken as it is; \<open>func\<close> names the callback.\<close>

definition set_log_callback :: "nat \<Rightarrow> string \<Rightarrow> log_state \<Rightarrow> bool \<times> log_state" where
  "set_log_callback func filt s = try_init \<lparr>sub_filter = filt, sub_ansi = False, sub_target = To_callback func\<rparr> s"

section \<open>Lines\<close>

text \<open>
  \<^verbatim>\<open>LogBuffer::write\<close>: a line that is not UTF-8 is dropped, one with a zero byte is an error.
\<close>

definition buffer_write :: "u8 list \<Rightarrow> (u8 list \<times> nat) list \<Rightarrow> nat option \<times> (u8 list \<times> nat) list" where
  "buffer_write buf lines =
     (if \<not> from_utf8_ok buf then (Some (length buf), lines)
      else if 0 \<in> set buf then (None, lines)
      else (Some (length buf), lines @ [(buf, length buf)]))"

text \<open>\<^verbatim>\<open>LogFunction::write\<close> hands every line that is UTF-8 to the callback.\<close>

definition log_function_write :: "u8 list \<Rightarrow> u8 list option \<times> nat" where
  "log_function_write buf = (if from_utf8_ok buf then Some buf else None, length buf)"

text \<open>A line the filter lets through goes to the writer of the subscriber.\<close>

definition log_write :: "(string \<Rightarrow> u8 list \<Rightarrow> bool) \<Rightarrow> u8 list \<Rightarrow> log_state \<Rightarrow> log_state" where
  "log_write passes buf s =
     (case log_subscriber s of
        None \<Rightarrow> s
      | Some sub \<Rightarrow>
          if \<not> passes (sub_filter sub) buf then s
          else (case sub_target sub of
                  To_buffer i \<Rightarrow> s\<lparr>log_buffers := (log_buffers s)[i := snd (buffer_write buf (log_buffers s ! i))]\<rparr>
                | To_callback f \<Rightarrow>
                    (case fst (log_function_write buf) of
                       Some b \<Rightarrow> s\<lparr>log_output := log_output s @ [(To_callback f, b)]\<rparr>
                     | None \<Rightarrow> s)
                | t \<Rightarrow> s\<lparr>log_output := log_output s @ [(t, buf)]\<rparr>))"

definition extism_log_drain :: "log_state \<Rightarrow> (u8 list \<times> nat) list \<times> log_state" where
  "extism_log_drain s =
     (case log_global s of
        None \<Rightarrow> ([], s)
      | Some i \<Rightarrow> (log_buffers s ! i, s\<lparr>log_buffers := (log_buffers s)[i := []]\<rparr>))"

section \<open>A process\<close>

text \<open>What a process does with the logs, and what it gets from the drains.\<close>

datatype log_op =
    Log_file "u8 list option" "u8 list option"
  | Log_custom "u8 list option"
  | Log_callback nat string
  | Log_line "u8 list"
  | Log_drain

record log_env =
  le_level :: "string \<Rightarrow> bool"
  le_open :: "string \<Rightarrow> bool"
  le_passes :: "string \<Rightarrow> u8 list \<Rightarrow> bool"

fun log_step :: "log_env \<Rightarrow> log_op \<Rightarrow> log_state \<Rightarrow> ((u8 list \<times> nat) list \<times> log_state) option" where
  "log_step L (Log_file f l) s = map_option (\<lambda>(ok, s'). ([], s')) (extism_log_file (le_level L) (le_open L) f l s)"
| "log_step L (Log_custom l) s = Some ([], snd (extism_log_custom (le_level L) l s))"
| "log_step L (Log_callback f filt) s = Some ([], snd (set_log_callback f filt s))"
| "log_step L (Log_line b) s = Some ([], log_write (le_passes L) b s)"
| "log_step L Log_drain s = Some (extism_log_drain s)"

fun log_run :: "log_env \<Rightarrow> log_op list \<Rightarrow> log_state \<Rightarrow> ((u8 list \<times> nat) list \<times> log_state) option" where
  "log_run L [] s = Some ([], s)"
| "log_run L (x # xs) s =
     (case log_step L x s of
        None \<Rightarrow> None
      | Some (out, s1) \<Rightarrow> map_option (\<lambda>(out2, s2). (out @ out2, s2)) (log_run L xs s1))"

text \<open>The setups that replace the global buffer.\<close>

fun replaces :: "log_op \<Rightarrow> bool" where
  "replaces (Log_custom l) = (text_or ''error'' l \<noteq> None)"
| "replaces _ = False"

text \<open>The lines a buffer takes from those of a sequence.\<close>

fun line_of :: "(u8 list \<Rightarrow> bool) \<Rightarrow> log_op \<Rightarrow> (u8 list \<times> nat) list" where
  "line_of passes (Log_line b) = (if passes b \<and> from_utf8_ok b \<and> 0 \<notin> set b then [(b, length b)] else [])"
| "line_of passes _ = []"

section \<open>Which lines come out of the buffer\<close>

text \<open>A subscriber stays.\<close>

lemma log_step_subscriber:
  "log_step L x s = Some (out, s') \<Longrightarrow> log_subscriber s = Some sub \<Longrightarrow> log_subscriber s' = Some sub"
  by (cases x)
    (auto simp: extism_log_file_def set_log_file_def try_init_def extism_log_custom_def set_log_buffer_def
      set_log_callback_def log_write_def extism_log_drain_def Let_def split: option.splits if_splits log_target.splits)

lemma log_step_buffers:
  assumes "log_step L x s = Some (out, s')" "\<not> replaces x" "log_subscriber s \<noteq> None" "log_global s = Some i"
    and "i < length (log_buffers s)"
  shows "log_global s' = Some i \<and> length (log_buffers s') = length (log_buffers s) \<and>
    out @ log_buffers s' ! i = log_buffers s ! i @
      (case log_subscriber s of Some sub \<Rightarrow> if sub_target sub = To_buffer i then line_of (le_passes L (sub_filter sub)) x else []
       | None \<Rightarrow> [])"
  using assms
  by (cases x)
    (auto simp: extism_log_file_def set_log_file_def try_init_def extism_log_custom_def set_log_callback_def
      log_write_def extism_log_drain_def buffer_write_def Let_def nth_list_update
      split: option.splits if_splits log_target.splits)

lemma log_run_buffers:
  "log_run L xs s = Some (out, s') \<Longrightarrow> \<forall>x \<in> set xs. \<not> replaces x \<Longrightarrow> log_subscriber s = Some sub \<Longrightarrow>
     log_global s = Some i \<Longrightarrow> i < length (log_buffers s) \<Longrightarrow>
     log_subscriber s' = Some sub \<and> log_global s' = Some i \<and> length (log_buffers s') = length (log_buffers s) \<and>
     out @ log_buffers s' ! i = log_buffers s ! i @
       (if sub_target sub = To_buffer i then concat (map (line_of (le_passes L (sub_filter sub))) xs) else [])"
proof (induction xs arbitrary: s out)
  case (Cons x xs)
  obtain o1 s1 o2 where x: "log_step L x s = Some (o1, s1)" "log_run L xs s1 = Some (o2, s')" "out = o1 @ o2"
    using Cons.prems(1) by (auto split: option.splits)
  let ?ln = "\<lambda>x. if sub_target sub = To_buffer i then line_of (le_passes L (sub_filter sub)) x else []"
  have A: "log_global s1 = Some i" "length (log_buffers s1) = length (log_buffers s)"
    "o1 @ log_buffers s1 ! i = log_buffers s ! i @ ?ln x"
    using log_step_buffers [OF x(1) _ _ Cons.prems(4,5)] Cons.prems(2,3) by simp_all
  note B = Cons.IH [OF x(2) _ log_step_subscriber [OF x(1) Cons.prems(3)] A(1)]
  have "o1 @ (o2 @ log_buffers s' ! i) = (o1 @ log_buffers s1 ! i) @ concat (map ?ln xs)"
    using B A(2) Cons.prems(2,5) by simp
  then show ?case using A B Cons.prems(2,5) x(3) by (simp add: A(3))
qed simp

end
