(* ===== verification/Dumps.thy ===== *)
theory Dumps
  imports Builder
begin

text \<open>
  The files \<^verbatim>\<open>raw_call\<close> writes for a call that ends with an error (\<^verbatim>\<open>runtime/src/plugin.rs\<close>), as the debug
  options ask for: a core dump of the guest, and the memory of the kernel.
\<close>

section \<open>Files\<close>

type_synonym dump_file = "string \<times> u8 list"

text \<open>\<open>core_of\<close> is the core dump wasmtime attached to an error, serialised.\<close>

definition coredump_files :: "DebugOptions \<Rightarrow> (call_error \<Rightarrow> u8 list option) \<Rightarrow> call_error \<Rightarrow> dump_file list" where
  "coredump_files opts core_of e =
     (case core_of e of
        None \<Rightarrow> []
      | Some d \<Rightarrow> (case coredump opts of None \<Rightarrow> [] | Some f \<Rightarrow> [(f, d)]))"

definition memdump_files :: "DebugOptions \<Rightarrow> CurrentPlugin \<Rightarrow> dump_file list" where
  "memdump_files opts cp =
     (case memdump opts of
        None \<Rightarrow> []
      | Some f \<Rightarrow>
          if ''memory'' \<in> set (linked cp)
          then [(f, read_bytes (bytes (kernel_memory cp)) 0 (mem_size (kernel_memory cp)))] else [])"

text \<open>The files in the order they are written; \<open>res\<close> is the error the call ends with, after \<^verbatim>\<open>plugin_error\<close>.\<close>

definition call_dumps ::
    "DebugOptions \<Rightarrow> (call_error \<Rightarrow> u8 list option) \<Rightarrow> call_error option \<Rightarrow> plugin \<Rightarrow> dump_file list" where
  "call_dumps opts core_of res p =
     (case res of
        None \<Rightarrow> []
      | Some e \<Rightarrow> coredump_files opts core_of e @ memdump_files opts (current p))"

section \<open>What the dump of the memory shows\<close>

lemma read_bytes_part: "a + n \<le> l \<Longrightarrow> take n (drop a (read_bytes f 0 l)) = read_bytes f a n"
  by (simp add: read_bytes_def drop_map take_map)

text \<open>Every value the plugin holds when the call ends is in the dump, at its own offset.\<close>

lemma memdump_holds:
  assumes ok: "cp_ok (current p) h" and held: "holds (current p) h offs d" "d \<noteq> []" and f: "memdump opts = Some f"
  shows "\<exists>dump. call_dumps opts core_of (Some e) p = coredump_files opts core_of e @ [(f, dump)] \<and>
    take (length d) (drop (unat offs) dump) = d"
proof -
  have inh: "in_heap h offs (length d)" and rd: "read_bytes (bytes (kernel_memory (current p))) (unat offs) (length d) = d"
    using held by (simp_all add: holds_def)
  have "unat offs + length d \<le> mem_size (kernel_memory (current p))"
    using in_heap_bounds(2) [OF cp_okD(1) [OF ok] inh] .
  from read_bytes_part [OF this] rd show ?thesis
    using cp_okD(2) [OF ok] f by (simp add: call_dumps_def memdump_files_def)
qed

end
