(* ===== verification/Manifest_Json.thy ===== *)
theory Manifest_Json
  imports Manifest_Load
begin

text \<open>
  Manifests as JSON: what the attributes on the types of \<^verbatim>\<open>manifest/src/lib.rs\<close> (\<^verbatim>\<open>derive(Serialize,
  Deserialize)\<close>, \<^verbatim>\<open>deny_unknown_fields\<close>, \<^verbatim>\<open>default\<close>, \<^verbatim>\<open>alias\<close>, \<^verbatim>\<open>flatten\<close>, \<^verbatim>\<open>untagged\<close>, \<^verbatim>\<open>with\<close>) ask serde for,
  as serde documents them, on JSON values.  The text of a value is serde\_json's, and an argument.
\<close>

section \<open>Values\<close>

text \<open>\<open>JNumber\<close> are the numbers a Rust unsigned integer can come from, \<open>JOther\<close> is any other number.\<close>

datatype json =
    JNull
  | JBool bool
  | JNumber nat
  | JOther string
  | JString string
  | JArray "json list"
  | JObject "(string \<times> json) list"

section \<open>Paths as text\<close>

fun path_split :: "string \<Rightarrow> string list" where
  "path_split [] = [[]]"
| "path_split (c # s) =
     (if c = CHR ''/'' then [] # path_split s
      else (case path_split s of [] \<Rightarrow> [[c]] | w # ws \<Rightarrow> (c # w) # ws))"

fun path_join :: "path \<Rightarrow> string" where
  "path_join [] = []"
| "path_join [c] = c"
| "path_join (c # cs) = c @ CHR ''/'' # path_join cs"

text \<open>
  The components of a path: the root, and the names between the separators, where empty ones do not
  count, nor does a dot that does not come first.
\<close>

definition path_of_string :: "string \<Rightarrow> path" where
  "path_of_string s =
     (case path_split s of
        [] \<Rightarrow> []
      | w # ws \<Rightarrow>
          (if s \<noteq> [] \<and> hd s = CHR ''/'' then [''/''] else if w = [] then [] else [w]) @
          filter (\<lambda>c. c \<noteq> [] \<and> c \<noteq> ''.'') ws)"

definition string_of_path :: "path \<Rightarrow> string" where
  "string_of_path p =
     (case p of
        [] \<Rightarrow> []
      | c # cs \<Rightarrow> if c = ''/'' then CHR ''/'' # path_join cs else path_join (c # cs))"

section \<open>Serialisation\<close>

fun json_option :: "('a \<Rightarrow> json) \<Rightarrow> 'a option \<Rightarrow> json" where
  "json_option f None = JNull"
| "json_option f (Some x) = f x"

definition json_memory_options :: "MemoryOptions \<Rightarrow> json" where
  "json_memory_options mo = JObject [(''max_pages'', json_option (\<lambda>w. JNumber (unat w)) (max_pages mo))]"

definition json_http_request :: "HttpRequest \<Rightarrow> (string \<times> json) list" where
  "json_http_request req =
     [(''url'', JString (url req)),
      (''headers'', JObject (map (\<lambda>(k, v). (k, JString v)) (headers req))),
      (''method'', json_option JString (http_method req))]"

definition json_metadata :: "WasmMetadata \<Rightarrow> (string \<times> json) list" where
  "json_metadata m = [(''name'', json_option JString (name m)), (''hash'', json_option JString (hash m))]"

text \<open>A path that is not UTF-8 has no representation; \<open>path_utf8\<close> is \<^verbatim>\<open>Path::to_str\<close>.\<close>

definition path_utf8 :: "path \<Rightarrow> string option" where
  "path_utf8 p = (let s = string_of_path p in if from_utf8_ok (ascii s) then Some s else None)"

fun json_wasm :: "(u8 list \<Rightarrow> string) \<Rightarrow> Wasm \<Rightarrow> json option" where
  "json_wasm encode (File p m) = map_option (\<lambda>s. JObject ((''path'', JString s) # json_metadata m)) (path_utf8 p)"
| "json_wasm encode (Data d m) = Some (JObject ((''data'', JString (encode d)) # json_metadata m))"
| "json_wasm encode (Url req m) = Some (JObject (json_http_request req @ json_metadata m))"

definition json_path_entry :: "path \<times> path \<Rightarrow> (string \<times> json) option" where
  "json_path_entry e =
     (case (path_utf8 (fst e), path_utf8 (snd e)) of (Some k, Some v) \<Rightarrow> Some (k, JString v) | _ \<Rightarrow> None)"

text \<open>\<^verbatim>\<open>serde_json::to_vec(..).unwrap()\<close> panics on what has no representation: \<open>None\<close>.\<close>

definition json_manifest :: "(u8 list \<Rightarrow> string) \<Rightarrow> Manifest \<Rightarrow> json option" where
  "json_manifest encode m =
     (case (those (map (json_wasm encode) (wasm m)),
            case allowed_paths m of None \<Rightarrow> Some JNull
              | Some ps \<Rightarrow> map_option JObject (those (map json_path_entry ps))) of
        (Some ws, Some ps) \<Rightarrow>
          Some (JObject
            [(''wasm'', JArray ws),
             (''memory'', json_memory_options (memory m)),
             (''config'', JObject (map (\<lambda>(k, v). (k, JString v)) (config m))),
             (''allowed_hosts'', json_option (\<lambda>hs. JArray (map JString hs)) (allowed_hosts m)),
             (''allowed_paths'', ps),
             (''timeout_ms'', json_option (\<lambda>w. JNumber (unat w)) (timeout_ms m))])
      | _ \<Rightarrow> None)"

definition manifest_to_vec :: "(json \<Rightarrow> u8 list) \<Rightarrow> (u8 list \<Rightarrow> string) \<Rightarrow> Manifest \<Rightarrow> u8 list option" where
  "manifest_to_vec to_vec encode m = map_option to_vec (json_manifest encode m)"

section \<open>Deserialisation\<close>

text \<open>
  The entries of an object sorted to the fields of a struct, given by the names each goes by; a field
  that comes twice is an error, what belongs to no field is left.
\<close>

fun take_field :: "string list \<Rightarrow> (string \<times> json) list \<Rightarrow> (json option \<times> (string \<times> json) list) option" where
  "take_field names [] = Some (None, [])"
| "take_field names ((k, v) # es) =
     (case take_field names es of
        None \<Rightarrow> None
      | Some (x, rest) \<Rightarrow>
          if k \<in> set names then (case x of None \<Rightarrow> Some (Some v, rest) | Some y \<Rightarrow> None)
          else Some (x, (k, v) # rest))"

fun take_fields :: "string list list \<Rightarrow> (string \<times> json) list \<Rightarrow> (json option list \<times> (string \<times> json) list) option" where
  "take_fields [] es = Some ([], es)"
| "take_fields (ns # nss) es =
     (case take_field ns es of
        None \<Rightarrow> None
      | Some (x, rest) \<Rightarrow> map_option (\<lambda>(xs, rest2). (x # xs, rest2)) (take_fields nss rest))"

text \<open>
  A struct with \<^verbatim>\<open>deny_unknown_fields\<close>: from an object, or from an array with the fields in their
  order, in which only fields with a default may be missing.
\<close>

definition struct_fields :: "string list list \<Rightarrow> nat \<Rightarrow> json \<Rightarrow> json option list option" where
  "struct_fields nss needed j =
     (case j of
        JObject es \<Rightarrow>
          (case take_fields nss es of Some (xs, []) \<Rightarrow> Some xs | _ \<Rightarrow> None)
      | JArray js \<Rightarrow>
          if needed \<le> length js \<and> length js \<le> length nss
          then Some (map Some js @ replicate (length nss - length js) None) else None
      | _ \<Rightarrow> None)"

fun required :: "(json \<Rightarrow> 'a option) \<Rightarrow> json option \<Rightarrow> 'a option" where
  "required f None = None"
| "required f (Some j) = f j"

fun defaulted :: "'a \<Rightarrow> (json \<Rightarrow> 'a option) \<Rightarrow> json option \<Rightarrow> 'a option" where
  "defaulted d f None = Some d"
| "defaulted d f (Some j) = f j"

text \<open>An option is absent or null, or a value.\<close>

definition optional :: "(json \<Rightarrow> 'a option) \<Rightarrow> json option \<Rightarrow> 'a option option" where
  "optional f x =
     (case x of None \<Rightarrow> Some None | Some JNull \<Rightarrow> Some None | Some j \<Rightarrow> map_option Some (f j))"

fun string_of_json :: "json \<Rightarrow> string option" where
  "string_of_json (JString s) = Some s"
| "string_of_json j = None"

definition word_of_json :: "json \<Rightarrow> 'a::len word option" where
  "word_of_json j = (case j of JNumber n \<Rightarrow> if n < 2 ^ LENGTH('a) then Some (word_of_nat n) else None | _ \<Rightarrow> None)"

definition list_of_json :: "(json \<Rightarrow> 'a option) \<Rightarrow> json \<Rightarrow> 'a list option" where
  "list_of_json f j = (case j of JArray js \<Rightarrow> those (map f js) | _ \<Rightarrow> None)"

text \<open>Of the entries of a map with the same key the last one counts.\<close>

definition btree_of_json :: "(string \<Rightarrow> 'k::linorder) \<Rightarrow> (json \<Rightarrow> 'v option) \<Rightarrow> json \<Rightarrow> ('k, 'v) btree option" where
  "btree_of_json key f j =
     (case j of
        JObject es \<Rightarrow>
          map_option (\<lambda>vs. fold (\<lambda>(k, v). btree_insert k v) vs [])
            (those (map (\<lambda>(k, v). map_option (Pair (key k)) (f v)) es))
      | _ \<Rightarrow> None)"

definition path_of_json :: "json \<Rightarrow> path option" where
  "path_of_json j = map_option path_of_string (string_of_json j)"

definition memory_options_of_json :: "json \<Rightarrow> MemoryOptions option" where
  "memory_options_of_json j =
     (case struct_fields [[''max_pages'', ''max'']] 1 j of
        Some [x] \<Rightarrow> map_option (\<lambda>p. \<lparr>max_pages = p\<rparr>) (optional word_of_json x)
      | _ \<Rightarrow> None)"

text \<open>
  Flattened structs take their fields from what the outer one has left.  The data of a module is
  base64, or an address and a length in the memory of the process.
\<close>

definition metadata_of_json :: "json option \<Rightarrow> json option \<Rightarrow> WasmMetadata option" where
  "metadata_of_json n h =
     (case (optional string_of_json n, optional string_of_json h) of
        (Some n, Some h) \<Rightarrow> Some \<lparr>name = n, hash = h\<rparr>
      | _ \<Rightarrow> None)"

definition data_of_json :: "(string \<Rightarrow> u8 list option) \<Rightarrow> store \<Rightarrow> json \<Rightarrow> u8 list option" where
  "data_of_json decode process_memory j =
     (case j of
        JString s \<Rightarrow> decode s
      | _ \<Rightarrow>
          (case struct_fields [[''ptr''], [''len'']] 2 j of
             Some [p, l] \<Rightarrow>
               (case (required word_of_json p, required word_of_json l) of
                  (Some p, Some l) \<Rightarrow> wasmdata_deserialize (\<lambda>s. None) process_memory (DataPtrLength p l)
                | _ \<Rightarrow> None)
           | _ \<Rightarrow> None))"

definition file_of_json :: "json \<Rightarrow> Wasm option" where
  "file_of_json j =
     (case j of
        JObject es \<Rightarrow>
          (case take_fields [[''path''], [''name''], [''hash'']] es of
             Some ([p, n, h], []) \<Rightarrow>
               (case (required path_of_json p, metadata_of_json n h) of
                  (Some p, Some m) \<Rightarrow> Some (File p m)
                | _ \<Rightarrow> None)
           | _ \<Rightarrow> None)
      | _ \<Rightarrow> None)"

definition inline_of_json :: "(string \<Rightarrow> u8 list option) \<Rightarrow> store \<Rightarrow> json \<Rightarrow> Wasm option" where
  "inline_of_json decode process_memory j =
     (case j of
        JObject es \<Rightarrow>
          (case take_fields [[''data''], [''name''], [''hash'']] es of
             Some ([d, n, h], []) \<Rightarrow>
               (case (required (data_of_json decode process_memory) d, metadata_of_json n h) of
                  (Some d, Some m) \<Rightarrow> Some (Data d m)
                | _ \<Rightarrow> None)
           | _ \<Rightarrow> None)
      | _ \<Rightarrow> None)"

definition url_of_json :: "json \<Rightarrow> Wasm option" where
  "url_of_json j =
     (case j of
        JObject es \<Rightarrow>
          (case take_fields [[''url''], [''headers'', ''header''], [''method''], [''name''], [''hash'']] es of
             Some ([u, hs, me, n, h], []) \<Rightarrow>
               (case (required string_of_json u, defaulted [] (btree_of_json (\<lambda>k. k) string_of_json) hs,
                      optional string_of_json me, metadata_of_json n h) of
                  (Some u, Some hs, Some me, Some m) \<Rightarrow> Some (Url \<lparr>url = u, headers = hs, http_method = me\<rparr> m)
                | _ \<Rightarrow> None)
           | _ \<Rightarrow> None)
      | _ \<Rightarrow> None)"

text \<open>\<^verbatim>\<open>untagged\<close>: the first variant that fits.\<close>

definition wasm_of_json :: "(string \<Rightarrow> u8 list option) \<Rightarrow> store \<Rightarrow> json \<Rightarrow> Wasm option" where
  "wasm_of_json decode process_memory j =
     (case file_of_json j of
        Some w \<Rightarrow> Some w
      | None \<Rightarrow>
          (case inline_of_json decode process_memory j of
             Some w \<Rightarrow> Some w
           | None \<Rightarrow> url_of_json j))"

definition manifest_fields :: "string list list" where
  "manifest_fields = [[''wasm''], [''memory''], [''config''], [''allowed_hosts''], [''allowed_paths''], [''timeout_ms'']]"

definition manifest_of_json :: "(string \<Rightarrow> u8 list option) \<Rightarrow> store \<Rightarrow> json \<Rightarrow> Manifest option" where
  "manifest_of_json decode process_memory j =
     (case struct_fields manifest_fields 0 j of
        Some [w, mo, c, ah, ap, t] \<Rightarrow>
          (case (defaulted [] (list_of_json (wasm_of_json decode process_memory)) w,
                 defaulted memory_options_default memory_options_of_json mo,
                 defaulted [] (btree_of_json (\<lambda>k. k) string_of_json) c,
                 optional (list_of_json string_of_json) ah,
                 optional (btree_of_json path_of_string path_of_json) ap,
                 optional word_of_json t) of
             (Some w, Some mo, Some c, Some ah, Some ap, Some t) \<Rightarrow>
               Some \<lparr>wasm = w, memory = mo, config = c, allowed_hosts = ah, allowed_paths = ap, timeout_ms = t\<rparr>
           | _ \<Rightarrow> None)
      | _ \<Rightarrow> None)"

section \<open>Paths are read back\<close>

definition name_ok :: "string \<Rightarrow> bool" where
  "name_ok c \<longleftrightarrow> c \<noteq> [] \<and> c \<noteq> ''.'' \<and> CHR ''/'' \<notin> set c"

text \<open>The paths that are lists of components: the root or a dot only in front.\<close>

definition path_ok :: "path \<Rightarrow> bool" where
  "path_ok p \<longleftrightarrow> (case p of [] \<Rightarrow> True | c # cs \<Rightarrow> (c = ''/'' \<or> c = ''.'' \<or> name_ok c) \<and> list_all name_ok cs)"

lemma path_split_name: "CHR ''/'' \<notin> set c \<Longrightarrow> path_split c = [c]"
  by (induction c) auto

lemma path_split_cons: "CHR ''/'' \<notin> set c \<Longrightarrow> path_split (c @ CHR ''/'' # s) = c # path_split s"
  by (induction c) auto

lemma path_split_join: "cs \<noteq> [] \<Longrightarrow> \<forall>c \<in> set cs. CHR ''/'' \<notin> set c \<Longrightarrow> path_split (path_join cs) = cs"
  by (induction cs rule: path_join.induct) (auto simp: path_split_name path_split_cons)

lemma path_round: "path_ok p \<Longrightarrow> path_of_string (string_of_path p) = p"
proof (cases p)
  case (Cons c cs)
  assume ok: "path_ok p"
  then have cs: "\<forall>x \<in> set cs. name_ok x" "c = ''/'' \<or> c = ''.'' \<or> name_ok c"
    using Cons by (simp_all add: path_ok_def list_all_iff)
  then have names: "\<forall>x \<in> set cs. CHR ''/'' \<notin> set x" and keep: "filter (\<lambda>c. c \<noteq> [] \<and> c \<noteq> ''.'') cs = cs"
    by (auto simp: name_ok_def intro: filter_True)
  show ?thesis
  proof (cases "c = ''/''")
    case True
    then show ?thesis using Cons path_split_join [OF _ names] keep
      by (cases "cs = []") (simp_all add: path_of_string_def string_of_path_def)
  next
    case False
    then have c: "CHR ''/'' \<notin> set c" "c \<noteq> []" using cs(2) by (auto simp: name_ok_def)
    then have "path_split (path_join (c # cs)) = c # cs" using names by (intro path_split_join) auto
    moreover have "path_join (c # cs) \<noteq> [] \<and> hd (path_join (c # cs)) \<noteq> CHR ''/''"
      using c by (cases cs) (auto simp: hd_append dest: hd_in_set)
    ultimately show ?thesis using False c keep Cons by (simp add: path_of_string_def string_of_path_def)
  qed
qed (simp add: path_of_string_def string_of_path_def)

lemma path_utf8_round: "path_utf8 p = Some s \<Longrightarrow> path_ok p \<Longrightarrow> path_of_string s = p"
  using path_round by (auto simp: path_utf8_def Let_def split: if_splits)

section \<open>Values are read back\<close>

lemma optional_string [simp]: "optional string_of_json (Some (json_option JString x)) = Some x"
  by (cases x) (simp_all add: optional_def)

lemma optional_word [simp]:
  "optional word_of_json (Some (json_option (\<lambda>w. JNumber (unat w)) (x :: 'a::len word option))) = Some x"
  by (cases x) (simp_all add: optional_def word_of_json_def)

lemma those_map_Some: "(\<And>x. x \<in> set xs \<Longrightarrow> f (g x) = Some x) \<Longrightarrow> those (map (\<lambda>x. f (g x)) xs) = Some xs"
  by (induction xs) auto

lemma btree_insert_last: "btree_ok (m @ [(k, v)]) \<Longrightarrow> btree_insert k v m = m @ [(k, v)]"
  by (induction m) (auto simp: btree_ok_def)

lemma btree_rebuild: "btree_ok m \<Longrightarrow> fold (\<lambda>(k, v). btree_insert k v) m [] = m"
proof (induction m rule: rev_induct)
  case (snoc b m)
  obtain k v where b: "b = (k, v)" by force
  have "btree_ok m" using snoc.prems by (simp add: btree_ok_def sorted_wrt_append)
  with snoc b show ?case by (simp add: btree_insert_last)
qed simp

lemma btree_of_json_round:
  assumes "btree_ok m" "\<And>k v. (k, v) \<in> set m \<Longrightarrow> key (fst (g (k, v))) = k \<and> f (snd (g (k, v))) = Some v"
  shows "btree_of_json key f (JObject (map g m)) = Some m"
proof -
  have "those (map (\<lambda>b. (\<lambda>(k, v). map_option (Pair (key k)) (f v)) (g b)) m) = Some m"
    using assms(2) by (intro those_map_Some) (auto simp: split_def)
  then show ?thesis using btree_rebuild [OF assms(1)] by (simp add: btree_of_json_def o_def)
qed

lemma memory_options_round: "memory_options_of_json (json_memory_options mo) = Some mo"
  by (simp add: memory_options_of_json_def json_memory_options_def struct_fields_def)

lemma metadata_round: "metadata_of_json (Some (json_option JString (name m))) (Some (json_option JString (hash m))) = Some m"
  by (simp add: metadata_of_json_def)

text \<open>Manifests serde can represent: their maps are maps and their paths are lists of components.\<close>

fun wasm_ok :: "Wasm \<Rightarrow> bool" where
  "wasm_ok (File p m) = path_ok p"
| "wasm_ok (Data d m) = True"
| "wasm_ok (Url req m) = btree_ok (headers req)"

definition manifest_json_ok :: "Manifest \<Rightarrow> bool" where
  "manifest_json_ok m \<longleftrightarrow> manifest_ok m \<and> (\<forall>w \<in> set (wasm m). wasm_ok w) \<and>
     (\<forall>ps. allowed_paths m = Some ps \<longrightarrow> (\<forall>(k, v) \<in> set ps. path_ok k \<and> path_ok v))"

lemma wasm_round:
  assumes "json_wasm encode w = Some j" "wasm_ok w" "\<And>d. decode (encode d) = Some d"
  shows "wasm_of_json decode process_memory j = Some w"
proof (cases w)
  case (File p m)
  then obtain s where s: "path_utf8 p = Some s" "j = JObject ((''path'', JString s) # json_metadata m)"
    using assms(1) by auto
  have "path_of_string s = p" using path_utf8_round [OF s(1)] assms(2) File by simp
  with s File show ?thesis
    by (simp add: wasm_of_json_def file_of_json_def json_metadata_def path_of_json_def metadata_round)
next
  case (Data d m)
  with assms show ?thesis
    by (auto simp: wasm_of_json_def file_of_json_def inline_of_json_def json_metadata_def data_of_json_def metadata_round)
next
  case (Url req m)
  have "btree_of_json (\<lambda>k. k) string_of_json (JObject (map (\<lambda>(k, v). (k, JString v)) (headers req))) = Some (headers req)"
    using assms(2) Url by (intro btree_of_json_round) auto
  with assms(1) Url show ?thesis
    by (auto simp: wasm_of_json_def file_of_json_def inline_of_json_def url_of_json_def json_http_request_def json_metadata_def
        metadata_round)
qed

lemma those_pointwise:
  "those (map f xs) = Some ys \<Longrightarrow> (\<And>x y. x \<in> set xs \<Longrightarrow> f x = Some y \<Longrightarrow> g y = Some x) \<Longrightarrow> those (map g ys) = Some xs"
proof (induction xs arbitrary: ys)
  case (Cons x xs)
  obtain y zs where *: "f x = Some y" "those (map f xs) = Some zs" "ys = y # zs"
    using Cons.prems(1) by (auto split: option.splits)
  have "g y = Some x" using Cons.prems(2) *(1) by simp
  moreover have "those (map g zs) = Some xs" by (rule Cons.IH [OF *(2)]) (simp add: Cons.prems(2))
  ultimately show ?case using *(3) by simp
qed simp

lemma path_entries_round:
  assumes ok: "btree_ok ps" "\<forall>(k, v) \<in> set ps. path_ok k \<and> path_ok v" and es: "those (map json_path_entry ps) = Some es"
  shows "btree_of_json path_of_string path_of_json (JObject es) = Some ps"
proof -
  have "those (map (\<lambda>(k, v). map_option (Pair (path_of_string k)) (path_of_json v)) es) = Some ps"
    using es by (rule those_pointwise)
      (use ok(2) path_utf8_round in \<open>fastforce simp: json_path_entry_def path_of_json_def split: option.splits\<close>)
  then show ?thesis using btree_rebuild [OF ok(1)] by (simp add: btree_of_json_def)
qed

lemma manifest_round:
  assumes j: "json_manifest encode m = Some j" and ok: "manifest_json_ok m" and enc: "\<And>d. decode (encode d) = Some d"
  shows "manifest_of_json decode process_memory j = Some m"
proof -
  let ?paths = "case allowed_paths m of None \<Rightarrow> Some JNull | Some ps \<Rightarrow> map_option JObject (those (map json_path_entry ps))"
  obtain ws ps where ws: "those (map (json_wasm encode) (wasm m)) = Some ws" and ps: "?paths = Some ps"
    and obj: "j = JObject
            [(''wasm'', JArray ws), (''memory'', json_memory_options (memory m)),
             (''config'', JObject (map (\<lambda>(k, v). (k, JString v)) (config m))),
             (''allowed_hosts'', json_option (\<lambda>hs. JArray (map JString hs)) (allowed_hosts m)),
             (''allowed_paths'', ps), (''timeout_ms'', json_option (\<lambda>w. JNumber (unat w)) (timeout_ms m))]"
    using j by (auto simp: json_manifest_def split: option.splits)
  have w: "list_of_json (wasm_of_json decode process_memory) (JArray ws) = Some (wasm m)"
    unfolding list_of_json_def json.case using ws
    by (rule those_pointwise) (use ok enc in \<open>auto simp: manifest_json_ok_def intro: wasm_round\<close>)
  have c: "btree_of_json (\<lambda>k. k) string_of_json (JObject (map (\<lambda>(k, v). (k, JString v)) (config m))) = Some (config m)"
    using ok by (intro btree_of_json_round) (auto simp: manifest_json_ok_def manifest_ok_def)
  have h: "optional (list_of_json string_of_json) (Some (json_option (\<lambda>hs. JArray (map JString hs)) (allowed_hosts m))) =
      Some (allowed_hosts m)"
    using those_map_Some [of _ string_of_json JString] by (cases "allowed_hosts m") (simp_all add: optional_def list_of_json_def o_def)
  have p: "optional (btree_of_json path_of_string path_of_json) (Some ps) = Some (allowed_paths m)"
  proof (cases "allowed_paths m")
    case (Some qs)
    then obtain es where es: "those (map json_path_entry qs) = Some es" "ps = JObject es" using ps by auto
    have "btree_of_json path_of_string path_of_json (JObject es) = Some qs"
      using ok Some es(1) by (intro path_entries_round) (auto simp: manifest_json_ok_def manifest_ok_def)
    then show ?thesis using Some es(2) by (simp add: optional_def)
  qed (use ps in \<open>simp add: optional_def\<close>)
  have fields: "struct_fields manifest_fields 0 j = Some (map (Some \<circ> snd) (case j of JObject es \<Rightarrow> es | _ \<Rightarrow> []))"
    by (simp add: obj struct_fields_def manifest_fields_def)
  show ?thesis
    unfolding manifest_of_json_def fields unfolding obj
    by (simp add: w memory_options_round c h p)
qed

section \<open>What is refused\<close>

lemma take_field_rest: "take_field ns es = Some (x, rest) \<Longrightarrow> (k, v) \<in> set es \<Longrightarrow> k \<notin> set ns \<Longrightarrow> (k, v) \<in> set rest"
  by (induction ns es arbitrary: x rest rule: take_field.induct) (auto split: option.splits if_splits)

lemma take_fields_rest:
  "take_fields nss es = Some (xs, rest) \<Longrightarrow> (k, v) \<in> set es \<Longrightarrow> k \<notin> \<Union> (set ` set nss) \<Longrightarrow> (k, v) \<in> set rest"
proof (induction nss arbitrary: es xs)
  case (Cons ns nss)
  obtain x rest1 ys where *: "take_field ns es = Some (x, rest1)" "take_fields nss rest1 = Some (ys, rest)"
    using Cons.prems(1) by (auto split: option.splits)
  from take_field_rest [OF *(1) Cons.prems(2)] Cons.IH [OF *(2)] Cons.prems(3) show ?case by auto
qed simp

lemma manifest_unknown:
  assumes "(k, v) \<in> set es" "k \<notin> \<Union> (set ` set manifest_fields)"
  shows "manifest_of_json decode process_memory (JObject es) = None"
proof -
  have "struct_fields manifest_fields 0 (JObject es) = None"
    using take_fields_rest [OF _ assms] by (auto simp: struct_fields_def split: option.splits list.splits)
  then show ?thesis by (simp add: manifest_of_json_def)
qed

section \<open>Manifests in the loader\<close>

text \<open>The text of an object is neither wasm nor the text format.\<close>

lemma object_text:
  assumes "t \<noteq> []" "hd t = 123"
  shows "\<not> is_wat t" "take 4 t \<noteq> WASM_MAGIC"
proof -
  obtain r where t: "t = 123 # r" using assms by (cases t) auto
  have "trim_start t = t" unfolding t by (rule trim_start_Cons_ascii) (simp_all add: white_space_def)
  then show "\<not> is_wat t" by (simp add: is_wat_def starts_with_def ascii_def t)
  show "take 4 t \<noteq> WASM_MAGIC" by (simp add: WASM_MAGIC_def t)
qed

end
