(* ===== verification/Spec2Isabelle.thy ===== *)
theory Spec2Isabelle
  imports Demo_Life Ownership Logging Dumps Manifest_Json
begin

text \<open>
  A verification of Extism's core as it stands in this repository: the kernel that manages the
  memory of a plugin, the host runtime that builds and runs plugins on top of it, its C interface,
  the manifest, and the memory allocator of the Otoroshi fork.

  \<^bold>\<open>The parts and how they interact.\<close>  A plugin is a set of wasm modules.  The first one is the
  kernel (\<^verbatim>\<open>kernel/src/lib.rs\<close>, shipped as \<^verbatim>\<open>extism-runtime.wasm\<close>): a heap of blocks in one
  linear memory, with registers for input, output and error.  The host (\<^verbatim>\<open>runtime/src\<close>) loads the
  modules a manifest (\<^verbatim>\<open>manifest/src\<close>) names, links and instantiates them, puts the input into the
  kernel's memory, calls the guest, and reads output or error back.  All of its accesses go through
  the kernel's exports (\<^verbatim>\<open>current_plugin.rs\<close>); the guest reaches the host through the functions of
  \<^verbatim>\<open>pdk.rs\<close> and those of the embedder (\<^verbatim>\<open>function.rs\<close>); Rust values become bytes by the \<^verbatim>\<open>convert\<close>
  crate; a timer thread (\<^verbatim>\<open>timer.rs\<close>) watches the deadlines of calls.  Programs in other languages
  use the C interface (\<^verbatim>\<open>sdk.rs\<close>, and \<^verbatim>\<open>otoroshi/sdk.rs\<close> of the fork).

  \<^bold>\<open>Theories.\<close>
  \<^item> \<^verbatim>\<open>Prelude\<close>: machine integers, little-endian encodings, a memory as a function from
    addresses to bytes, lemmas on them.  \<^verbatim>\<open>Wasm_Memory\<close>: loads, stores, fill, size and grow of
    wasm, with traps; a computation is a function to \<open>None\<close> (runs forever), \<open>Trap\<close>, or \<open>Ret\<close> with
    a value and the new memory.
  \<^item> \<^verbatim>\<open>Kernel\<close>: every operation of \<^verbatim>\<open>kernel/src/lib.rs\<close> on bytes, field by field, with the
    layout of the \<^verbatim>\<open>repr(C)\<close> structs computed.  The exports are named \<open>k_alloc\<close>, \<open>k_free\<close> and so
    on; the two searches are loops that may run forever.  \<^verbatim>\<open>Kernel_Heap\<close>: the abstract heap (a
    list of blocks and the registers) and its relation \<open>heap_repr\<close> to a memory.
    \<^verbatim>\<open>Kernel_Refine\<close>, \<^verbatim>\<open>Kernel_Alloc\<close>, \<^verbatim>\<open>Kernel_Ops\<close>: each export refines the abstract
    operation.  \<^verbatim>\<open>Kernel_Run\<close>: sequences of calls and histories of an instance.
    \<^verbatim>\<open>Kernel_Total\<close>: what lookups do on handles that are no block.
  \<^item> \<^verbatim>\<open>Allocator\<close>: the contract of an allocator as a locale, with what follows for sessions of
    calls.  \<^verbatim>\<open>Kernel_Laws\<close> and \<^verbatim>\<open>Plugin_Memory\<close> (\<^verbatim>\<open>runtime/src/otoroshi/custom_memory.rs\<close>) are its two
    interpretations.
  \<^item> \<^verbatim>\<open>Btree\<close>: ordered maps (a locale and the association list that stands for \<^verbatim>\<open>BTreeMap\<close>).
    \<^verbatim>\<open>Utf8\<close>: UTF-8 validation and the string functions the loader uses.  \<^verbatim>\<open>Convert\<close>: the codecs of
    \<^verbatim>\<open>convert/src\<close>, with locales for a codec and for one without an empty encoding.
  \<^item> \<^verbatim>\<open>Manifest\<close>, \<^verbatim>\<open>Manifest_Load\<close>: the manifest and its builders; loading, hashing and naming of the
    modules (\<^verbatim>\<open>manifest/src/lib.rs\<close>, \<^verbatim>\<open>runtime/src/manifest.rs\<close>).  \<^verbatim>\<open>Manifest_Json\<close>: manifests as JSON values,
    as the attributes on the types ask serde for.
  \<^item> \<^verbatim>\<open>Current_Plugin\<close>, \<^verbatim>\<open>Plugin_Laws\<close>: the host's view of a plugin's memory, the memory limiter.
    \<^verbatim>\<open>Pdk\<close>: the functions a guest may call.  \<^verbatim>\<open>Timer\<close>: the timer thread.  \<^verbatim>\<open>Plugin\<close>, \<^verbatim>\<open>Plugin_Call\<close>:
    instantiation, input, call, output, errors and the reset of the store.
    A host function is a function on the record \<open>CurrentPlugin\<close> to \<open>None\<close> (runs forever) or a
    result and the new state: \<open>Done\<close>, \<open>Err\<close>, or \<open>Fault\<close> where the Rust code would read or
    write outside of the memory.
  \<^item> \<^verbatim>\<open>Host_Function\<close>: functions of the embedder, their user data, and the macro \<^verbatim>\<open>host_fn!\<close>.
    \<^verbatim>\<open>Build\<close>: \<^verbatim>\<open>Plugin::build_new\<close> with its linker, a map from module and name to the last definition;
    what wasmtime decides is the record \<open>engine\<close>.  \<^verbatim>\<open>Builder\<close>: \<^verbatim>\<open>plugin_builder.rs\<close>.  \<^verbatim>\<open>First_Call\<close>: how
    the fresh kernel memory of a new plugin is initialised by its first call.
  \<^item> \<^verbatim>\<open>C_Api\<close>, \<^verbatim>\<open>C_Laws\<close>: \<^verbatim>\<open>sdk.rs\<close>; pointers to plugins are options, pointers into the kernel memory
    are offsets, arrays are lists, and the cells of functions are a map.  \<^verbatim>\<open>Otoroshi_Api\<close>:
    \<^verbatim>\<open>otoroshi/sdk.rs\<close>, with panics across the boundary as a value.  \<^verbatim>\<open>Ownership\<close>: the functions and plugins
    an embedder in C holds, and the cleanups of their user data.  \<^verbatim>\<open>Logging\<close>: the log setups of \<^verbatim>\<open>sdk.rs\<close> and
    \<^verbatim>\<open>lib.rs\<close>, one subscriber per process.  \<^verbatim>\<open>Dumps\<close>: the files of a call that fails.
  \<^item> \<^verbatim>\<open>Host_Keeps\<close>: an invariant of the state a guest can reach (a locale, \<open>host_invariant\<close>) and that every
    host function keeps it.  \<^verbatim>\<open>Lifecycle\<close>: what a guest can do, as steps (\<open>guest_step\<close>); the operations on a
    plugin from its construction on, as steps (\<open>plugin_step\<close>); what all of them keep.  \<^verbatim>\<open>Native_Call\<close>: errors
    that stay and initialisations that fail.  \<^verbatim>\<open>Store_Pointers\<close>: the raw pointers from \<^verbatim>\<open>CurrentPlugin\<close> back to its
    plugin (\<^verbatim>\<open>internal.rs\<close>), the calls with a trace of what runs through them, and that the trace changes nothing
    else.
  \<^item> \<^verbatim>\<open>Demo\<close>, \<^verbatim>\<open>Demo_Build\<close>, \<^verbatim>\<open>Demo_Life\<close>: concrete states, engines and guests for the witnesses.

  \<^bold>\<open>What the theorems show.\<close>  C1 to C8: the kernel on bytes does what the abstract heap says, for
  single calls, call sequences and whole histories; blocks in use never overlap; and where the
  code departs from its documentation (C7, C8).  C9 and C10: the same contract for
  \<^verbatim>\<open>PluginMemory\<close>, and how its compaction breaks it.  C11: codecs.  C12 to C15: loading, and manifests
  passed as text.  C16 to C18: the host reads back what it wrote, forged handles are harmless, the limit
  holds.  C19 to C23: the functions of a guest, those of the embedder included.  C24 to C26: the builder,
  what a built plugin guarantees, what a module may import.  C27: how a call ends.  C28 and C29: the timer.
  C30 to C34: the C interface, from the construction of a plugin to its output and its errors, the owners
  of user data, the logs.  C35 to C38: what goes wrong across calls - errors that native calls never clear,
  initialisations that are forgotten, and pointers that dangle - and what does not.  C39 and C40: the whole
  life of a plugin, and what the timer knows of it afterwards.

  \<^bold>\<open>Hypotheses on what is not in the sources.\<close>  \<open>kernel_ships\<close> says that an instance of the shipped
  kernel exports the functions the host calls and starts with zeros, \<open>links_need\<close> that wasmtime
  instantiates no module with an import the linker does not have.  \<open>sandboxed\<close> says that running guest code
  is a sequence of steps a guest can do with its imports - calls of the kernel with blocks it owns, of the
  functions of \<^verbatim>\<open>pdk.rs\<close>, of functions of the embedder that keep to the memory interface -, and that texts of
  its errors are shorter than 4 GiB.  C15 names what serde\_json, TOML and base64 are relied on for.

  \<^bold>\<open>Bounds.\<close>  The refinement of \<^verbatim>\<open>alloc\<close> needs a size from 1 to \<open>2 ^ 32 - 1\<close>: the size of a block
  is a \<^verbatim>\<open>usize\<close> of wasm32, and C8 shows what happens beyond.  Theorems on handles that may be
  forged need a memory of less than 65536 pages, so that an address of 32 bits does not wrap at
  the end of the memory.  The input of C30 fits into the first page of the heap, so that the call
  does not depend on a growth the engine may refuse.  The number of pages for an allocation is
  computed in the code with \<^verbatim>\<open>f64\<close>; it is exact for the sizes considered (below \<open>2 ^ 53\<close>), so the
  model rounds up in the integers.  \<^verbatim>\<open>usize\<close> of the host is a natural number.  No fuel is used: loops of
  the kernel are partial functions, and their termination is part of C1, C2 and C7.

  \<^bold>\<open>Abstractions.\<close>  A trap of the kernel leaves the memory as it was before the call; the code never
  uses the memory of a trapped call otherwise than to read the error.  The engine's decision on a
  growth of a memory is a function of the sizes, combined with the plugin's limiter.  Guest code is
  a function on the state of the plugin, so it may also use the kernel and host functions, fail or
  run forever.  The compiler, the file system, the network, SHA-256, TOML, JSON, URL and glob
  parsers are fields of records or arguments.  Texts of error messages are shortened.  A round of
  the timer takes one instant for all its deadlines.  A plugin in \<open>plugin\<close> is what a call works on;
  \<open>built\<close> adds what only the construction and the fork's C interface use.  Kernel names the embedder
  has shadowed count as missing in the host's view, and a kernel memory the fork's
  \<^verbatim>\<open>linear_memory_reset_from_plugin\<close> has replaced in the linker stays the kernel's memory in that view.

  \<^bold>\<open>Not modelled.\<close>  Locks; the version string; the release of error texts and result arrays by C; the JSON schema
  of a manifest; \<^verbatim>\<open>Debug\<close>; the bindings for other languages and the build scripts.
\<close>


section \<open>The kernel\<close>

text \<open>
  C1: the kernel's \<^verbatim>\<open>alloc\<close> over raw bytes does what the abstract heap says, for every size below
  4 GiB: it returns (it does not trap unless the host's limiter traps the growth, and it
  always ends), the handle is the abstract one, the memory represents the abstract heap, and
  no byte of the data of a live block has changed.
\<close>

theorem kernel_alloc_refines:
  assumes "heap_repr m h" "0 < n" "n < 4294967296"
  shows "case heap_alloc (growth m) n h of
      Trap \<Rightarrow> k_alloc (word_of_nat n) m = Some Trap
    | Ret (p, h') \<Rightarrow> \<exists>m'. k_alloc (word_of_nat n) m = Some (Ret (word_of_nat p, m')) \<and>
        heap_repr m' h' \<and> (\<forall>i. in_active 65 (h_blocks h) i \<longrightarrow> bytes m' i = bytes m i)"
  using k_alloc_refines_heap [OF assms] by (auto simp: alloc_agrees_def split: outcome.splits)

theorem kernel_alloc_refines_witness:
  "\<exists>m'. k_alloc 10 (initialised demo_mem) = Some (Ret (77, m')) \<and>
     heap_repr m' (heap_push 10 (heap_init 16))"
  using kernel_alloc_refines [OF demo_init(1), of 10] demo_init(2)
  by (simp add: heap_alloc_def heap_init_def Let_def)

text \<open>
  C2: \<^verbatim>\<open>free\<close> returns for every handle whose lookup stays within the memory, marks the block of
  the handle free, and changes nothing for a handle of no block; the data of live blocks stays.
\<close>

theorem kernel_free_refines:
  assumes "heap_repr m h" "p < 18446744073709551616" "findable m h p"
  shows "\<exists>m'. k_free (word_of_nat p) m = Some (Ret ((), m')) \<and> heap_repr m' (heap_free p h) \<and>
    heap_live (heap_free p h) = {b \<in> heap_live h. fst b \<noteq> p} \<and>
    (\<forall>i. in_active 65 (h_blocks h) i \<longrightarrow> bytes m' i = bytes m i)"
  using k_free_ok [OF assms] heap_free_live [OF heap_reprD(1) [OF assms(1)], of p] by auto

theorem kernel_free_refines_witness:
  "\<exists>m'. k_free 77 demo_mem1 = Some (Ret ((), m')) \<and> heap_repr m' (heap_free 77 demo_heap)"
  using kernel_free_refines [OF demo_repr1, of 77] demo_find by (auto simp: findable_def)





text \<open>
  C5: a list of calls over the bytes returns the values the abstract heap returns; the calls
  of the kernel's own test \<^verbatim>\<open>test_659\<close> give the handles that test expects.
\<close>

theorem kernel_calls_agree:
  assumes "heap_repr m h" "calls_ok (growth m) cs h"
  shows "\<exists>xs h' m'. heap_calls (growth m) cs h = Ret (xs, h') \<and>
    kernel_calls cs m = Some (Ret (map word_of_nat xs, m')) \<and> heap_repr m' h'"
  using kernel_calls_refine [OF assms] .

theorem kernel_calls_agree_witness:
  "\<exists>m'. kernel_calls
     [Reset, Alloc 1065, Alloc 288, Alloc 128, Length 1154, Length 1454, Free_block 1454, Alloc 213,
      Alloc 511, Alloc 4, Length 1454, Length 1819, Alloc 13, Length 2342, Alloc 336, Alloc 1077,
      Length 2367, Length 2715, Free_block 2715, Alloc 1094, Alloc 4, Alloc 4, Length 3772, Length 3788]
     (initialised demo_mem) =
   Some (Ret ([0, 77, 1154, 1454, 288, 128, 0, 1594, 1819, 1454, 4, 511, 2342, 13, 2367, 2715,
      336, 1077, 0, 3804, 3788, 3772, 4, 4], m'))"
  using kernel_calls_agree [OF demo_init(1), of
     "[Reset, Alloc 1065, Alloc 288, Alloc 128, Length 1154, Length 1454, Free_block 1454, Alloc 213,
      Alloc 511, Alloc 4, Length 1454, Length 1819, Alloc 13, Length 2342, Alloc 336, Alloc 1077,
      Length 2367, Length 2715, Free_block 2715, Alloc 1094, Alloc 4, Alloc 4, Length 3772, Length 3788]"]
  by (simp add: demo_init(2) heap_init_def heap_reset_def heap_alloc_def heap_push_def heap_free_def
      heap_find_def carve_def carve_offset_def Let_def) blast

text \<open>
  C6: \<^verbatim>\<open>reset\<close> empties the heap and all registers and keeps the size of the memory; nothing of
  the old data is left behind the root.
\<close>

theorem kernel_reset_empties:
  assumes "heap_repr m h"
  shows "\<exists>m'. k_reset m = Some (Ret ((), m')) \<and> heap_repr m' (heap_reset h) \<and>
    heap_live (heap_reset h) = {} \<and> (\<forall>i. 65 \<le> i \<and> i < mem_size m' \<longrightarrow> bytes m' i = 0)"
proof -
  obtain m' where m': "k_reset m = Some (Ret ((), m'))" "heap_repr m' (heap_reset h)"
    using k_reset_ok [OF assms] by blast
  moreover have "bytes m' i = 0" if "65 \<le> i" "i < mem_size m'" for i
    using heap_reprD(13) [OF m'(2), of i] that by (simp add: heap_reset_def)
  ultimately show ?thesis by auto
qed

theorem kernel_reset_empties_witness:
  "\<exists>m'. k_reset demo_mem1 = Some (Ret ((), m')) \<and> heap_repr m' (heap_reset demo_heap)"
  using kernel_reset_empties [OF demo_repr1] by blast

text \<open>
  What a store writes inside a live block a load reads back; the heap and every other live
  block are unchanged.
\<close>

lemma kernel_store_load:
  assumes "heap_repr m h" "heap_find h p = Some (xs, x, ys)" "o1 + 8 \<le> bused x"
  shows "\<exists>m'. k_store_u64 (word_of_nat (p + o1)) v m = Some (Ret ((), m')) \<and>
    k_load_u64 (word_of_nat (p + o1)) m' = Some (Ret (v, m')) \<and> heap_repr m' h \<and>
    (\<forall>i. i < p + o1 \<or> p + o1 + 8 \<le> i \<longrightarrow> bytes m' i = bytes m i)"
proof -
  have "bused x \<le> bsize x"
    using heap_reprD(1) [OF assms(1)] heap_find_SomeD(1) [OF assms(2)]
    by (auto simp: heap_ok_def blk_ok_def)
  then have act: "list_all (in_active 65 (h_blocks h)) [p + o1..<p + o1 + 8]"
    using block_range_active [OF assms(2)] assms(3) by (auto simp: list_all_iff)
  note st = store_u64_active [OF assms(1) act, of v]
  have "p + o1 + 8 \<le> mem_size m" "64 \<le> p + o1"
    using heap_find_SomeD [OF assms(2)] assms(3) \<open>bused x \<le> bsize x\<close>
      heap_okD [OF heap_reprD(1) [OF assms(1)]] heap_reprD(3) [OF assms(1)] by auto
  moreover have "pages m \<le> 65536" using heap_reprD(1,2) [OF assms(1)] by (simp add: heap_ok_def)
  ultimately show ?thesis
    using st k_load_u64_ok [of "m\<lparr>bytes := wr64 (bytes m) (p + o1) v\<rparr>" "p + o1"]
    by (auto simp: mem_simps)
qed

text \<open>
  C7: a lookup always ends, whatever the handle, in a memory below 4 GiB: \<^verbatim>\<open>length\<close> returns the
  length of the block, or returns 0, or traps, and it traps only for handles of no block.  The
  documentation promises 0 for those; in an empty heap the last sixty bytes of the memory trap.
\<close>

theorem kernel_length_total:
  assumes "heap_repr m h" "pages m < 65536"
  shows "((\<exists>xs x ys. heap_find h (unat p) = Some (xs, x, ys) \<and>
      k_length p m = Some (Ret (word_of_nat (bused x), m))) \<or>
    heap_find h (unat p) = None \<and> (k_length p m = Some (Ret (0, m)) \<or> k_length p m = Some Trap)) \<and>
    (h_blocks h = [] \<and> unat p \<le> mem_size m \<and> mem_size m < unat p + 61 \<longrightarrow> k_length p m = Some Trap)"
proof -
  have "word_of_nat (unat p) = p" by simp
  with k_length_total [OF assms unat_u64_less [of p]] k_length_trap_fresh [OF assms(1) _ assms(2), of "unat p"]
  show ?thesis by simp
qed

theorem kernel_length_total_witness:
  "k_length 77 demo_mem1 = Some (Ret (10, demo_mem1)) \<and> k_length 1048570 (initialised demo_mem) = Some Trap"
  using kernel_length_total [OF demo_repr1, of 77] demo_find kernel_length_total [OF demo_init(1), of 1048570]
    heap_reprD(2,3) [OF demo_init(1)]
  by (simp add: demo_mem1_simps heap_init_def)

text \<open>
  C8: \<^verbatim>\<open>alloc\<close> of a size of 4 GiB or more: while a free block fits the size truncated to 32 bits,
  that block is handed out, as for the truncated size; the caller gets a block that is too small.
\<close>

theorem kernel_alloc_truncates_size:
  assumes "heap_repr m h" "0 < n" "n < 4294967296" "first_fit n (h_blocks h) \<noteq> None"
  shows "k_alloc (word_of_nat (4294967296 * j + n)) m = k_alloc (word_of_nat n) m"
  using k_alloc_truncates [OF assms] .

theorem kernel_alloc_truncates_size_witness:
  "\<exists>m m'. k_alloc (word_of_nat (4294967296 * 3 + 10)) m = Some (Ret (77, m'))"
proof -
  obtain m where m: "heap_repr m (heap_free 77 demo_heap)"
    using k_free_ok [OF demo_repr1, of 77] demo_find by (auto simp: findable_def)
  have blocks: "h_blocks (heap_free 77 demo_heap) = [\<lparr>bstat = Free, bsize = 10, bused = 10\<rparr>]"
    by (simp add: heap_free_def demo_find)
  have "heap_alloc (growth m) 10 (heap_free 77 demo_heap) =
      Ret (77, (heap_free 77 demo_heap)\<lparr>h_blocks := [\<lparr>bstat = Active, bsize = 10, bused = 10\<rparr>]\<rparr>)"
    by (simp add: heap_alloc_def blocks carve_def carve_offset_def)
  with k_alloc_refines_heap [OF m, of 10] obtain m' where "k_alloc 10 m = Some (Ret (77, m'))"
    by (auto simp: alloc_agrees_def)
  with kernel_alloc_truncates_size [OF m, of 10 3] blocks show ?thesis
    by (auto simp del: of_nat_add of_nat_mult)
qed

text \<open>
  \<^verbatim>\<open>input_set\<close> checks the last byte of the input with wrapping arithmetic, so a length close
  to \<open>2 ^ 64\<close> passes the check and is stored.
\<close>

lemma kernel_input_set_wraps:
  assumes "heap_repr m h" "65 \<le> unat p" "unat p < 65 + h_length h" "1 < k" "k < unat p - 65"
  shows "\<exists>m'. k_input_set p (- word_of_nat k) m = Some (Ret ((), m')) \<and>
    heap_repr m' (h\<lparr>h_input_offset := p, h_input_length := - word_of_nat k\<rparr>)"
proof -
  have le: "k + 1 \<le> unat p" using assms(2,4,5) by linarith
  have w: "p + - word_of_nat k - 1 = word_of_nat (unat p - k - 1)"
    using le by (simp add: of_nat_diff)
  have "unat (p + - word_of_nat k - 1) = unat p - k - 1"
    using unat_u64_less [of p] by (simp only: w) (intro unat_nat64, simp)
  then have "in_bounds h p \<and> in_bounds h (p + - word_of_nat k - 1)"
    using assms(2,3,5) le by (auto simp: in_bounds_def)
  with k_input_set_ok [OF assms(1), of p "- word_of_nat k"] show ?thesis
    by (auto simp: run_agrees_def heap_input_set_def)
qed

section \<open>The allocator of plugins with a memory of their own\<close>

text \<open>
  C9: \<^verbatim>\<open>PluginMemory\<close> meets the same contract: after any session in which the compaction of the
  free list has nothing to merge, live and free blocks are pairwise apart and within the
  memory, handles of a session without frees are new and distinct, and unreleased blocks stay.
\<close>

theorem plugin_memory_sessions:
  assumes "session pm_take pm_free cs pm = Some (ps, pm')" "pm_ok pm"
    and "admissible pm_take pm_free pm_free_ok cs pm"
  shows "pm_ok pm' \<and>
    (\<forall>b \<in> pm_live pm'. fst b + snd b \<le> pm_size pm' \<and>
       (\<forall>c \<in> pm_live pm' \<union> free_set pm'. b = c \<or> apart b c)) \<and>
    (\<forall>b \<in> pm_live pm. fst b \<in> releases cs \<or> b \<in> pm_live pm') \<and>
    (releases cs \<noteq> {} \<or> distinct ps \<and> set ps \<inter> fst ` pm_live pm = {})"
proof -
  have ok: "pm_ok pm'" using plugin.session_invar [OF assms] .
  have "fst b + snd b \<le> pm_size pm' \<and> (\<forall>c \<in> pm_live pm' \<union> free_set pm'. b = c \<or> apart b c)"
    if "b \<in> pm_live pm'" for b
    using that pm_okD(1) [OF ok, of b] pm_okD(2) [OF ok, of b] pm_okD(6) [OF ok]
    by (auto simp: block_in_def)
  moreover have "distinct ps \<and> set ps \<inter> fst ` pm_live pm = {}" if "releases cs = {}"
    using plugin.session_handles [OF assms that] by simp
  ultimately show ?thesis using ok plugin.session_keeps [OF assms] by blast
qed

theorem plugin_memory_sessions_witness:
  "\<exists>pm'. session pm_take pm_free [Take 600, Take 40, Release 1, Take 100] (pm_new 1 (\<lambda>_ _. Refused)) =
     Some ([1, 601, 1], pm') \<and> pm_ok pm'"
proof -
  have run: "\<exists>pm'. session pm_take pm_free [Take 600, Take 40, Release 1, Take 100]
      (pm_new 1 (\<lambda>_ _. Refused)) = Some ([1, 601, 1], pm')"
    by (simp add: pm_take_def pm_alloc_def pm_new_def pm_size_def pm_free_def free_size_def pm_reuse_def
        usize_max_def BLOCK_SIZE_THRESHOLD_def Let_def)
  have adm: "admissible pm_take pm_free pm_free_ok [Take 600, Take 40, Release 1, Take 100]
      (pm_new 1 (\<lambda>_ _. Refused))"
    by (simp add: pm_take_def pm_alloc_def pm_new_def pm_size_def pm_free_ok_def usize_max_def free_size_def
        Let_def split: option.splits)
  from run obtain pm' where r: "session pm_take pm_free [Take 600, Take 40, Release 1, Take 100]
      (pm_new 1 (\<lambda>_ _. Refused)) = Some ([1, 601, 1], pm')" by blast
  with plugin_memory_sessions [OF r pm_new_ok adm] show ?thesis by simp
qed


section \<open>Conversions\<close>

text \<open>
  C11: the encodings of numbers are canonical: a sequence of bytes decodes to a value exactly when
  it is what that value is encoded as, within the range of the type; floats are their bit patterns.
  An optional number is the number, and a string decodes to itself or not at all.
\<close>

theorem convert_canonical:
  "(u64_from_bytes d = Inr w \<longleftrightarrow> u64_to_bytes w = Inr d) \<and>
   (u32_from_bytes d = Inr v \<longleftrightarrow> u32_to_bytes v = Inr d) \<and>
   (f64_from_bytes d = Inr w \<longleftrightarrow> f64_to_bytes w = Inr d) \<and>
   (f32_from_bytes d = Inr v \<longleftrightarrow> f32_to_bytes v = Inr d) \<and>
   (i64_from_bytes d = Inr i \<longleftrightarrow> i64_to_bytes i = Inr d \<and> - (2 ^ 63) \<le> i \<and> i < 2 ^ 63) \<and>
   (i32_from_bytes d = Inr i \<longleftrightarrow> i32_to_bytes i = Inr d \<and> - (2 ^ 31) \<le> i \<and> i < 2 ^ 31) \<and>
   (option_from_bytes u64_from_bytes d = Inr ow \<longleftrightarrow> option_to_bytes u64_to_bytes ow = Inr d) \<and>
   (string_from_bytes d = Inr s \<longleftrightarrow> string_to_bytes s = Inr d \<and> from_utf8_ok s)"
  using canonical_words(1,3) [of d w] canonical_words(2,4) [of d v] canonical_ints [of d i] canonical_option [of d ow]
  by (auto simp: string_from_bytes_def string_to_bytes_def)

section \<open>Manifests and loading\<close>

text \<open>
  C12: a successful load yields a main module and the kernel under its own name, one entry per
  module of the manifest besides the kernel (one for raw bytes), and every module was compiled
  from bytes that could be had; so the checks \<^verbatim>\<open>build_new\<close> makes afterwards never fail.
\<close>

theorem load_modules:
  assumes "load L input = Inr (t, mods)"
  shows "contains_key mods MAIN_KEY \<and> btree_get mods EXTISM_ENV_MODULE = compile L (runtime_wasm L) \<and>
    btree_ok mods \<and> 1 < length mods \<and>
    (length mods = 1 + length (wasm t) \<and> (\<forall>w \<in> set (wasm t). module_bytes L w \<noteq> None) \<or>
     t = manifest_default \<and> length mods = 2)"
  using load_ok [OF assms] .

theorem load_modules_witness:
  "\<exists>mods. load demo_loader (Input_manifest demo_two) = Inr (demo_two, mods) \<and>
     contains_key mods MAIN_KEY \<and> btree_get mods EXTISM_ENV_MODULE = Some [0] \<and> length mods = 3"
  using load_modules [OF demo_load] demo_load by (simp add: demo_loader_def)





text \<open>
  C15: a manifest that is written as JSON and handed to the loader as text - the way programs in other
  languages pass it to \<^verbatim>\<open>extism_plugin_new\<close> - loads as the manifest itself; an object with a key that no
  manifest has is refused.  serde\_json writes the text of an object, in UTF-8, and reads it back; what
  it writes is not TOML; the base64 crate decodes what it has encoded.
\<close>

theorem manifest_json_load:
  assumes "manifest_to_vec to_vec encode m = Some t" "manifest_json_ok m"
    and "\<forall>d. decode (encode d) = Some d" "\<forall>j. json_manifest encode m = Some j \<longrightarrow> parse (to_vec j) = Some j"
    and "json_from_str L = (\<lambda>d. Option.bind (parse d) (manifest_of_json decode process_memory))"
    and "toml_from_str L t = None" "from_utf8_ok t" "t \<noteq> []" "hd t = 123"
    and "(k, v) \<in> set es" "k \<notin> \<Union> (set ` set manifest_fields)"
  shows "load L (Input_data t) = load L (Input_manifest m) \<and>
    manifest_of_json decode process_memory (JObject es) = None"
proof -
  obtain j where j: "json_manifest encode m = Some j" "t = to_vec j" using assms(1) by (auto simp: manifest_to_vec_def)
  have "manifest_of_json decode process_memory j = Some m"
    using manifest_round [OF j(1) assms(2), of decode] assms(3) by blast
  then have "json_from_str L t = Some m" using j assms(4,5) by simp
  with object_text [OF assms(8,9)] assms(6,7) manifest_unknown [OF assms(10,11)] show ?thesis
    by (simp add: load_def Let_def split: sum.split)
qed

theorem manifest_json_load_witness:
  "\<exists>j L. json_manifest str_of demo_two = Some j \<and>
     L = demo_loader\<lparr>json_from_str := (\<lambda>d. Option.bind (if d = [123, 125] then Some j else None)
           (manifest_of_json (\<lambda>s. Some (bytes_of s)) (\<lambda>i. 0)))\<rparr> \<and>
     load L (Input_data [123, 125]) = Inr (demo_two, [(EXTISM_ENV_MODULE, [0]), (MAIN_KEY, [3]), (''x'', [2])]) \<and>
     manifest_of_json (\<lambda>s. Some (bytes_of s)) (\<lambda>i. 0) (JObject [(''alowed_hosts'', JArray [])]) = None"
proof -
  obtain j where j: "json_manifest str_of demo_two = Some j"
    by (simp add: json_manifest_def demo_two_def manifest_new_def manifest_default_def with_name_def with_hash_def wasm_data_def)
  let ?parse = "\<lambda>d :: u8 list. if d = [123, 125] then Some j else None"
  let ?L = "demo_loader\<lparr>json_from_str := (\<lambda>d. Option.bind (?parse d) (manifest_of_json (\<lambda>s. Some (bytes_of s)) (\<lambda>i. 0)))\<rparr>"
  have t: "manifest_to_vec (\<lambda>j. [123, 125]) str_of demo_two = Some [123, 125]" using j by (simp add: manifest_to_vec_def)
  have ok: "manifest_json_ok demo_two"
    by (simp add: manifest_json_ok_def manifest_ok_def demo_two_def manifest_new_def manifest_default_def with_name_def
        with_hash_def wasm_data_def)
  have L: "json_from_str ?L = (\<lambda>d. Option.bind (?parse d) (manifest_of_json (\<lambda>s. Some (bytes_of s)) (\<lambda>i. 0)))"
    "toml_from_str ?L [123, 125] = None" by (simp_all add: demo_loader_def)
  have p: "\<forall>j'. json_manifest str_of demo_two = Some j' \<longrightarrow> ?parse [123, 125] = Some j'" using j by simp
  have typo: "(''alowed_hosts'', JArray []) \<in> set [(''alowed_hosts'', JArray [])]"
    "''alowed_hosts'' \<notin> \<Union> (set ` set manifest_fields)" by (simp_all add: manifest_fields_def)
  have e: "\<forall>d. Some (bytes_of (str_of d)) = Some d" by simp
  have "load ?L (Input_manifest demo_two) = load demo_loader (Input_manifest demo_two)"
    by (simp add: load_def demo_loader_def demo_two_def manifest_new_def with_name_def with_hash_def
      wasm_data_def wasm_metadata_default_def module_new_def modules_def checked_module_def check_hash_def
      hex_def hex_digit_def name_of_module_def contains_key_def Let_def MAIN_KEY_def EXTISM_ENV_MODULE_def
      less_char_def)
  with manifest_json_load [OF t ok e p L _ _ _ typo] demo_load j show ?thesis
    by (auto simp: from_utf8_ascii)
qed

section \<open>The memory of a plugin, from the host\<close>

text \<open>
  C16: a value the host puts into the memory of a plugin is read back through the handle it got,
  for every encoding that reads back what it writes; values that were there before still are.
\<close>

theorem host_memory_roundtrip:
  assumes "cp_ok cp h" "enc x = Inr data" "dec data = Inr x" "data \<noteq> []" "length data < 4294967296"
    and "memory_new (enc x) cp = Some (Done hdl, cp')"
  shows "memory_get dec hdl cp' = Some (Done x, cp') \<and> (\<exists>h'. cp_ok cp' h') \<and>
    (\<forall>old d. in_heap h (handle_offset old) (handle_len old) \<longrightarrow> memory_bytes old cp = Some (Done d, cp) \<longrightarrow>
       memory_bytes old cp' = Some (Done d, cp'))"
proof -
  obtain h' where st: "stored cp h data hdl cp' h'"
    using memory_new_run [OF assms(1,4,5)] assms(2,6) by auto
  have "memory_get dec hdl cp' = Some (Done x, cp')"
    using stored_bytes [OF st] assms(3) by (simp add: memory_get_def hbind_Done decoded_def hret_def)
  with stored_keeps [OF st assms(1)] st show ?thesis by (auto simp: stored_def)
qed

theorem host_memory_roundtrip_witness:
  "\<exists>hdl cp'. memory_new (u64_to_bytes 7) demo_cp = Some (Done hdl, cp') \<and>
     memory_get u64_from_bytes hdl cp' = Some (Done 7, cp')"
proof -
  have enc: "u64_to_bytes 7 = Inr (to_le_bytes (7 :: u64))" "u64_from_bytes (to_le_bytes (7 :: u64)) = Inr 7"
    by (simp_all add: u64_to_bytes_def u64_from_bytes_def)
  obtain hdl cp' where new: "memory_new (u64_to_bytes 7) demo_cp = Some (Done hdl, cp')"
    using memory_new_run [OF demo_cp_ok(1), of "to_le_bytes (7 :: u64)"] enc(1)
      demo_take [of 8 "growth_verdict demo_cp"] by auto
  with host_memory_roundtrip [where enc = u64_to_bytes and dec = u64_from_bytes, OF demo_cp_ok(1) enc _ _ new]
  show ?thesis by auto
qed

text \<open>
  \<^verbatim>\<open>memory_new\<close> always comes back with a handle or an error, never leaves the memory, and
  fails only when the kernel has no block of the size to give.
\<close>

lemma host_memory_new_total:
  assumes "cp_ok cp h" "length data < 4294967296"
  shows "\<exists>r cp'. memory_new (Inr data) cp = Some (r, cp') \<and> r \<noteq> Fault \<and> (\<exists>h'. cp_ok cp' h') \<and>
    (\<forall>e. r = Err e \<longrightarrow> data \<noteq> [] \<and> heap_take (growth_verdict cp) (length data) h = None)"
proof (cases "data = []")
  case True
  then show ?thesis using assms(1) by (auto simp: memory_new_def hret_def)
next
  case False
  from memory_new_run [OF assms(1) False assms(2)] show ?thesis
    by (elim disjE exE conjE) (auto simp: stored_def False)
qed

text \<open>
  C17: \<^verbatim>\<open>memory_handle\<close> is safe for any offset a guest may pass, forged ones included: it returns,
  and the bytes of the handle it returns, if any, lie within the memory.
\<close>

theorem host_memory_handle_safe:
  assumes "cp_ok cp h" "pages (kernel_memory cp) < 65536"
  shows "\<exists>r cp'. memory_handle offs cp = Some (Done r, cp') \<and>
    (case r of None \<Rightarrow> offs \<noteq> 0
     | Some hdl \<Rightarrow> handle_offset hdl = offs \<and>
         (\<exists>d. memory_bytes hdl cp' = Some (Done d, cp') \<and> length d = handle_len hdl))"
proof -
  obtain r cp' where r: "memory_handle offs cp = Some (Done r, cp')" "same_heap cp cp'"
    and res: "case r of None \<Rightarrow> offs \<noteq> 0 \<and> (\<forall>n. in_heap h offs n \<longrightarrow> n = 0)
      | Some hdl \<Rightarrow> handle_offset hdl = offs \<and>
         (offs = 0 \<and> handle_length hdl = 0 \<or> in_heap h offs (handle_len hdl) \<and> 0 < handle_len hdl)"
    using memory_handle_run [OF assms] by blast
  have ok: "cp_ok cp' h" using same_heap_ok [OF r(2)] assms(1) by simp
  show ?thesis
  proof (cases r)
    case None
    with r res show ?thesis by auto
  next
    case (Some hdl)
    with res have "handle_offset hdl = 0 \<and> handle_length hdl = 0 \<or> in_heap h (handle_offset hdl) (handle_len hdl)"
      by auto
    from block_bytes_ok [OF ok this] r res Some show ?thesis by auto
  qed
qed

theorem host_memory_handle_safe_witness:
  "\<exists>r cp'. memory_handle 123456 demo_cp = Some (Done r, cp')"
  using host_memory_handle_safe [OF demo_cp_ok(1), of 123456] demo_cp_ok(2) by auto



section \<open>Host functions\<close>

text \<open>
  C19: \<^verbatim>\<open>config_get\<close> returns a handle to the value of the key in the manifest, or 0 when the key is
  absent; otherwise only for lack of memory does it fail.  Memory and variables stay intact.
\<close>

theorem pdk_config_get:
  assumes "cp_ok cp h" "pages (kernel_memory cp) < 65536" "holds cp h offs key" "from_utf8_ok key"
    and "\<forall>v. btree_get (config (manifest cp)) (str_of key) = Some v \<longrightarrow> length v < 4294967296"
  shows "\<exists>r cp' h'. config_get [I64 offs] cp = Some (r, cp') \<and> cp_ok cp' h' \<and> keeps_blocks h cp cp' \<and>
    vars cp' = vars cp \<and>
    (case btree_get (config (manifest cp)) (str_of key) of
       None \<Rightarrow> r = Done [I64 0]
     | Some v \<Rightarrow> (\<exists>o1. r = Done [I64 o1] \<and> holds cp' h' o1 (bytes_of v)) \<or>
         (\<exists>e g. r = Err e \<and> v \<noteq> [] \<and> heap_take g (length v) h = None))"
proof -
  obtain c1 where same: "same_heap cp c1" and run: "config_get [I64 offs] cp =
      (case btree_get (config (manifest cp)) (str_of key) of
         Some v \<Rightarrow> hbind (memory_new (Inr (bytes_of v))) (\<lambda>mem. hret [I64 (handle_offset mem)]) c1
       | None \<Rightarrow> Some (Done [I64 0], c1))"
    using config_get_key [OF assms(1-4)] by blast
  have ok1: "cp_ok c1 h" using same_heap_ok [OF same] assms(1) by simp
  have frame: "keeps_blocks h cp c' = keeps_blocks h c1 c'" "vars c1 = vars cp" for c'
    using same_heap_keeps [OF same] same by (simp_all add: same_heap_def)
  show ?thesis
  proof (cases "btree_get (config (manifest cp)) (str_of key)")
    case None
    with run ok1 frame show ?thesis by (auto simp: keeps_blocks_def)
  next
    case (Some v)
    then have "length (bytes_of v) < 4294967296" using assms(5) by (simp add: bytes_of_def)
    moreover have "bytes_of v = [] \<longleftrightarrow> v = []" "length (bytes_of v) = length v" by (simp_all add: bytes_of_def)
    ultimately show ?thesis
      using return_value_run [OF ok1, of "bytes_of v"] run Some frame by auto
  qed
qed

theorem pdk_config_get_witness:
  "\<exists>cp r cp'. config (manifest cp) = [(''k'', ''v'')] \<and> config_get [I64 77] cp = Some (r, cp')"
proof -
  obtain hdl cp h where st: "stored demo_cp (heap_init 16) [107] hdl cp h" and ok: "cp_ok cp h"
    "pages (kernel_memory cp) < 65536" "holds cp h (handle_offset hdl) [107]" "manifest cp = demo_manifest"
    by (rule demo_key)
  have "word_of_nat (unat (handle_offset hdl)) = (word_of_nat 77 :: u64)"
    using st by (simp only: stored_def demo_take) (simp add: demo_take)
  then have off: "handle_offset hdl = 77" by simp
  have "[107] = bytes_of ''k''" by (simp add: bytes_of_def)
  then have key: "str_of [107] = ''k''" "from_utf8_ok [107]"
    by (simp_all only: str_of_bytes_of) (simp_all add: from_utf8_ascii bytes_of_def)
  have conf: "config (manifest cp) = [(''k'', ''v'')]" using ok(4) by (simp add: demo_manifest_def)
  from pdk_config_get [OF ok(1-3) key(2)] key(1) conf off show ?thesis by auto
qed

text \<open>
  C20: a variable that was set is what \<^verbatim>\<open>var_get\<close> returns: the bytes of the value, for any key and
  value a guest has in memory.
\<close>

theorem pdk_var_set_get:
  assumes "cp_ok cp h" "pages (kernel_memory cp) < 65536" "holds cp h koffs key" "from_utf8_ok key"
    and "holds cp h voffs v" "v \<noteq> []" "length v < 4294967296" "vars_size cp \<le> var_limit"
  shows "\<exists>cp1 r cp2. var_set [I64 koffs, I64 voffs] cp = Some (Done [], cp1) \<and>
    var_get [I64 koffs] cp1 = Some (r, cp2) \<and>
    ((\<exists>o1 h2. r = Done [I64 o1] \<and> cp_ok cp2 h2 \<and> holds cp2 h2 o1 v) \<or>
     (\<exists>e g. r = Err e \<and> heap_take g (length v) h = None))"
proof -
  have nz: "voffs \<noteq> 0" using assms(5,6) by (simp add: holds_def)
  obtain c1 where same: "same_heap cp c1" and set: "var_set [I64 koffs, I64 voffs] cp =
      Some (Done [], c1\<lparr>vars := btree_insert (str_of key) v (vars cp)\<rparr>)"
    using var_set_key [OF assms(1-4), of voffs v] nz assms(5,8) by auto
  let ?c = "c1\<lparr>vars := btree_insert (str_of key) v (vars cp)\<rparr>"
  have ok: "cp_ok ?c h" "pages (kernel_memory ?c) < 65536" "holds ?c h koffs key"
    using same_heap_ok [OF same] same_heap_holds [OF same] assms(1-3) same
    by (auto simp: cp_ok_def holds_def same_heap_def)
  obtain c2 where same2: "same_heap ?c c2" and get: "var_get [I64 koffs] ?c =
      hbind (memory_new (Inr v)) (\<lambda>mem. hret [I64 (handle_offset mem)]) c2"
    using var_get_key [OF ok assms(4)] by (auto simp: btree_get_insert)
  have "cp_ok c2 h" using same_heap_ok [OF same2] ok(1) by simp
  from return_value_run [OF this assms(7)] get set show ?thesis by auto
qed

theorem pdk_var_set_get_witness:
  "\<exists>cp cp1. var_set [I64 77, I64 77] cp = Some (Done [], cp1)"
proof -
  obtain hdl cp h where st: "stored demo_cp (heap_init 16) [107] hdl cp h" and ok: "cp_ok cp h"
    "pages (kernel_memory cp) < 65536" "holds cp h (handle_offset hdl) [107]" "vars cp = [(''k'', [1, 2])]"
    by (rule demo_key)
  have "word_of_nat (unat (handle_offset hdl)) = (word_of_nat 77 :: u64)"
    using st by (simp only: stored_def demo_take) (simp add: demo_take)
  then have off: "handle_offset hdl = 77" by simp
  have "from_utf8_ok [107]" "vars_size cp \<le> var_limit"
    using ok(4) by (simp_all add: from_utf8_ascii vars_size_def var_limit_def)
  from pdk_var_set_get [OF ok(1-3) this(1) ok(3) _ _ this(2)] off show ?thesis by auto
qed

text \<open>
  Setting a variable to the null handle removes it, also when the store is full, and
  \<^verbatim>\<open>var_get\<close> then returns 0; the other variables keep their values.
\<close>

lemma pdk_var_remove:
  assumes "cp_ok cp h" "pages (kernel_memory cp) < 65536" "holds cp h koffs key" "from_utf8_ok key"
    and "btree_ok (vars cp)"
  shows "\<exists>cp1 cp2. var_set [I64 koffs, I64 0] cp = Some (Done [], cp1) \<and>
    var_get [I64 koffs] cp1 = Some (Done [I64 0], cp2) \<and>
    (\<forall>k. k \<noteq> str_of key \<longrightarrow> btree_get (vars cp1) k = btree_get (vars cp) k)"
proof -
  obtain c1 where same: "same_heap cp c1" and set: "var_set [I64 koffs, I64 0] cp =
      Some (Done [], c1\<lparr>vars := btree_remove (str_of key) (vars cp)\<rparr>)"
    using var_set_key [OF assms(1-4), of 0 "[]"] by auto
  let ?c = "c1\<lparr>vars := btree_remove (str_of key) (vars cp)\<rparr>"
  have ok: "cp_ok ?c h" "pages (kernel_memory ?c) < 65536" "holds ?c h koffs key"
    using same_heap_ok [OF same] same_heap_holds [OF same] assms(1-3) same
    by (auto simp: cp_ok_def holds_def same_heap_def)
  from var_get_key [OF ok assms(4)] set show ?thesis
    using assms(5) by (auto simp: btree_get_remove)
qed



text \<open>
  C22: a request to a host the manifest does not allow is refused and nothing is sent: the result
  does not depend on what the network would answer, and the last status stays.
\<close>

theorem pdk_http_not_allowed:
  assumes "cp_ok cp h" "pages (kernel_memory cp) < 65536" "holds cp h offs b" "http_enabled E"
    and "json_request E b = Some req" "url_host E (url req) = Some host"
    and "\<forall>hosts. allowed_hosts (manifest cp) = Some hosts \<longrightarrow>
      (\<forall>u \<in> set hosts. case glob_pattern E u of
           Some pat \<Rightarrow> \<not> pat (case host of None \<Rightarrow> [] | Some s \<Rightarrow> s)
         | None \<Rightarrow> u \<noteq> (case host of None \<Rightarrow> [] | Some s \<Rightarrow> s))"
  shows "\<exists>cp'. http_status cp' = http_status cp \<and> vars cp' = vars cp \<and>
    (\<forall>net. http_request (E\<lparr>http_send := net\<rparr>) [I64 offs, I64 body] cp =
       Some (Err (Message ''HTTP request is not allowed''), cp'))"
proof -
  obtain hdl c1 where c1: "handle_or offs cp = Some (Done hdl, c1)" "same_heap cp c1"
    "memory_bytes hdl c1 = Some (Done b, c1)"
    using handle_or_holds [OF assms(1-3)] by blast
  have "\<not> host_matches E (allowed_hosts (manifest cp)) (case host of None \<Rightarrow> [] | Some s \<Rightarrow> s)"
    using assms(7)
    by (cases "allowed_hosts (manifest cp)") (force simp: host_matches_def list_ex_iff split: option.splits)+
  moreover have "host_matches (E\<lparr>http_send := net\<rparr>) a s = host_matches E a s" for net a s
    by (cases a) (simp_all add: host_matches_def)
  ultimately have "\<not> host_matches (E\<lparr>http_send := net\<rparr>) (allowed_hosts (manifest c1))
      (case host of None \<Rightarrow> [] | Some s \<Rightarrow> s)" for net
    using c1(2) by (simp add: same_heap_def)
  then have "http_request (E\<lparr>http_send := net\<rparr>) [I64 offs, I64 body] cp =
      Some (Err (Message ''HTTP request is not allowed''), c1)" for net
    using c1 assms(4-6)
    by (simp add: http_request_def arg_i64_def hbind_def hret_def herr_def parse_request_def Let_def)
  with c1(2) show ?thesis by (auto simp: same_heap_def)
qed

theorem pdk_http_not_allowed_witness:
  "\<exists>cp'. http_request \<lparr>http_enabled = True, json_request = (\<lambda>b. Some (http_request_new ''http://b.org/'')),
      url_host = (\<lambda>u. Some (Some ''b.org'')), glob_pattern = (\<lambda>p. Some (\<lambda>s. p = s)),
      http_send = (\<lambda>m u hs b. Response 200 None)\<rparr> [I64 0, I64 0] demo_cp =
     Some (Err (Message ''HTTP request is not allowed''), cp')"
proof -
  let ?E = "\<lparr>http_enabled = True, json_request = (\<lambda>b. Some (http_request_new ''http://b.org/'')),
      url_host = (\<lambda>u. Some (Some ''b.org'')), glob_pattern = (\<lambda>p. Some (\<lambda>s. p = s)),
      http_send = (\<lambda>m u hs b. Response 200 None)\<rparr>"
  have "allowed_hosts (manifest demo_cp) = Some [''a.org'']" by (simp add: demo_cp_def demo_manifest_def)
  with pdk_http_not_allowed [OF demo_cp_ok(1), of 0 "[]" ?E "http_request_new ''http://b.org/''" "Some ''b.org''" 0]
  obtain cp' where all: "\<forall>net. http_request (?E\<lparr>http_send := net\<rparr>) [I64 0, I64 0] demo_cp =
       Some (Err (Message ''HTTP request is not allowed''), cp')"
    using demo_cp_ok(2) by (auto simp: holds_def)
  from spec [OF all, of "\<lambda>m u hs b. Response 200 None"] show ?thesis by auto
qed

text \<open>
  C23: a function written with \<^verbatim>\<open>host_fn!\<close>, called with handles of live blocks: the body gets the decoded
  values in order; its error is the error of the call; its result is in the memory of the plugin
  under the handle in the first output.  No other block changes.
\<close>

theorem host_fn_call:
  assumes "cp_ok cp h" "pages (kernel_memory cp) < 65536" "args_hold cp h decs offs xs" "outputs \<noteq> []"
    and "\<forall>y. body xs = Inr y \<longrightarrow> (\<exists>r. enc y = Inr r \<and> length r < 4294967296 \<and>
      (r = [] \<or> (\<forall>g. heap_take g (length r) h \<noteq> None)))"
  shows "\<exists>res cp' h'. host_fn decs body enc (map I64 offs) outputs cp = Some (res, cp') \<and> cp_ok cp' h' \<and>
    keeps_blocks h cp cp' \<and>
    (case body xs of
       Inl e \<Rightarrow> res = Err e
     | Inr y \<Rightarrow> \<exists>o1 r. enc y = Inr r \<and> res = Done (outputs[0 := I64 o1]) \<and> holds cp' h' o1 r)"
proof (cases "body xs")
  case (Inl e)
  obtain cp' where cp': "host_fn decs body enc (map I64 offs) outputs cp = Some (Err e, cp')" "same_heap cp cp'"
    using host_fn_error [where body = body and enc = enc, OF assms(1-3) Inl] by blast
  then have "cp_ok cp' h" "keeps_blocks h cp cp'"
    using same_heap_ok [OF cp'(2)] assms(1) by (simp_all add: keeps_blocks_def same_heap_def)
  with cp'(1) Inl show ?thesis by auto
next
  case (Inr y)
  then obtain r where r: "enc y = Inr r" "length r < 4294967296" "r = [] \<or> (\<forall>g. heap_take g (length r) h \<noteq> None)"
    using assms(5) by blast
  then have room: "r \<noteq> [] \<Longrightarrow> heap_take g (length r) h = None \<Longrightarrow> False" for g by blast
  from host_fn_run [where body = body and enc = enc, OF assms(1-3) Inr r(1,2) assms(4)] show ?thesis
    by (elim disjE exE conjE) (use Inr r(1) room in auto)
qed

theorem host_fn_call_witness:
  "\<exists>cp o1 cp'. host_fn [string_from_bytes] (\<lambda>xs. Inr (concat xs)) string_to_bytes [I64 77] [I64 0] cp =
     Some (Done [I64 o1], cp') \<and> read_bytes (bytes (kernel_memory cp')) (unat o1) 1 = [107]"
proof -
  obtain hdl cp h where st: "stored demo_cp (heap_init 16) [107] hdl cp h" and ok: "cp_ok cp h"
    "pages (kernel_memory cp) < 65536" "holds cp h (handle_offset hdl) [107]" by (rule demo_key)
  have "word_of_nat (unat (handle_offset hdl)) = (word_of_nat 77 :: u64)"
    using st by (simp only: stored_def demo_take) (simp add: demo_take)
  then have off: "handle_offset hdl = 77" by simp
  have "h = heap_push 1 (heap_init 16)" using st by (simp add: stored_def demo_take)
  then have room: "heap_take g 1 h \<noteq> None" for g
    by (simp add: heap_take_def heap_alloc_def heap_push_def heap_init_def Let_def)
  have "args_hold cp h [string_from_bytes] [77] [[107]]"
    using ok(3) off by (auto simp: string_from_bytes_def from_utf8_ascii)
  from host_fn_call [OF ok(1,2) this, of "[I64 0]" "\<lambda>xs. Inr (concat xs)" string_to_bytes] room
  obtain o1 cp' h' where "host_fn [string_from_bytes] (\<lambda>xs. Inr (concat xs)) string_to_bytes [I64 77] [I64 0] cp =
      Some (Done [I64 o1], cp')" "holds cp' h' o1 [107]"
    by (auto simp: string_to_bytes_def)
  then show ?thesis by (auto simp: holds_def)
qed

section \<open>The construction of a plugin\<close>

text \<open>
  C24: a chain of calls of the builder is one call of \<^verbatim>\<open>build_new\<close>: the functions in the order they were
  added, the last word on WASI and on the cache, and the debug options as they were changed in
  order; settings of different kinds do not interfere.
\<close>

theorem builder_equivalent:
  "builder_build E uuid (fold apply_setting ss (builder_new (en_var E) src)) =
     build_new E uuid src (concat (map setting_functions ss)) [] (last_wasi (rev ss))
       (fold setting_debug ss (debug_options_default (en_var E))) (last_cache (rev ss))"
  by (simp add: builder_build_def apply_settings_fields)



text \<open>
  C26: modules besides the main one are linked in the order of their names, before the functions of
  the host and of the embedder: whatever such a module imports comes from WASI or from a module
  whose name is smaller.  So it can use neither the host's functions nor the embedder's.
\<close>

theorem build_module_imports:
  assumes "build_new E uuid src fs ws w d c = Inr b" "links_need imports E"
    and "(n, m) \<in> set (module_map b)" "n \<noteq> MAIN_KEY" "(ns, x) \<in> imports m"
  shows "(w \<and> (\<exists>wn. wasi_names E = Some wn \<and> (ns, x) \<in> set wn)) \<or>
    (ns \<in> fst ` set (module_map b) \<and> ns < n \<and> ns \<noteq> MAIN_KEY)"
  using build_new_imports [OF assms] .

theorem build_module_imports_witness:
  "\<exists>b. build_new demo_engine 1 (Input_manifest demo_two) [] [] True (debug_options_default (\<lambda>v. None)) (Some None) = Inr b \<and>
     EXTISM_ENV_MODULE \<in> fst ` set (module_map b) \<and> EXTISM_ENV_MODULE < ''x''"
proof -
  obtain b where b: "build_new demo_engine 1 (Input_manifest demo_two) [] [] True (debug_options_default (\<lambda>v. None)) (Some None) = Inr b"
    "module_map b = [(EXTISM_ENV_MODULE, [0]), (MAIN_KEY, [3]), (''x'', [2])]" using demo_build by blast
  have "''x'' \<noteq> MAIN_KEY" "(EXTISM_ENV_MODULE, ''alloc'') \<in> demo_imports [2]"
    by (simp_all add: MAIN_KEY_def demo_imports_def)
  moreover have "(''x'', [2]) \<in> set (module_map b)" "\<not> (\<exists>wn. wasi_names demo_engine = Some wn \<and> (EXTISM_ENV_MODULE, ''alloc'') \<in> set wn)"
    using b(2) by (simp_all add: demo_engine_def)
  ultimately show ?thesis using build_module_imports [OF b(1) demo_links_need, of "''x''" "[2]" EXTISM_ENV_MODULE "''alloc''"] b(1)
    by blast
qed

section \<open>Calls\<close>

text \<open>
  The preparation of a call: it clears the error and the whole memory of the kernel, copies
  the input and points the input registers to it, or returns an error when there is no room.
  Afterwards the input is the only live block.
\<close>

lemma plugin_set_input:
  assumes "cp_ok (current p) h" "length input < 4294967296"
  shows "(\<exists>p' h'. set_input input p = Some (Done (), p') \<and> cp_ok (current p') h' \<and>
      h_error h' = 0 \<and> h_output_length h' = 0 \<and> h_input_length h' = word_of_nat (length input) \<and>
      holds (current p') h' (h_input_offset h') input \<and>
      heap_live h' = (if input = [] then {} else {(unat (h_input_offset h'), length input)}) \<and>
      vars (current p') = vars (current p) \<and> call_output p' = output_default)
    \<or> (\<exists>e p'. set_input input p = Some (Err e, p') \<and> (\<exists>g. heap_take g (length input) (heap_reset h) = None))"
  using set_input_run [OF assms]
proof (elim disjE exE conjE)
  fix p' h'
  assume "set_input input p = Some (Done (), p')" and ready: "input_ready p p' h' input"
  moreover have "p' = p\<lparr>call_output := output_default, current := current p'\<rparr>"
    using ready by (simp add: input_ready_def)
  then have "call_output p' = output_default" by (metis plugin.select_convs(7) plugin.surjective plugin.update_convs(2,7))
  ultimately show ?thesis by (intro disjI1) (auto simp: input_ready_def same_rest_def)
qed blast

text \<open>
  C27: how a call ends when the guest leaves no error message: a normal return gives the return
  code and the output registers as the guest set them; a WASI exit with code 0 is a success, with
  another code a failure with it; an interruption is a timeout.  The timer is told of the start
  and of the stop, once each, in every case.
\<close>

theorem plugin_call_outcome:
  assumes "instance_of p = Some fs" "btree_get fs n = Some f" "\<not> store_needs_reset p"
    and "length (f_results f) \<le> 1" "set_input input p = Some (Done (), p1)" "input_ready p p1 h1 input"
    and "f_code f [] (current p1) = Some (r, c)" "cp_ok c h" "h_error h = 0"
  shows "\<exists>p2 res. raw_call E n input True [] p = Some (res, [], p2) \<and>
    sent p2 = sent p @ timer_messages p \<and>
    out_offset (call_output p2) = h_output_offset h \<and> out_length (call_output p2) = h_output_length h \<and>
    (\<forall>vs. r = Inr vs \<longrightarrow> res = Ok (return_code True vs)) \<and>
    (r = Inl (Wasi_exit 0) \<longrightarrow> res = Ok 0) \<and>
    (\<forall>k. r = Inl (Wasi_exit k) \<and> k \<noteq> 0 \<longrightarrow> (\<exists>e. res = Failed e k)) \<and>
    (r = Inl Interrupt \<longrightarrow> res = Failed (Text ''timeout'') (if f_results f = [] then 0 else -1))"
proof -
  obtain p2 where call: "raw_call E n input True [] p =
      Some (final_result (guest_error r) (return_code True (guest_results f r)), [], p2)"
    "out_offset (call_output p2) = h_output_offset h" "out_length (call_output p2) = h_output_length h"
    "sent p2 = sent p @ timer_messages p"
    using raw_call_no_message [OF assms] by blast
  have "return_code True (guest_results f (Inl e)) = (if f_results f = [] then 0 else -1)" for e
    by (cases "f_results f") (simp_all add: return_code_def guest_results_def)
  with call show ?thesis
    by (auto simp: guest_error_def guest_results_def final_result_def)
qed

theorem plugin_call_outcome_witness:
  "\<forall>E. \<exists>p2. raw_call E ''echo'' [] True [] demo_plugin = Some (Ok 0, [], p2) \<and>
     sent p2 = [Start 1 () (Some 1000), Stop 1]"
proof
  fix E
  obtain p1 where p1: "set_input [] demo_plugin = Some (Done (), p1)"
    "input_ready demo_plugin p1 (heap_reset (heap_init 16)) []"
    "cp_ok (current p1) (heap_reset (heap_init 16))" by (rule demo_input)
  obtain c h where guest: "f_code echo_func [] (current p1) = Some (Inr [I32 0], c)" "cp_ok c h" "h_error h = 0"
    using echo_run [OF p1(3), of "[]"] by (auto simp: holds_def echo_func_def)
  have "timer_messages demo_plugin = [Start 1 () (Some 1000), Stop 1]"
    by (simp add: timer_messages_def demo_plugin_def demo_cp_def demo_manifest_def)
  moreover have "return_code True [I32 0] = 0" by (simp add: return_code_def)
  ultimately show "\<exists>p2. raw_call E ''echo'' [] True [] demo_plugin = Some (Ok 0, [], p2) \<and>
      sent p2 = [Start 1 () (Some 1000), Stop 1]"
    using plugin_call_outcome [OF _ _ _ _ p1(1,2) guest, of "[(''echo'', echo_func)]" "''echo''" E]
    by (auto simp: demo_plugin_def echo_func_def)
qed

text \<open>
  An error message the guest leaves in the error register is what the caller gets, with the
  return code of the guest; it takes precedence over a successful return and over a WASI exit.
\<close>

lemma plugin_call_message:
  assumes "instance_of p = Some fs" "btree_get fs n = Some f" "\<not> store_needs_reset p"
    and "length (f_results f) \<le> 1" "set_input input p = Some (Done (), p1)" "input_ready p p1 h1 input"
    and "f_code f [] (current p1) = Some (r, c)" "cp_ok c h" "pages (kernel_memory c) < 65536"
    and "holds c h (h_error h) s" "s \<noteq> []" "from_utf8_ok s" "str_of s \<noteq> ''oom''"
  shows "\<exists>p2 e. raw_call E n input True [] p =
      Some (Failed e (return_code True (guest_results f r)), [], p2) \<and> root_cause e = str_of s"
  using raw_call_message [OF assms(1-12), of E] assms(13)
  by (cases r) (auto simp: guest_error_def final_result_def)

text \<open>
  Input, call and output fit together: a guest that hands its input registers to the output
  registers gives the caller back every byte of what it passed in, of any length the memory holds.
\<close>

lemma plugin_echo_roundtrip:
  assumes "instance_of p = Some fs" "btree_get fs n = Some echo_func" "\<not> store_needs_reset p"
    and "cp_ok (current p) h" "length input < 4294967296"
    and "input \<noteq> [] \<longrightarrow> (\<forall>g. heap_take g (length input) (heap_reset h) \<noteq> None)"
  shows "\<exists>p'. call_get_error_code E bytes_to_bytes bytes_from_bytes n input p = Some (Inr input, p')"
  using echo_call [OF assms(1-5)] assms(6) by blast

text \<open>
  A plugin whose store has to be reset starts over: the kernel memory is a fresh one, the
  variables are gone, the memory budget is full again and the next call instantiates anew; the
  manifest and the limits stay.
\<close>

lemma plugin_store_reset:
  assumes "store_needs_reset p" "relink E = Inr mem" "pre_instantiate E = None"
    and "reset_store E p = (None, p')"
  shows "kernel_memory (current p') = mem \<and> vars (current p') = [] \<and> http_status (current p') = 0 \<and>
    instance_of p' = None \<and> instantiations p' = 0 \<and> \<not> store_needs_reset p' \<and>
    manifest (current p') = manifest (current p) \<and> available_pages (current p') = available_pages (current p) \<and>
    memory_limiter (current p') = map_option (\<lambda>k. \<lparr>bytes_left = unat k * 65536, max_bytes = unat k * 65536\<rparr>)
      (available_pages (current p)) \<and> reset_store E p' = (None, p')"
proof -
  obtain c where c: "current_plugin_new (env_ok E) (dir_ok E) (env_output E) (manifest (current p))
      (wasi (current p) \<noteq> None) (available_pages (current p)) (kernel_memory (current p))
      (linked (current p)) (engine_growth (current p)) = Inr c"
    "p' = p\<lparr>current := c\<lparr>kernel_memory := mem\<rparr>, instantiations := 0, instance_of := None,
      store_needs_reset := False\<rparr>"
    using assms by (auto simp: reset_store_def Let_def split: sum.splits)
  from c(1) have "vars c = [] \<and> http_status c = 0 \<and> manifest c = manifest (current p) \<and>
      available_pages c = available_pages (current p) \<and>
      memory_limiter c = map_option (\<lambda>k. \<lparr>bytes_left = unat k * 65536, max_bytes = unat k * 65536\<rparr>)
        (available_pages (current p))"
    by (auto simp: current_plugin_new_def Let_def map_sum_def split: if_splits)
  with c(2) show ?thesis by (simp add: reset_store_def)
qed

section \<open>The timer\<close>



text \<open>
  C29: the watch over a plugin for which no start has queued up: after a round it is gone if its
  deadline had passed or a stop or a cancellation for it was among the messages, and it goes on
  with the same engine and deadline otherwise.
\<close>

theorem timer_round_deadlines:
  assumes "timer_reach ep t" "plugins t \<noteq> []" "timer_round received now queued t = Some t'"
    and "\<forall>at e d. (at, Start k e d) \<notin> set queued"
  shows "btree_get (plugins t') k =
    (if \<exists>at. (at, Stop k) \<in> set queued \<or> (at, Cancel k) \<in> set queued then None
     else (case btree_get (plugins t) k of
         Some (e, Some d) \<Rightarrow> if d \<le> now then None else Some (e, Some d)
       | Some (e, None) \<Rightarrow> Some (e, None)
       | None \<Rightarrow> None))"
proof -
  have ok: "timer_ok ep t" using timer_reach_ok [OF assms(1)] .
  have "timer_handle_all queued (timer_expire now t) = Some t'"
    using assms(2,3) by (simp add: timer_round_def)
  moreover have "btree_ok (plugins (timer_expire now t))" using timer_expire_ok [OF ok] by (simp add: timer_ok_def)
  ultimately have queue: "btree_get (plugins t') k =
      (if \<exists>at. (at, Stop k) \<in> set queued \<or> (at, Cancel k) \<in> set queued then None
       else btree_get (plugins (timer_expire now t)) k)"
    using assms(4) by (rule timer_handle_all_get)
  have "btree_get (plugins (timer_expire now t)) k =
      (case btree_get (plugins t) k of
         Some (e, Some d) \<Rightarrow> if d \<le> now then None else Some (e, Some d)
       | Some (e, None) \<Rightarrow> Some (e, None)
       | None \<Rightarrow> None)"
    using ok by (auto simp: timer_ok_def timer_expire_def btree_get_filter split: option.splits)
  with queue show ?thesis by simp
qed

theorem timer_round_deadlines_witness:
  "\<exists>t t'. timer_reach (\<lambda>e :: unit. 0) t \<and> timer_round None 9 [(9, Start 8 () None)] t = Some t' \<and>
     btree_get (plugins t') 7 = None"
proof -
  let ?t = "\<lparr>plugins = [(7, (), Some 5)], epoch = (\<lambda>e :: unit. 0)\<rparr>"
  have step: "timer_round (Some (0, Start 7 () (Some 5))) 1 [] (timer_init (\<lambda>e. 0)) = Some ?t"
    by (simp add: timer_round_def timer_init_def timer_expire_def)
  note reach = reach_round [OF reach_init step]
  obtain t' where run: "timer_round None 9 [(9, Start 8 () None)] ?t = Some t'" by (simp add: timer_round_def)
  from timer_round_deadlines [OF reach _ run, of 7] reach run show ?thesis by auto
qed

section \<open>The C interface\<close>

text \<open>
  \<^verbatim>\<open>extism_plugin_new\<close> takes every function out of its cell, once, in the order of the first
  mention, and leaves all other cells alone, whether the plugin can be built or not.  A cell that is
  empty or mentioned twice is reported, although the plugin is built without it.
\<close>

lemma c_plugin_new_functions:
  assumes "extism_plugin_new E uuid data functions w has_errmsg c = Some (r, msg, c')"
  shows "c' = (\<lambda>i. if Some i \<in> set functions then None else c i) \<and>
    (\<forall>b. r = Some b \<longrightarrow> host_functions b = List.map_filter c (firsts (named functions)) \<and>
      (msg = Some Reused \<longleftrightarrow> \<not> distinct (named functions) \<or> (\<exists>i. Some i \<in> set functions \<and> c i = None)))"
proof -
  let ?funcs = "List.map_filter c (firsts (named functions))"
  let ?reused = "\<not> distinct (named functions) \<or> (\<exists>i \<in> set (named functions). c i = None)"
  have reused: "?reused \<longleftrightarrow> \<not> distinct (named functions) \<or> (\<exists>i. Some i \<in> set functions \<and> c i = None)"
    by (auto simp: set_named)
  have cells: "c' = (\<lambda>i. if Some i \<in> set functions then None else c i)"
    using assms by (auto simp: extism_plugin_new_def take_functions_run set_named Let_def split: if_splits sum.splits)
  have "host_functions b = ?funcs \<and> (msg = Some Reused \<longleftrightarrow> ?reused)" if "r = Some b" for b
  proof -
    from assms that have "plugin_new E uuid (Input_data data) ?funcs w = Inr b" "msg = (if ?reused then Some Reused else None)"
      by (auto simp: extism_plugin_new_def take_functions_run Let_def split: if_splits sum.splits)
    then show ?thesis unfolding plugin_new_def by (auto elim: build_new_InrD)
  qed
  with cells reused show ?thesis by blast
qed

text \<open>
  C30: from the construction to the output, through the C interface alone: the first call of a
  plugin whose guest hands its input registers to the output registers returns 0, leaves no error,
  and the output pointer and length designate exactly the input, in the memory of the kernel.
\<close>

theorem c_call_roundtrip:
  assumes "build_new B uuid src fs ws w d c = Inr b" "kernel_ships B"
    and "\<forall>f \<in> set fs. \<not> shadows_kernel (function_key f)" "\<forall>k \<in> memory_keys ws. \<not> shadows_kernel k"
    and "instantiate_main E (current (base b)) = Some (Inr (gs, None), current (base b))"
    and "\<forall>x \<in> set entry_points. btree_get gs x = None" "btree_get gs (str_of n) = Some echo_func"
    and "from_utf8_ok n" "length input < 65396"
  shows "\<exists>q. extism_plugin_call E show_host (Some (base b)) n input = Some (0, Some q) \<and>
    unat (extism_plugin_output_length (Some q)) = length input \<and>
    points_to (current q) (extism_plugin_output_data (Some q)) input \<and> extism_plugin_error (Some q) = Null"
proof -
  have fresh: "cp_fresh (current (base b))" using build_new_linked [OF assms(1-4)] by simp
  have rest: "instance_of (base b) = None" "runtime (base b) = None" "\<not> store_needs_reset (base b)"
    using assms(1) by (auto elim: build_new_InrD)
  obtain q h where call: "raw_call E (str_of n) input True [] (base b) = Some (Ok 0, [], q)"
    and ok: "cp_ok (current q) h" "holds (current q) h (out_offset (call_output q)) input"
    and out: "out_length (call_output q) = word_of_nat (length input)" "error_offset (call_output q) = 0"
    using first_echo_call [OF fresh rest assms(5) fresh assms(6,7,9)] by blast
  from holds_points_to [OF ok] call out assms(8,9) show ?thesis
    by (auto simp: extism_plugin_call_def extism_plugin_output_length_def extism_plugin_output_data_def
        extism_plugin_error_def word_nat)
qed

theorem c_call_roundtrip_witness:
  "\<exists>b q. plugin_new demo_engine 1 (Input_data demo_wasm) [] False = Inr b \<and>
     extism_plugin_call echo_env (\<lambda>e. []) (Some (base b)) (bytes_of ''echo'') [104, 105] = Some (0, Some q) \<and>
     points_to (current q) (extism_plugin_output_data (Some q)) [104, 105]"
proof -
  obtain b where b: "plugin_new demo_engine 1 (Input_data demo_wasm) [] False = Inr b" using demo_plugin_new by blast
  have gs: "instantiate_main echo_env (current (base b)) = Some (Inr ([(''echo'', echo_func)], None), current (base b))"
    "\<forall>x \<in> set entry_points. btree_get [(''echo'', echo_func)] x = None"
    "btree_get [(''echo'', echo_func)] (str_of (bytes_of ''echo'')) = Some echo_func"
    by (simp_all add: echo_env_def entry_points_def)
  have name: "from_utf8_ok (bytes_of ''echo'')" by (simp add: bytes_of_def from_utf8_ascii)
  from c_call_roundtrip [OF b [unfolded plugin_new_def] demo_kernel_ships _ _ gs name, of "[104, 105]" "\<lambda>e. []"]
  obtain q where "extism_plugin_call echo_env (\<lambda>e. []) (Some (base b)) (bytes_of ''echo'') [104, 105] = Some (0, Some q)"
    "points_to (current q) (extism_plugin_output_data (Some q)) [104, 105]"
    by (auto simp: memory_keys_def)
  with b show ?thesis by blast
qed

text \<open>
  C31: an error message of the guest reaches the C caller: the call returns the code of the guest and
  \<^verbatim>\<open>extism_plugin_error\<close> points to the text.  The text is the message only if the guest has returned; if
  it has also failed, the caller sees that error, and the message is not in it.
\<close>

theorem c_call_error:
  assumes "instance_of p = Some fs" "btree_get fs (str_of n) = Some f" "\<not> store_needs_reset p"
    and "length (f_results f) \<le> 1" "from_utf8_ok n"
    and "set_input input p = Some (Done (), p1)" "input_ready p p1 h1 input"
    and "f_code f [] (current p1) = Some (r, c)" "cp_ok c h" "pages (kernel_memory c) < 65536"
    and "holds c h (h_error h) s" "s \<noteq> []" "from_utf8_ok s" "str_of s \<noteq> ''oom''"
    and "t = (case r of Inr vs \<Rightarrow> s | Inl e \<Rightarrow> bytes_of (display_error e))"
    and "t \<noteq> []" "length t < 4294967296" "\<forall>g. heap_take g (length t) h \<noteq> None"
  shows "\<exists>q. extism_plugin_call E show_host (Some p) n input =
      Some (return_code True (guest_results f r), Some q) \<and>
    points_to (current q) (extism_plugin_error (Some q)) t \<and>
    error_length (call_output q) = word_of_nat (length t)"
proof -
  have t: "shown_message r s = t" using assms(15) by (simp add: shown_message_def)
  from call_message_run [OF assms(1-14), unfolded t, OF assms(16,17)] assms(18) show ?thesis by simp
qed

theorem c_call_error_witness:
  "\<forall>E show_host. \<exists>q. extism_plugin_call E show_host (Some bad_plugin) (bytes_of ''bad'') [] = Some (7, Some q) \<and>
     points_to (current q) (extism_plugin_error (Some q)) [98, 97, 100]"
proof (intro allI)
  fix E show_host
  obtain p1 c h where p1: "set_input [] bad_plugin = Some (Done (), p1)"
    "input_ready bad_plugin p1 (heap_reset (heap_init 16)) []"
    and guest: "f_code bad_func [] (current p1) = Some (Inr [I32 7], c)" "cp_ok c h"
    "pages (kernel_memory c) < 65536" "holds c h (h_error h) [98, 97, 100]" "\<forall>g. heap_take g 3 h \<noteq> None"
    by (rule bad_input)
  have s: "from_utf8_ok [98, 97, 100]" "str_of [98, 97, 100] = ''bad''" "from_utf8_ok (bytes_of ''bad'')"
    by (code_simp, code_simp, code_simp)
  have room: "\<forall>g. heap_take g (length [98 :: u8, 97, 100]) h \<noteq> None"
    using guest(5) by (simp add: numeral_3_eq_3)
  have "return_code True [I32 7] = 7" by (simp add: return_code_def)
  then show "\<exists>q. extism_plugin_call E show_host (Some bad_plugin) (bytes_of ''bad'') [] = Some (7, Some q) \<and>
      points_to (current q) (extism_plugin_error (Some q)) [98, 97, 100]"
    using c_call_error [OF _ _ _ _ s(3) p1 guest(1-4), of "[(''bad'', bad_func)]" "[98, 97, 100]" E show_host]
      room s
    by (auto simp: bad_plugin_def demo_plugin_def bad_func_def guest_results_def)
qed

text \<open>
  C32: results of a C callback: integers arrive as the callback left them, but a 32-bit float from 1.0
  up to \<open>2 ^ 23\<close> never does: it is converted to an integer, whose bits become the float.
\<close>

theorem c_callback_values:
  "callback_val (extism_val_from (I32 i)) = Some (I32 i) \<and>
   callback_val (extism_val_from (I64 j)) = Some (I64 j) \<and>
   (0x3F800000 \<le> b \<and> b < 0x4B000000 \<longrightarrow>
     (\<exists>b'. callback_val (extism_val_from (F32 b)) = Some (F32 b') \<and> b' \<noteq> b \<and> unat b' < 16777216))"
  using callback_integers callback_float_lost by blast

theorem c_callback_values_witness:
  "\<exists>b'. callback_val (extism_val_from (F32 0x3FC00000)) = Some (F32 b') \<and> b' \<noteq> 0x3FC00000"
  using c_callback_values [of 0 0 "0x3FC00000"] by auto

text \<open>
  C33: whatever an embedder does with its functions and plugins in C, the cleanup of every user data it
  handed over runs once, when its owner goes, and not before: the cleanups so far and the user data that
  still has an owner are together what was handed over.  The functions a running plugin is linked to
  have their user data.  A box of a function is only ever freed by \<^verbatim>\<open>extism_function_free\<close>.
\<close>

theorem c_user_data_once:
  assumes "c_run E lossy ops world_init = Some w"
  shows "mset (released w) + mset (owned w) = mset (concat (map handed_over ops)) \<and>
    (\<forall>(a, b) \<in> set (running w). \<forall>k f. links b k = Some (Host_export f) \<longrightarrow> set (function_drop f) \<subseteq> set (owned w)) \<and>
    length (boxes w) + sum_list (map boxes_freed ops) = sum_list (map boxes_made ops)"
proof -
  note B = c_run_balanced [OF world_init_ok(1) assms]
  then have "\<forall>(a, b) \<in> set (running w). links_owned b" by (simp add: balanced_def world_ok_def)
  then have "\<forall>(a, b) \<in> set (running w). \<forall>k f. links b k = Some (Host_export f) \<longrightarrow> set (function_drop f) \<subseteq> set (owned w)"
    by (fastforce simp: links_owned_def owned_def built_drop_def)
  with B show ?thesis by (simp add: balanced_def world_init_ok)
qed

theorem c_user_data_once_witness:
  "\<exists>w. c_run demo_engine str_of
      [Function_new 1 (bytes_of ''f'') [] [] (\<lambda>i out n cp. None) 100 True,
       Function_new 2 (bytes_of ''g'') [] [] (\<lambda>i out n cp. None) 200 True,
       Plugin_new 1 5 demo_wasm [Some 1] False False, Plugin_free (Some 5)] world_init = Some w \<and>
     mset (released w) + mset (owned w) = {#100, 200#} \<and> released w = [100] \<and> length (boxes w) = 2"
proof -
  have utf8: "from_utf8_ok (bytes_of ''f'')" "from_utf8_ok (bytes_of ''g'')"
    by (simp_all add: bytes_of_def from_utf8_ascii)
  obtain f g where f: "extism_function_new (bytes_of ''f'') [] [] (\<lambda>i out n cp. None) 100 True = Some f"
    "extism_function_new (bytes_of ''g'') [] [] (\<lambda>i out n cp. None) 200 True = Some g" "function_drop f = [100]"
    using utf8 by (auto simp: extism_function_new_def function_drop_calls function_new_def userdata_new_pointer_def)
  obtain b where b: "plugin_new demo_engine 1 (Input_data demo_wasm) [f] False = Inr b" using demo_plugin_new by blast
  then have hb: "host_functions b = [f]" by (auto simp: plugin_new_def elim: build_new_InrD)
  let ?ops = "[Function_new 1 (bytes_of ''f'') [] [] (\<lambda>i out n cp. None) 100 True,
       Function_new 2 (bytes_of ''g'') [] [] (\<lambda>i out n cp. None) 200 True,
       Plugin_new 1 5 demo_wasm [Some 1] False False, Plugin_free (Some 5)] :: u8 list c_op list"
  obtain w where w: "c_run demo_engine str_of ?ops world_init = Some w" "released w = [100]" "length (boxes w) = 2"
    using f b hb by (auto simp: world_init_def contains_key_def cells_of_def keep_plugin_def extism_plugin_new_def
        extism_plugin_free_def)
  from c_user_data_once [OF w(1)] utf8 have "mset (released w) + mset (owned w) = {#100, 200#}" by simp
  with w show ?thesis by blast
qed

text \<open>
  C34: the lines that \<^verbatim>\<open>extism_log_drain\<close> hands out after the \<^verbatim>\<open>extism_log_custom\<close> that set up the logs
  are those that were logged and pass its filter, each once and in their order, whatever other setups are tried
  in between.  A further \<^verbatim>\<open>extism_log_custom\<close> fails, and after it nothing comes out any more.
\<close>

theorem c_log_lines:
  assumes "log_subscriber s = None" "text_or ''error'' l = Some level"
    and "log_run L (Log_custom l # xs) s = Some (out, s1)" "\<forall>x \<in> set xs. \<not> replaces x"
    and "replaces (Log_custom l2)" "log_run L (Log_custom l2 # ys) s1 = Some (out2, s2)" "\<forall>x \<in> set ys. \<not> replaces x"
  shows "out @ fst (extism_log_drain s1) = concat (map (line_of (le_passes L (env_filter (le_level L) level))) xs) \<and>
    \<not> fst (extism_log_custom (le_level L) l2 s1) \<and> out2 @ fst (extism_log_drain s2) = []"
proof -
  let ?i = "length (log_buffers s)" and ?f = "env_filter (le_level L) level"
  let ?sub = "\<lparr>sub_filter = ?f, sub_ansi = False, sub_target = To_buffer ?i\<rparr>"
  let ?s = "s\<lparr>log_buffers := log_buffers s @ [[]], log_global := Some ?i, log_subscriber := Some ?sub\<rparr>"
  have "log_run L xs ?s = Some (out, s1)"
    using assms(1-3) by (auto simp: extism_log_custom_def set_log_buffer_def try_init_def Let_def)
  from log_run_buffers [OF this assms(4)]
  have A: "log_subscriber s1 = Some ?sub" "log_global s1 = Some ?i" "length (log_buffers s1) = ?i + 1"
    "out @ log_buffers s1 ! ?i = concat (map (line_of (le_passes L ?f)) xs)" by simp_all
  let ?j = "length (log_buffers s1)"
  let ?s1 = "s1\<lparr>log_buffers := log_buffers s1 @ [[]], log_global := Some ?j\<rparr>"
  have again: "extism_log_custom (le_level L) l2 s1 = (False, ?s1)"
    using assms(5) A(1) by (auto simp: extism_log_custom_def set_log_buffer_def try_init_def Let_def split: option.splits)
  then have "log_run L ys ?s1 = Some (out2, s2)" using assms(6) by auto
  moreover have "?i \<noteq> ?j" using A(3) by simp
  ultimately have "log_global s2 = Some ?j" "out2 @ log_buffers s2 ! ?j = []"
    using log_run_buffers [OF _ assms(7), of L ?s1 out2 s2 ?sub ?j] A(1) by simp_all
  with A again show ?thesis by (simp add: extism_log_drain_def)
qed

theorem c_log_lines_witness:
  "\<exists>s1 s2. log_run \<lparr>le_level = (\<lambda>l. l = ''warn''), le_open = (\<lambda>f. True), le_passes = (\<lambda>f b. True)\<rparr>
      [Log_custom (Some (bytes_of ''warn'')), Log_line [97], Log_drain, Log_file None None, Log_line [98], Log_line [0]] log_init =
      Some ([([97], 1)], s1) \<and>
     fst (extism_log_drain s1) = [([98], 1)] \<and>
     log_run \<lparr>le_level = (\<lambda>l. l = ''warn''), le_open = (\<lambda>f. True), le_passes = (\<lambda>f b. True)\<rparr>
      [Log_custom None, Log_line [99], Log_drain] s1 = Some ([], s2)"
proof -
  let ?L = "\<lparr>le_level = (\<lambda>l. l = ''warn''), le_open = (\<lambda>f. True), le_passes = (\<lambda>f b. True)\<rparr> :: log_env"
  let ?xs = "[Log_line [97], Log_drain, Log_file None None, Log_line [98], Log_line [0]]"
  have utf8: "text_or ''error'' (Some (bytes_of ''warn'')) = Some ''warn''"
    "from_utf8_ok [97]" "from_utf8_ok [98]" "from_utf8_ok [0]"
    by (simp_all add: text_or_def from_utf8_ascii) (simp add: bytes_of_def from_utf8_ascii)
  obtain s1 where s1: "log_run ?L (Log_custom (Some (bytes_of ''warn'')) # ?xs) log_init = Some ([([97], 1)], s1)"
    using utf8 by (auto simp: extism_log_custom_def set_log_buffer_def try_init_def log_init_def log_write_def
        buffer_write_def extism_log_drain_def extism_log_file_def set_log_file_def Let_def)
  obtain out2 s2 where s2: "log_run ?L [Log_custom None, Log_line [99], Log_drain] s1 = Some (out2, s2)"
    by (cases "extism_log_drain (log_write (\<lambda>f b. True) [99] (snd (extism_log_custom (\<lambda>l. l = ''warn'') None s1)))") simp
  have none: "log_subscriber log_init = None" by (simp add: log_init_def)
  have re: "replaces (Log_custom None)" by simp
  from c_log_lines [OF none utf8(1) s1 _ re s2] utf8 s1 s2 show ?thesis by simp
qed

section \<open>Errors that stay and errors that are forgotten\<close>


text \<open>
  C35: in native calls (\<^verbatim>\<open>wasm_otoroshi_call\<close> and its variants) an error is never cleared: once a plugin
  has one, every later native call fails, whatever its guest does, and leaves an error again.
\<close>

theorem otoroshi_error_sticks:
  assumes "sandboxed H E" "plugin_fine H p" "has_error p" "tells p"
    and "length n < 2147483648" "\<forall>e. small (show_host e)"
    and "wasm_otoroshi_plugin_call_native E show_host (Some p) n params = Some (results, Some p')"
  shows "results = None \<and> has_error p' \<and> plugin_fine H p' \<and> tells p'"
  using native_call_fails [OF assms(1-7)] .

theorem otoroshi_error_sticks_witness:
  "\<exists>p1 p2. wasm_otoroshi_plugin_call_native echo_env (\<lambda>e. []) (Some demo_plugin) (bytes_of ''none'') None = Some (None, Some p1) \<and>
     wasm_otoroshi_plugin_call_native echo_env (\<lambda>e. []) (Some p1) (bytes_of ''echo'') None = Some (None, Some p2) \<and>
     (\<exists>p3. wasm_otoroshi_plugin_call_native echo_env (\<lambda>e. []) (Some demo_plugin) (bytes_of ''echo'') None =
        Some (Some [I32 0], Some p3))"
proof -
  obtain p1 h where p1: "wasm_otoroshi_plugin_call_native echo_env (\<lambda>e. []) (Some demo_plugin) (bytes_of ''none'') None =
      Some (None, Some p1)" "cp_ok (current p1) h" "instance_of p1 = Some [(''echo'', echo_func)]" "has_error p1" "tells p1"
    and fine: "\<And>H. plugin_fine H p1" using demo_native_error by metis
  obtain r p2 where p2: "wasm_otoroshi_plugin_call_native echo_env (\<lambda>e. []) (Some p1) (bytes_of ''echo'') None = Some (r, Some p2)"
    using demo_native_again [OF p1(2-5) fine] by blast
  from otoroshi_error_sticks [OF echo_sandboxed fine p1(4,5) _ _ p2] have "r = None"
    by (simp add: bytes_of_def small_def)
  with p1(1) p2 demo_native_echo show ?thesis by blast
qed



section \<open>Pointers to the store\<close>

text \<open>
  C37: in a call through Extism's interface on an instantiated plugin, wherever it lies and wherever its
  pointers to store and linker led before, everything that runs through these pointers - the guest's
  function, the error position, the texts of errors - finds them set to this very plugin.
\<close>

theorem store_pointers_extism_call:
  assumes "plugin_fine H p" "instance_of p \<noteq> None" "from_utf8_ok n"
    and "extism_plugin_call_at E show_host a p q n data = Some (t, x, p', q')"
  shows "extism_plugin_call E show_host (Some p) n data = Some (x, Some p') \<and>
    usable a q' \<and> (\<forall>(y, ok) \<in> set t. ok)"
  using assms extism_plugin_call_at_result [of E show_host a p q n data]
  by (auto simp: extism_plugin_call_at_def return_error_at_def touch_def
      dest!: raw_call_at_usable [OF assms(1,2)] split: if_splits option.splits call_result.splits prod.splits)

theorem store_pointers_extism_call_witness:
  "\<exists>t p' q'. extism_plugin_call_at echo_env (\<lambda>e. []) 2 demo_plugin (build_new_pointers 7) (bytes_of ''echo'') [104, 105] =
      Some (t, 0, p', q') \<and> usable 2 q' \<and> (\<forall>(y, ok) \<in> set t. ok) \<and> \<not> usable 2 (build_new_pointers 7)"
proof -
  have ok: "cp_ok (current demo_plugin) (heap_init 16)" using demo_cp_ok(1) by (simp add: demo_plugin_def)
  obtain p1 where "raw_call echo_env ''echo'' [104, 105] True [] demo_plugin = Some (Ok 0, [], p1)"
    using echo_raw_call [OF _ _ _ ok, of "[(''echo'', echo_func)]" "''echo''" "[104, 105]" echo_env] demo_room [of "[104, 105]"]
    by (auto simp: demo_plugin_def)
  then have "extism_plugin_call echo_env (\<lambda>e. []) (Some demo_plugin) (bytes_of ''echo'') [104, 105] = Some (0, Some p1)"
    by (simp add: extism_plugin_call_def utf8_names)
  then obtain t q' where call: "extism_plugin_call_at echo_env (\<lambda>e. []) 2 demo_plugin (build_new_pointers 7)
      (bytes_of ''echo'') [104, 105] = Some (t, 0, p1, q')"
    using extism_plugin_call_at_result [of echo_env "\<lambda>e. []" 2 demo_plugin "build_new_pointers 7" "bytes_of ''echo''" "[104, 105]"]
    by auto
  have "instance_of demo_plugin \<noteq> None" by (simp add: demo_plugin_def)
  from store_pointers_extism_call [OF demo_plugin_fine this utf8_names(1) call] call
  show ?thesis by (auto simp: build_new_pointers_def)
qed

text \<open>
  C38: the pointers that \<^verbatim>\<open>build_new\<close> sets lead to its local variable: once the plugin has moved out of it,
  everything that native calls run - start function, guest, texts of errors - runs with dangling pointers,
  call after call, and so do the start function and the initialisation in the first call of Extism's.
\<close>

theorem store_pointers_native_dangle:
  assumes "loc \<noteq> a" "native_calls_at E show_host a cs p (build_new_pointers loc) = Some (t, p', q')"
    and "\<not> store_needs_reset p'" "raw_call_at E n input True [] a p' q' = Some (t2, r, vs, p2, q2)"
  shows "(\<forall>(y, ok) \<in> set t. \<not> ok) \<and> (\<forall>(y, ok) \<in> set t2. y \<in> {Start_code, Init_code} \<longrightarrow> \<not> ok)"
proof -
  have "\<not> usable a (build_new_pointers loc)" using assms(1) by (auto simp: build_new_pointers_def)
  with native_calls_at_usable [OF assms(2)] instantiation_at_usable [OF assms(4,3)] show ?thesis by blast
qed

theorem store_pointers_native_dangle_witness:
  "\<exists>p1 p2 q2 t2. native_calls_at echo_env (\<lambda>e. []) 2 [(bytes_of ''echo'', None)] idle_plugin (build_new_pointers 7) =
      Some ([(Start_code, False), (Init_code, False), (Guest_code, False)], p1, build_new_pointers 7) \<and>
     raw_call_at echo_env ''echo'' [] True [] 2 p1 (build_new_pointers 7) = Some (t2, Ok 0, [], p2, q2) \<and>
     (Start_code, True) \<notin> set t2"
proof -
  obtain p1 h where p1: "native_call_at echo_env (\<lambda>e. []) 2 idle_plugin (build_new_pointers 7) (bytes_of ''echo'') None =
      Some ([(Start_code, False), (Init_code, False), (Guest_code, False)], Some [I32 0], p1, build_new_pointers 7)"
    "instance_of p1 = Some [(''echo'', echo_func)]" "cp_ok (current p1) h" "\<not> store_needs_reset p1"
    using demo_idle_native by blast
  obtain p2 where "raw_call echo_env ''echo'' [] True [] p1 = Some (Ok 0, [], p2)"
    using echo_raw_call [OF p1(2) _ p1(4,3), of "''echo''" "[]" echo_env] by auto
  then obtain t2 q2 where call: "raw_call_at echo_env ''echo'' [] True [] 2 p1 (build_new_pointers 7) = Some (t2, Ok 0, [], p2, q2)"
    using raw_call_at_result [of echo_env "''echo''" "[]" True "[]" 2 p1 "build_new_pointers 7"] by auto
  have calls: "native_calls_at echo_env (\<lambda>e. []) 2 [(bytes_of ''echo'', None)] idle_plugin (build_new_pointers 7) =
      Some ([(Start_code, False), (Init_code, False), (Guest_code, False)], p1, build_new_pointers 7)"
    using p1(1) by simp
  from store_pointers_native_dangle [OF _ calls p1(4) call] calls call show ?thesis by fastforce
qed

section \<open>The life of a plugin\<close>



text \<open>
  C40: a plugin that is not in a call is not being watched: once the timer has handled the messages the
  plugin has sent so far, in their order and between those of any other plugins, it has no entry for it.
\<close>

theorem plugin_timer_clean:
  assumes "build_new B uuid src fs ws w d c = Inr b" "kernel_ships B"
    and "\<forall>f \<in> set fs. \<not> shadows_kernel (function_key f)" "\<forall>k \<in> memory_keys ws. \<not> shadows_kernel k"
    and "\<forall>(k, v) \<in> set (config (manifest (current (base b)))). small v"
    and "sandboxed H E" "\<forall>e. small (show_host e)"
    and "plugin_reach E show_host parse push_ok (base b) p"
    and "filter (concerns uuid) (map snd xs) = filter (concerns uuid) (sent p)"
    and "timer_handle_all xs t = Some t'" "btree_ok (plugins t)" "btree_get (plugins t) uuid = None"
  shows "btree_get (plugins t') uuid = None"
proof -
  have "\<not> watched uuid False (sent p)"
    using plugin_reach_fine [OF assms(8,6,7) built_fine(1) [OF assms(1-5)]] built_fine(2,3) [OF assms(1-5)] by simp
  then have "\<not> watched uuid False (map snd xs)" by (metis assms(9) watched_concerns)
  with timer_watched [OF assms(10,11), of uuid] assms(12) show ?thesis
    by (cases "btree_get (plugins t') uuid") simp_all
qed

theorem plugin_timer_clean_witness:
  "\<exists>b q t'. plugin_new demo_engine 1 (Input_data demo_wasm) [] False = Inr b \<and>
     extism_plugin_call echo_env (\<lambda>e. []) (Some (base b)) (bytes_of ''echo'') [104, 105] = Some (0, Some q) \<and>
     timer_handle_all ((0, Start 7 () (Some 5)) # map (\<lambda>x. (1, x)) (sent q)) (timer_init (\<lambda>e. 0)) = Some t' \<and>
     btree_get (plugins t') 1 = None \<and> btree_get (plugins t') 7 \<noteq> None"
proof -
  obtain b q where b: "plugin_new demo_engine 1 (Input_data demo_wasm) [] False = Inr b"
    and q: "extism_plugin_call echo_env (\<lambda>e. []) (Some (base b)) (bytes_of ''echo'') [104, 105] = Some (0, Some q)"
    using demo_c_call by blast
  have step: "plugin_step echo_env (\<lambda>e. []) (\<lambda>j. None) (\<lambda>e. True) (base b) q"
    by (rule step_c_call [OF _ _ q]) (simp_all add: small_def bytes_of_def)
  then have reach: "plugin_reach echo_env (\<lambda>e. []) (\<lambda>j. None) (\<lambda>e. True) (base b) q" by simp
  have sent: "sent (base b) = []" "plugin_id (base b) = 1" "plugin_fine H (base b)" for H
    using built_fine [OF b [unfolded plugin_new_def] demo_kernel_ships] demo_config [OF b] by (simp_all add: memory_keys_def)
  have "call_messages (base b) q \<or> sent q = [Cancel 1]"
    using plugin_step_lives [OF echo_sandboxed _ sent(3) step] sent by (simp add: lives_def)
  then have sq: "sent q = [] \<or> (\<exists>d. sent q = [Start 1 () d, Stop 1]) \<or> sent q = [Cancel 1]"
    using sent by (simp add: call_messages_def)
  let ?xs = "(0, Start 7 () (Some 5)) # map (\<lambda>x. (1, x)) (sent q)"
  obtain t' where t': "timer_handle_all ?xs (timer_init (\<lambda>e. 0)) = Some t'" "btree_get (plugins t') 7 \<noteq> None"
    using sq by (auto simp: timer_init_def)
  have "filter (concerns 1) (map snd ?xs) = filter (concerns 1) (sent q)" by (simp add: o_def)
  from plugin_timer_clean [OF b [unfolded plugin_new_def] demo_kernel_ships _ _ _ echo_sandboxed _ reach this t'(1)]
  have "btree_get (plugins t') 1 = None" using demo_config [OF b] by (simp add: memory_keys_def timer_init_def)
  with b q t' show ?thesis by blast
qed

end
